(* ===== verification/Prelude.thy ===== *)
theory Prelude
  imports Main "HOL-Library.Char_ord" "HOL-Library.List_Lexorder"
begin

text \<open>
  What the component theories share. A Go string is a sequence of bytes, so it is a
  \<open>string\<close> (a list of 8-bit characters) and \<open>length\<close> is Go's \<open>len\<close>. Errors are
  values of \<open>go_error\<close>, a fallible call returns \<open>go_error + 'a\<close>. The theory holds the
  helpers of the standard library's packages \<open>strings\<close> and \<open>strconv\<close> that the code uses,
  sorted association lists for Go maps, and generic lemmas on lists.
\<close>

named_theorems guard_defs \<open>definitions of the code's boolean guards\<close>
named_theorems row_simps \<open>how table operations act on the columns of a row\<close>

section \<open>Errors\<close>

datatype go_error =
    ErrMsg string
  | ErrNoRows
  | ErrNotExist
  | ErrStatus int

type_synonym 'a result = "go_error + 'a"

abbreviation fail :: "string \<Rightarrow> 'a result" where
  "fail msg \<equiv> Inl (ErrMsg msg)"

fun is_ok :: "'a result \<Rightarrow> bool" where
  "is_ok (Inl _) = False"
| "is_ok (Inr _) = True"

lemma is_ok_iff: "is_ok r \<longleftrightarrow> (\<exists>x. r = Inr x)"
  by (cases r) auto

section \<open>Bytes\<close>

definition byte :: "char \<Rightarrow> int" where
  "byte c = of_char c"

definition chr :: "int \<Rightarrow> char" where
  "chr n = char_of n"

lemma byte_range [simp]: "0 \<le> byte c" "byte c < 256"
proof -
  have "byte c = byte c mod 256"
    unfolding byte_def by (metis of_char_mod_256)
  then show "0 \<le> byte c" "byte c < 256"
    by presburger+
qed

lemma byte_chr: "byte (chr n) = n mod 256"
  by (simp add: byte_def chr_def)

lemma byte_chr_id [simp]: "0 \<le> n \<Longrightarrow> n < 256 \<Longrightarrow> byte (chr n) = n"
  by (simp add: byte_chr)

lemma chr_byte [simp]: "chr (byte c) = c"
  by (simp add: byte_def chr_def)

lemma byte_inj [simp]: "byte c = byte d \<longleftrightarrow> c = d"
  by (metis chr_byte)

definition is_digit :: "char \<Rightarrow> bool" where
  "is_digit c \<longleftrightarrow> 48 \<le> byte c \<and> byte c \<le> 57"

definition lower :: "char \<Rightarrow> char" where
  "lower c = (if 65 \<le> byte c \<and> byte c \<le> 90 then chr (byte c + 32) else c)"

section \<open>Package strings\<close>

definition has_prefix :: "string \<Rightarrow> string \<Rightarrow> bool" where
  "has_prefix s p \<longleftrightarrow> take (length p) s = p"

definition has_suffix :: "string \<Rightarrow> string \<Rightarrow> bool" where
  "has_suffix s p \<longleftrightarrow> has_prefix (rev s) (rev p)"

definition trim_prefix :: "string \<Rightarrow> string \<Rightarrow> string" where
  "trim_prefix s p = (if has_prefix s p then drop (length p) s else s)"

definition trim_suffix :: "string \<Rightarrow> string \<Rightarrow> string" where
  "trim_suffix s p = (if has_suffix s p then take (length s - length p) s else s)"

definition contains_any :: "string \<Rightarrow> string \<Rightarrow> bool" where
  "contains_any s cs \<longleftrightarrow> list_ex (\<lambda>c. c \<in> set cs) s"

definition trim_right :: "char \<Rightarrow> string \<Rightarrow> string" where
  "trim_right c s = rev (dropWhile (\<lambda>d. d = c) (rev s))"

fun cut :: "char \<Rightarrow> string \<Rightarrow> string \<times> string \<times> bool" where
  "cut c [] = ([], [], False)"
| "cut c (d # ds) = (if d = c then ([], ds, True)
     else (let (pre, post, found) = cut c ds in (d # pre, post, found)))"

fun split_on :: "char \<Rightarrow> string \<Rightarrow> string list" where
  "split_on c [] = [[]]"
| "split_on c (d # ds) = (if d = c then [] # split_on c ds
     else (case split_on c ds of [] \<Rightarrow> [[d]] | w # ws \<Rightarrow> (d # w) # ws))"

fun join_with :: "string \<Rightarrow> string list \<Rightarrow> string" where
  "join_with sep [] = []"
| "join_with sep [w] = w"
| "join_with sep (w # ws) = w @ sep @ join_with sep ws"

lemma has_prefix_iff: "has_prefix s p \<longleftrightarrow> (\<exists>t. s = p @ t)"
  unfolding has_prefix_def by (metis append_eq_conv_conj append_take_drop_id)

lemma has_prefix_append [simp]: "has_prefix (p @ t) p"
  by (simp add: has_prefix_def)

lemma has_suffix_iff: "has_suffix s p \<longleftrightarrow> (\<exists>t. s = t @ p)"
  unfolding has_suffix_def has_prefix_iff by (metis rev_append rev_rev_ident)

lemma trim_suffix_append [simp]: "trim_suffix (s @ p) p = s"
  by (simp add: trim_suffix_def has_suffix_iff)

lemma contains_any_iff: "contains_any s cs \<longleftrightarrow> set s \<inter> set cs \<noteq> {}"
  by (auto simp: contains_any_def list_ex_iff)

lemma trim_right_decomp: "\<exists>n. s = trim_right c s @ replicate n c"
proof -
  obtain n where "takeWhile (\<lambda>d. d = c) (rev s) = replicate n c"
    using replicate_length_same[of "takeWhile (\<lambda>d. d = c) (rev s)" c]
    by (metis set_takeWhileD)
  then have "rev s = replicate n c @ dropWhile (\<lambda>d. d = c) (rev s)"
    by (metis takeWhile_dropWhile_id)
  then have "s = trim_right c s @ replicate n c"
    unfolding trim_right_def by (metis rev_append rev_replicate rev_rev_ident)
  then show ?thesis
    by blast
qed

lemma trim_right_last: "trim_right c s \<noteq> [] \<Longrightarrow> last (trim_right c s) \<noteq> c"
  unfolding trim_right_def
  by (metis (mono_tags, lifting) hd_dropWhile last_rev rev_is_Nil_conv)

lemma trim_right_id: "s = [] \<or> last s \<noteq> c \<Longrightarrow> trim_right c s = s"
  by (cases s rule: rev_cases) (auto simp: trim_right_def)

lemma trim_right_idem [simp]: "trim_right c (trim_right c s) = trim_right c s"
  using trim_right_id trim_right_last by blast

lemma split_on_nonempty [simp]: "split_on c s \<noteq> []"
  by (induction s) (auto split: list.splits)

lemma join_split: "join_with [c] (split_on c s) = s"
proof (induction s)
  case Nil
  then show ?case by simp
next
  case (Cons d ds)
  obtain w ws where split: "split_on c ds = w # ws"
    by (metis list.exhaust split_on_nonempty)
  show ?case
    using Cons split by (cases ws) auto
qed

lemma split_on_no_sep: "w \<in> set (split_on c s) \<Longrightarrow> c \<notin> set w"
  by (induction s arbitrary: w) (auto split: list.splits if_splits)

section \<open>Package strconv\<close>

definition digit_char :: "int \<Rightarrow> char" where
  "digit_char d = chr (48 + d)"

function dec_digits :: "int \<Rightarrow> string" where
  "dec_digits n =
     (if n < 10 then [digit_char n] else dec_digits (n div 10) @ [digit_char (n mod 10)])"
  by pat_completeness auto
termination
  by (relation "measure nat") auto

declare dec_digits.simps [simp del]

definition format_int :: "int \<Rightarrow> string" where
  "format_int n = (if n < 0 then CHR ''-'' # dec_digits (- n) else dec_digits n)"

definition digits_value :: "string \<Rightarrow> int" where
  "digits_value s = foldl (\<lambda>v c. 10 * v + (byte c - 48)) 0 s"

definition all_digits :: "string \<Rightarrow> bool" where
  "all_digits s \<longleftrightarrow> s \<noteq> [] \<and> list_all is_digit s"

text \<open>\<open>strconv.ParseInt(s, 10, 64)\<close>: an optional sign and decimal digits, in range.\<close>

definition parse_int64 :: "string \<Rightarrow> int option" where
  "parse_int64 s =
     (let neg = (s \<noteq> [] \<and> hd s = CHR ''-'');
          ds = (if s \<noteq> [] \<and> (hd s = CHR ''-'' \<or> hd s = CHR ''+'') then tl s else s);
          v = (if neg then - digits_value ds else digits_value ds)
      in if all_digits ds \<and> - (2 ^ 63) \<le> v \<and> v < 2 ^ 63 then Some v else None)"

text \<open>\<open>strconv.ParseUint(s, 10, w)\<close>: decimal digits only, below \<open>2 ^ w\<close>.\<close>

definition parse_uint :: "nat \<Rightarrow> string \<Rightarrow> int option" where
  "parse_uint w s =
     (if all_digits s \<and> digits_value s < 2 ^ w then Some (digits_value s) else None)"

lemma digits_value_snoc [simp]: "digits_value (s @ [c]) = 10 * digits_value s + (byte c - 48)"
  by (simp add: digits_value_def)

lemma digits_value_Nil [simp]: "digits_value [] = 0"
  by (simp add: digits_value_def)

lemma digit_char_simps:
  assumes "0 \<le> d" "d < 10"
  shows "is_digit (digit_char d)" "byte (digit_char d) = 48 + d"
  using assms by (simp_all add: is_digit_def digit_char_def)

lemma dec_digits_correct:
  "0 \<le> n \<Longrightarrow> all_digits (dec_digits n) \<and> digits_value (dec_digits n) = n"
proof (induction n rule: dec_digits.induct)
  case (1 n)
  show ?case
  proof (cases "n < 10")
    case True
    have "digits_value [digit_char n] = n"
      using 1 True digits_value_snoc[of "[]"] by (simp add: digit_char_simps)
    then show ?thesis
      using 1 True by (simp add: dec_digits.simps[of n] all_digits_def digit_char_simps)
  next
    case False
    then have "all_digits (dec_digits (n div 10))" "digits_value (dec_digits (n div 10)) = n div 10"
      using 1 by auto
    with False show ?thesis
      by (simp add: dec_digits.simps[of n] all_digits_def digit_char_simps)
  qed
qed

lemma dec_digits_nonempty [simp]: "dec_digits n \<noteq> []"
  by (simp add: dec_digits.simps[of n])

lemma dec_digits_hd: "0 < n \<Longrightarrow> hd (dec_digits n) \<noteq> CHR ''0''"
proof (induction n rule: dec_digits.induct)
  case (1 n)
  show ?case
  proof (cases "n < 10")
    case True
    then have "byte (digit_char n) \<noteq> byte (CHR ''0'')"
      using 1(2) digit_char_simps(2)[of n] by (simp add: byte_def)
    then show ?thesis
      using True by (auto simp: dec_digits.simps[of n])
  next
    case False
    then show ?thesis
      using 1 by (simp add: dec_digits.simps[of n])
  qed
qed

lemmas dec_digits_value = dec_digits_correct [THEN conjunct2]
lemmas dec_digits_all = dec_digits_correct [THEN conjunct1]

lemma all_digits_hd:
  assumes "all_digits s"
  shows "s \<noteq> []" "hd s \<noteq> CHR ''-''" "hd s \<noteq> CHR ''+''"
  using assms by (cases s; auto simp: all_digits_def is_digit_def byte_def)+

lemma parse_int64_format:
  assumes "- (2 ^ 63) \<le> n" "n < 2 ^ 63"
  shows "parse_int64 (format_int n) = Some n"
proof (cases "n < 0")
  case True
  with assms show ?thesis
    using dec_digits_correct[of "- n"] by (simp add: parse_int64_def format_int_def)
next
  case False
  then have d: "all_digits (dec_digits n)" "digits_value (dec_digits n) = n"
    using dec_digits_correct[of n] by simp_all
  show ?thesis
    using False assms d all_digits_hd[OF d(1)]
    by (simp add: parse_int64_def format_int_def)
qed

section \<open>Go maps with string keys\<close>

text \<open>
  A \<open>map[string]V\<close> is an association list sorted by its distinct keys, which is also the
  order in which \<open>encoding/json\<close> writes it.
\<close>

type_synonym 'v gomap = "(string \<times> 'v) list"

definition map_ok :: "'v gomap \<Rightarrow> bool" where
  "map_ok m \<longleftrightarrow> sorted_wrt (<) (map fst m)"

definition map_get :: "'v gomap \<Rightarrow> string \<Rightarrow> 'v option" where
  "map_get m k = map_of m k"

fun map_put :: "string \<Rightarrow> 'v \<Rightarrow> 'v gomap \<Rightarrow> 'v gomap" where
  "map_put k v [] = [(k, v)]"
| "map_put k v ((l, w) # m) =
     (if k < l then (k, v) # (l, w) # m
      else if k = l then (k, v) # m
      else (l, w) # map_put k v m)"

definition map_del :: "string \<Rightarrow> 'v gomap \<Rightarrow> 'v gomap" where
  "map_del k m = filter (\<lambda>e. fst e \<noteq> k) m"

lemma map_ok_Nil [simp]: "map_ok []"
  by (simp add: map_ok_def)

lemma map_ok_Cons: "map_ok (e # m) \<longleftrightarrow> (\<forall>x \<in> set m. fst e < fst x) \<and> map_ok m"
  by (auto simp: map_ok_def)

lemma map_ok_distinct: "map_ok m \<Longrightarrow> distinct (map fst m)"
  by (induction m) (auto simp: map_ok_Cons)

lemma map_put_keys: "fst ` set (map_put k v m) = insert k (fst ` set m)"
proof (induction m)
  case (Cons e m)
  then show ?case
    by (cases e) (simp add: insert_commute)
qed simp

lemma map_put_ok [simp]: "map_ok m \<Longrightarrow> map_ok (map_put k v m)"
proof (induction m)
  case Nil
  then show ?case by (simp add: map_ok_Cons)
next
  case (Cons e m)
  obtain l w where e: "e = (l, w)" by fastforce
  have "\<forall>x \<in> set (map_put k v m). l < fst x" if "l < k"
  proof
    fix x assume "x \<in> set (map_put k v m)"
    then have "fst x \<in> insert k (fst ` set m)"
      using map_put_keys by (metis image_eqI)
    then show "l < fst x"
      using Cons.prems that by (auto simp: e map_ok_Cons)
  qed
  with Cons show ?case
    by (auto simp: e map_ok_Cons)
qed

lemma map_get_put: "map_ok m \<Longrightarrow> map_get (map_put k v m) k' = (if k' = k then Some v else map_get m k')"
proof (induction m)
  case Nil
  then show ?case by (simp add: map_get_def)
next
  case (Cons e m)
  then show ?case
    by (cases e) (auto simp: map_get_def map_ok_Cons)
qed

lemma map_del_ok [simp]: "map_ok m \<Longrightarrow> map_ok (map_del k m)"
  by (induction m) (auto simp: map_ok_Cons map_del_def)

lemma map_get_del: "map_get (map_del k m) k' = (if k' = k then None else map_get m k')"
  by (induction m) (auto simp: map_get_def map_del_def)

lemma map_put_append:
  "map_ok (m @ [(k, v)]) \<Longrightarrow> map_put k v m = m @ [(k, v)]"
  by (induction m) (auto simp: map_ok_Cons)

lemma map_ext:
  assumes "map_ok m" "map_ok n" "\<And>k. map_get m k = map_get n k"
  shows "m = n"
proof -
  have set: "set m = set n"
  proof (rule set_eqI)
    fix e :: "string \<times> 'a"
    obtain k v where e: "e = (k, v)" by fastforce
    have "(k, v) \<in> set m \<longleftrightarrow> map_of m k = Some v" "(k, v) \<in> set n \<longleftrightarrow> map_of n k = Some v"
      using assms(1,2) by (simp_all add: map_ok_distinct)
    then show "e \<in> set m \<longleftrightarrow> e \<in> set n"
      using assms(3)[of k] by (simp add: e map_get_def)
  qed
  have keys: "map fst m = map fst n"
    using assms(1,2) strict_sorted_equal[of "map fst m" "map fst n"] set
    by (simp add: map_ok_def)
  have "inj_on fst (set m)"
    using map_ok_distinct[OF assms(1)] by (simp add: distinct_map)
  then show ?thesis
    using keys set by (metis map_inj_on sup.idem)
qed

end
