(* ===== verification/GoText.thy ===== *)
theory GoText
  imports Prelude
begin

text \<open>
  Text as Go sees it: a string is a sequence of bytes, \<open>range\<close> and the packages
  \<open>unicode\<close>, \<open>unicode/utf8\<close> and \<open>strings\<close> read it as UTF-8. A rune is an \<open>int\<close>;
  an invalid byte decodes to the replacement rune with width 1. The theory holds the decoder and
  the encoder, the rune classes the code uses (white space, control, format), and the fact that
  the encoder and the decoder are inverse to each other on well-formed text.
\<close>

section \<open>UTF-8\<close>

abbreviation rune_error :: int where
  "rune_error \<equiv> 65533"

definition cont :: "char \<Rightarrow> bool" where
  "cont c \<longleftrightarrow> 128 \<le> byte c \<and> byte c \<le> 191"

definition scalar :: "int \<Rightarrow> bool" where
  "scalar r \<longleftrightarrow> 0 \<le> r \<and> r \<le> 1114111 \<and> \<not> (55296 \<le> r \<and> r \<le> 57343)"

text \<open>\<open>utf8.DecodeRuneInString\<close>: the rune and its width; the ranges of the second byte
  exclude overlong forms, surrogates and values above the last code point.\<close>

definition decode_two :: "int \<Rightarrow> string \<Rightarrow> int \<times> nat" where
  "decode_two b cs = (case cs of
       c1 # _ \<Rightarrow> if cont c1 then ((b - 192) * 64 + (byte c1 - 128), 2) else (rune_error, 1)
     | _ \<Rightarrow> (rune_error, 1))"

definition decode_three :: "int \<Rightarrow> string \<Rightarrow> int \<times> nat" where
  "decode_three b cs = (case cs of
       c1 # c2 # _ \<Rightarrow>
         if cont c1 \<and> (b = 224 \<longrightarrow> 160 \<le> byte c1) \<and> (b = 237 \<longrightarrow> byte c1 \<le> 159) \<and> cont c2
         then ((b - 224) * 4096 + (byte c1 - 128) * 64 + (byte c2 - 128), 3)
         else (rune_error, 1)
     | _ \<Rightarrow> (rune_error, 1))"

definition decode_four :: "int \<Rightarrow> string \<Rightarrow> int \<times> nat" where
  "decode_four b cs = (case cs of
       c1 # c2 # c3 # _ \<Rightarrow>
         if cont c1 \<and> (b = 240 \<longrightarrow> 144 \<le> byte c1) \<and> (b = 244 \<longrightarrow> byte c1 \<le> 143)
            \<and> cont c2 \<and> cont c3
         then ((b - 240) * 262144 + (byte c1 - 128) * 4096 + (byte c2 - 128) * 64 + (byte c3 - 128), 4)
         else (rune_error, 1)
     | _ \<Rightarrow> (rune_error, 1))"

definition decode_rune :: "char \<Rightarrow> string \<Rightarrow> int \<times> nat" where
  "decode_rune c cs =
     (let b = byte c
      in if b < 128 then (b, 1)
         else if 194 \<le> b \<and> b \<le> 223 then decode_two b cs
         else if 224 \<le> b \<and> b \<le> 239 then decode_three b cs
         else if 240 \<le> b \<and> b \<le> 244 then decode_four b cs
         else (rune_error, 1))"

definition encode_rune :: "int \<Rightarrow> string" where
  "encode_rune r0 =
     (let r = (if scalar r0 then r0 else rune_error)
      in if r < 128 then [chr r]
         else if r < 2048 then [chr (192 + r div 64), chr (128 + r mod 64)]
         else if r < 65536
           then [chr (224 + r div 4096), chr (128 + r div 64 mod 64), chr (128 + r mod 64)]
         else [chr (240 + r div 262144), chr (128 + r div 4096 mod 64),
               chr (128 + r div 64 mod 64), chr (128 + r mod 64)])"

text \<open>\<open>for _, r := range s\<close>: the runes of a string with their widths.\<close>

function units :: "string \<Rightarrow> (int \<times> nat) list" where
  "units [] = []"
| "units (c # cs) = (let (r, n) = decode_rune c cs in (r, n) # units (drop (n - 1) cs))"
  by pat_completeness auto
termination
  by (relation "measure length") auto

definition runes :: "string \<Rightarrow> int list" where
  "runes s = map fst (units s)"

definition encode_runes :: "int list \<Rightarrow> string" where
  "encode_runes rs = concat (map encode_rune rs)"

definition bad_unit :: "int \<times> nat \<Rightarrow> bool" where
  "bad_unit u \<longleftrightarrow> u = (rune_error, 1)"

definition valid_utf8 :: "string \<Rightarrow> bool" where
  "valid_utf8 s \<longleftrightarrow> (\<forall>u \<in> set (units s). \<not> bad_unit u)"

section \<open>Rune classes\<close>

definition is_space :: "int \<Rightarrow> bool" where
  "is_space r \<longleftrightarrow> 9 \<le> r \<and> r \<le> 13 \<or> r = 32 \<or> r = 133 \<or> r = 160 \<or> r = 5760
     \<or> 8192 \<le> r \<and> r \<le> 8202 \<or> r = 8232 \<or> r = 8233 \<or> r = 8239 \<or> r = 8287 \<or> r = 12288"

definition is_control :: "int \<Rightarrow> bool" where
  "is_control r \<longleftrightarrow> 0 \<le> r \<and> r \<le> 31 \<or> 127 \<le> r \<and> r \<le> 159"

text \<open>The category Cf of the Unicode 15.0 tables that Go 1.26 ships.\<close>

definition cf_ranges :: "(int \<times> int) list" where
  "cf_ranges = [(173, 173), (1536, 1541), (1564, 1564), (1757, 1757), (1807, 1807),
     (2192, 2193), (2274, 2274), (6158, 6158), (8203, 8207), (8234, 8238), (8288, 8292),
     (8294, 8303), (65279, 65279), (65529, 65531), (69821, 69821), (69837, 69837),
     (78896, 78911), (113824, 113827), (119155, 119162), (917505, 917505), (917536, 917631)]"

definition is_format :: "int \<Rightarrow> bool" where
  "is_format r \<longleftrightarrow> list_ex (\<lambda>(lo, hi). lo \<le> r \<and> r \<le> hi) cf_ranges"

section \<open>Encoding and decoding are inverse\<close>

lemma decode_rune_width: "1 \<le> snd (decode_rune c cs)" "snd (decode_rune c cs) \<le> 4"
  by (auto simp: decode_rune_def Let_def decode_two_def decode_three_def decode_four_def
      split: list.splits)

lemma encode_rune_length: "1 \<le> length (encode_rune r)" "length (encode_rune r) \<le> 4"
  by (auto simp: encode_rune_def Let_def)

lemma encode_rune_nonempty [simp]: "encode_rune r \<noteq> []"
  using encode_rune_length(1)[of r] by auto

lemma encode_ascii: "0 \<le> r \<Longrightarrow> r < 128 \<Longrightarrow> encode_rune r = [chr r]"
  by (simp add: encode_rune_def scalar_def)


lemma div_le_bound:
  assumes "(r::int) < k * (n + 1)" "0 < k"
  shows "r div k \<le> n"
proof (rule ccontr)
  assume "\<not> r div k \<le> n"
  then have "k * (n + 1) \<le> k * (r div k)"
    using assms(2) by simp
  also have "\<dots> \<le> r"
    using assms(2) by (metis mult_div_mod_eq pos_mod_sign add_increasing2 order_refl)
  finally show False
    using assms(1) by simp
qed

lemma split64: "(r::int) div 64 * 64 + r mod 64 = r"
  by simp

lemma split4096: "(r::int) div 4096 * 4096 + r div 64 mod 64 * 64 + r mod 64 = r"
proof -
  have "r div 4096 = r div 64 div 64"
    by (simp add: zdiv_zmult2_eq [symmetric])
  then show ?thesis
    using split64[of r] split64[of "r div 64"] by linarith
qed

lemma split262144:
  "(r::int) div 262144 * 262144 + r div 4096 mod 64 * 4096 + r div 64 mod 64 * 64 + r mod 64 = r"
proof -
  have "r div 262144 = r div 4096 div 64"
    by (simp add: zdiv_zmult2_eq [symmetric])
  then show ?thesis
    using split4096[of r] split64[of "r div 4096"] by linarith
qed

lemma decode_encode_two:
  assumes "128 \<le> r" "r < 2048"
  shows "decode_rune (chr (192 + r div 64)) (chr (128 + r mod 64) # t) = (r, 2)"
proof -
  have b: "byte (chr (192 + r div 64)) = 192 + r div 64" "byte (chr (128 + r mod 64)) = 128 + r mod 64"
    using assms by (auto intro!: byte_chr_id)
  have "194 \<le> 192 + r div 64" "192 + r div 64 \<le> 223" "r mod 64 < 64"
    using assms by presburger+
  then show ?thesis
    using split64[of r] b by (simp add: decode_rune_def decode_two_def cont_def)
qed

lemma decode_three_bytes:
  assumes "byte c = 224 + a" "byte c1 = 128 + b" "byte c2 = 128 + d"
    "0 \<le> a" "a \<le> 15" "0 \<le> b" "b < 64" "0 \<le> d" "d < 64"
    "a = 0 \<Longrightarrow> 32 \<le> b" "a = 13 \<Longrightarrow> b \<le> 31"
  shows "decode_rune c (c1 # c2 # t) = (a * 4096 + b * 64 + d, 3)"
  using assms by (simp add: decode_rune_def decode_three_def cont_def)

lemma decode_four_bytes:
  assumes "byte c = 240 + a" "byte c1 = 128 + b" "byte c2 = 128 + d" "byte c3 = 128 + e"
    "0 \<le> a" "a \<le> 4" "0 \<le> b" "b < 64" "0 \<le> d" "d < 64" "0 \<le> e" "e < 64"
    "a = 0 \<Longrightarrow> 16 \<le> b" "a = 4 \<Longrightarrow> b \<le> 15"
  shows "decode_rune c (c1 # c2 # c3 # t) = (a * 262144 + b * 4096 + d * 64 + e, 4)"
  using assms by (simp add: decode_rune_def decode_four_def cont_def)

lemma decode_encode_three:
  assumes "scalar r" "2048 \<le> r" "r < 65536"
  shows "decode_rune (chr (224 + r div 4096))
           (chr (128 + r div 64 mod 64) # chr (128 + r mod 64) # t) = (r, 3)"
proof -
  have "32 \<le> r div 64 mod 64" if "r div 4096 = 0"
  proof -
    have "r mod 64 < 64"
      by simp
    then show ?thesis
      using split4096[of r] that assms(2) by linarith
  qed
  moreover have "r div 64 mod 64 \<le> 31" if "r div 4096 = 13"
  proof (rule ccontr)
    assume "\<not> r div 64 mod 64 \<le> 31"
    moreover have "0 \<le> r mod 64" "r mod 64 < 64" "r div 64 mod 64 < 64"
      by simp_all
    ultimately show False
      using split4096[of r] that assms(1) unfolding scalar_def by linarith
  qed
  moreover have "r div 4096 \<le> 15" "0 \<le> r div 4096"
    using assms(2,3) div_le_bound[of r 4096 15] by simp_all
  moreover have "0 \<le> r div 64 mod 64" "r div 64 mod 64 < 64" "0 \<le> r mod 64" "r mod 64 < 64"
    by simp_all
  moreover note e = calculation(3-8)
  moreover have "byte (chr (224 + r div 4096)) = 224 + r div 4096"
    "byte (chr (128 + r div 64 mod 64)) = 128 + r div 64 mod 64"
    "byte (chr (128 + r mod 64)) = 128 + r mod 64"
    using e by (intro byte_chr_id; linarith)+
  ultimately have "decode_rune (chr (224 + r div 4096))
      (chr (128 + r div 64 mod 64) # chr (128 + r mod 64) # t)
      = (r div 4096 * 4096 + r div 64 mod 64 * 64 + r mod 64, 3)"
    by (intro decode_three_bytes)
  then show ?thesis
    by (simp only: split4096)
qed

lemma decode_encode_four:
  assumes "scalar r" "65536 \<le> r"
  shows "decode_rune (chr (240 + r div 262144))
           (chr (128 + r div 4096 mod 64) # chr (128 + r div 64 mod 64) # chr (128 + r mod 64) # t)
         = (r, 4)"
proof -
  have r: "r \<le> 1114111"
    using assms by (simp add: scalar_def)
  have "16 \<le> r div 4096 mod 64" if "r div 262144 = 0"
  proof -
    have "r mod 64 < 64" "r div 64 mod 64 < 64"
      by simp_all
    then show ?thesis
      using split262144[of r] that assms(2) by linarith
  qed
  moreover have "r div 4096 mod 64 \<le> 15" if "r div 262144 = 4"
  proof -
    have "0 \<le> r mod 64" "0 \<le> r div 64 mod 64"
      by simp_all
    then show ?thesis
      using split262144[of r] that r by linarith
  qed
  moreover have "r div 262144 \<le> 4" "0 \<le> r div 262144"
    using assms(2) r div_le_bound[of r 262144 4] by simp_all
  moreover have "0 \<le> r div 4096 mod 64" "r div 4096 mod 64 < 64" "0 \<le> r div 64 mod 64"
    "r div 64 mod 64 < 64" "0 \<le> r mod 64" "r mod 64 < 64"
    by simp_all
  moreover note e = calculation(3-10)
  moreover have "byte (chr (240 + r div 262144)) = 240 + r div 262144"
    "byte (chr (128 + r div 4096 mod 64)) = 128 + r div 4096 mod 64"
    "byte (chr (128 + r div 64 mod 64)) = 128 + r div 64 mod 64"
    "byte (chr (128 + r mod 64)) = 128 + r mod 64"
    using e by (intro byte_chr_id; linarith)+
  ultimately have "decode_rune (chr (240 + r div 262144))
      (chr (128 + r div 4096 mod 64) # chr (128 + r div 64 mod 64) # chr (128 + r mod 64) # t)
      = (r div 262144 * 262144 + r div 4096 mod 64 * 4096 + r div 64 mod 64 * 64 + r mod 64, 4)"
    by (intro decode_four_bytes)
  then show ?thesis
    by (simp only: split262144)
qed

lemma units_encode:
  assumes "scalar r"
  shows "units (encode_rune r @ t) = (r, length (encode_rune r)) # units t"
proof -
  have r: "0 \<le> r" "r \<le> 1114111"
    using assms by (simp_all add: scalar_def)
  consider "r < 128" | "128 \<le> r" "r < 2048" | "2048 \<le> r" "r < 65536" | "65536 \<le> r"
    by linarith
  then show ?thesis
  proof cases
    case 1
    then show ?thesis
      using assms r by (simp add: encode_rune_def decode_rune_def)
  next
    case 2
    then show ?thesis
      using assms decode_encode_two[of r t] by (simp add: encode_rune_def)
  next
    case 3
    then show ?thesis
      using assms decode_encode_three[of r t] by (simp add: encode_rune_def)
  next
    case 4
    then show ?thesis
      using assms decode_encode_four[of r t] by (simp add: encode_rune_def)
  qed
qed

lemma units_encode_runes:
  "list_all scalar rs \<Longrightarrow>
     units (encode_runes rs @ t) = map (\<lambda>r. (r, length (encode_rune r))) rs @ units t"
  by (induction rs) (simp_all add: encode_runes_def units_encode)

lemma runes_encode_runes [simp]: "list_all scalar rs \<Longrightarrow> runes (encode_runes rs) = rs"
  using units_encode_runes[of rs "[]"] by (simp add: runes_def comp_def)

lemma rune_error_not_bad: "\<not> bad_unit (r, length (encode_rune r))"
  by (auto simp: bad_unit_def encode_rune_def scalar_def)

lemma valid_encode_runes [simp]: "list_all scalar rs \<Longrightarrow> valid_utf8 (encode_runes rs)"
  using units_encode_runes[of rs "[]"] by (auto simp: valid_utf8_def rune_error_not_bad)

lemma scalar_rune_error [simp]: "scalar rune_error"
  by (simp add: scalar_def)

lemma div_mod_64:
  assumes "0 \<le> (m::int)" "m < 64"
  shows "(h * 64 + m) div 64 = h" "(h * 64 + m) mod 64 = m"
  using assms by auto

lemma cont_range: "cont c \<Longrightarrow> 0 \<le> byte c - 128 \<and> byte c - 128 < 64"
  by (auto simp: cont_def)

lemma cont_chr: "cont c \<Longrightarrow> chr (128 + (byte c - 128)) = c"
  by simp

lemma decode_two_encode:
  assumes "decode_two (byte c) cs = (r, n)" "194 \<le> byte c" "byte c \<le> 223" "\<not> bad_unit (r, n)"
  shows "scalar r \<and> encode_rune r @ drop (n - 1) cs = c # cs"
proof -
  obtain c1 cs' where cs: "cs = c1 # cs'" "cont c1"
    and r: "r = (byte c - 192) * 64 + (byte c1 - 128)" and n: "n = 2"
    using assms by (auto simp: decode_two_def bad_unit_def split: list.splits if_splits)
  note m = cont_range[OF cs(2)]
  have d: "r div 64 = byte c - 192"
    unfolding r using m by (intro div_mod_64) auto
  have e: "r mod 64 = byte c1 - 128"
    unfolding r using m by (intro div_mod_64) auto
  have "128 \<le> r" "r < 2048"
    using assms m by (auto simp: r)
  then show ?thesis
    by (simp add: encode_rune_def scalar_def d e cs(1) n)
qed

lemma decode_three_encode:
  assumes "decode_three (byte c) cs = (r, n)" "224 \<le> byte c" "byte c \<le> 239" "\<not> bad_unit (r, n)"
  shows "scalar r \<and> encode_rune r @ drop (n - 1) cs = c # cs"
proof -
  obtain c1 c2 cs' where cs: "cs = c1 # c2 # cs'" "cont c1" "cont c2"
    and lim: "byte c = 224 \<longrightarrow> 160 \<le> byte c1" "byte c = 237 \<longrightarrow> byte c1 \<le> 159"
    and r: "r = (byte c - 224) * 4096 + (byte c1 - 128) * 64 + (byte c2 - 128)" and n: "n = 3"
    using assms by (auto simp: decode_three_def bad_unit_def split: list.splits if_splits)
  note m = cont_range[OF cs(2)] cont_range[OF cs(3)]
  have r': "r = ((byte c - 224) * 64 + (byte c1 - 128)) * 64 + (byte c2 - 128)"
    by (simp add: r)
  have d: "r div 64 = (byte c - 224) * 64 + (byte c1 - 128)"
    unfolding r' using m by (intro div_mod_64) auto
  have e: "r mod 64 = byte c2 - 128"
    unfolding r' using m by (intro div_mod_64) auto
  have d2: "r div 4096 = byte c - 224" "r div 64 mod 64 = byte c1 - 128"
    using m div_mod_64[of "byte c1 - 128" "byte c - 224"] zdiv_zmult2_eq[of 64 r 64] d by auto
  have "byte c \<le> 236 \<or> byte c = 237 \<or> 238 \<le> byte c"
    by linarith
  then have "\<not> (55296 \<le> r \<and> r \<le> 57343)"
    using m lim(2) unfolding r by (elim disjE) auto
  moreover have "2048 \<le> r" "r < 65536"
    using assms(2,3) m lim by (auto simp: r)
  ultimately have "2048 \<le> r" "r < 65536" "\<not> (55296 \<le> r \<and> r \<le> 57343)"
    by simp_all
  then show ?thesis
    using d e d2 by (simp add: encode_rune_def scalar_def cs(1) n)
qed

lemma decode_four_encode:
  assumes "decode_four (byte c) cs = (r, n)" "240 \<le> byte c" "byte c \<le> 244" "\<not> bad_unit (r, n)"
  shows "scalar r \<and> encode_rune r @ drop (n - 1) cs = c # cs"
proof -
  obtain c1 c2 c3 cs' where cs: "cs = c1 # c2 # c3 # cs'" "cont c1" "cont c2" "cont c3"
    and lim: "byte c = 240 \<longrightarrow> 144 \<le> byte c1" "byte c = 244 \<longrightarrow> byte c1 \<le> 143"
    and r: "r = (byte c - 240) * 262144 + (byte c1 - 128) * 4096 + (byte c2 - 128) * 64
                + (byte c3 - 128)" and n: "n = 4"
    using assms by (auto simp: decode_four_def bad_unit_def split: list.splits if_splits)
  note m = cont_range[OF cs(2)] cont_range[OF cs(3)] cont_range[OF cs(4)]
  have r': "r = (((byte c - 240) * 64 + (byte c1 - 128)) * 64 + (byte c2 - 128)) * 64 + (byte c3 - 128)"
    by (simp add: r)
  have d: "r div 64 = ((byte c - 240) * 64 + (byte c1 - 128)) * 64 + (byte c2 - 128)"
    unfolding r' using m by (intro div_mod_64) auto
  have e: "r mod 64 = byte c3 - 128"
    unfolding r' using m by (intro div_mod_64) auto
  have "r div 4096 = r div 64 div 64" "r div 262144 = r div 4096 div 64"
    by (simp_all add: zdiv_zmult2_eq [symmetric])
  note q = this
  have d2: "r div 4096 = (byte c - 240) * 64 + (byte c1 - 128)" "r div 64 mod 64 = byte c2 - 128"
    unfolding q(1) d using m by (intro div_mod_64; simp)+
  have d3: "r div 262144 = byte c - 240" "r div 4096 mod 64 = byte c1 - 128"
    unfolding q(2) d2 using m by (intro div_mod_64; simp)+
  have "65536 \<le> r" "r \<le> 1114111"
    using assms(2,3) m lim by (auto simp: r)
  then have "scalar r" "\<not> r < 128" "\<not> r < 2048" "\<not> r < 65536"
    by (simp_all add: scalar_def)
  moreover from this have "encode_rune r = [c, c1, c2, c3]"
    by (simp add: encode_rune_def d2(2) d3 e)
  ultimately show ?thesis
    by (simp add: cs(1) n)
qed

lemma decode_rune_encode:
  assumes "decode_rune c cs = (r, n)" "\<not> bad_unit (r, n)"
  shows "scalar r \<and> encode_rune r @ drop (n - 1) cs = c # cs"
proof -
  consider "byte c < 128" | "194 \<le> byte c" "byte c \<le> 223" | "224 \<le> byte c" "byte c \<le> 239"
    | "240 \<le> byte c" "byte c \<le> 244"
    using assms by (auto simp: decode_rune_def bad_unit_def Let_def split: if_splits)
  then show ?thesis
  proof cases
    case 1
    then show ?thesis
      using assms by (auto simp: decode_rune_def encode_rune_def scalar_def)
  next
    case 2
    then show ?thesis
      using assms decode_two_encode by (simp add: decode_rune_def)
  next
    case 3
    then show ?thesis
      using assms decode_three_encode by (simp add: decode_rune_def)
  next
    case 4
    then show ?thesis
      using assms decode_four_encode by (simp add: decode_rune_def)
  qed
qed

lemma decode_rune_scalar: "scalar (fst (decode_rune c cs))"
proof (cases "bad_unit (decode_rune c cs)")
  case True
  then show ?thesis by (simp add: bad_unit_def)
next
  case False
  then show ?thesis
    using decode_rune_encode[of c cs "fst (decode_rune c cs)" "snd (decode_rune c cs)"] by simp
qed

lemma runes_scalar [simp]: "list_all scalar (runes s)"
proof (induction s rule: units.induct)
  case 1
  then show ?case by (simp add: runes_def)
next
  case (2 c cs)
  obtain r n where d: "decode_rune c cs = (r, n)" by fastforce
  then show ?case
    using 2[of "(r, n)" r n] decode_rune_scalar[of c cs] by (simp add: runes_def)
qed

lemma encode_valid: "valid_utf8 s \<Longrightarrow> encode_runes (runes s) = s"
proof (induction s rule: units.induct)
  case 1
  then show ?case by (simp add: runes_def encode_runes_def)
next
  case (2 c cs)
  obtain r n where d: "decode_rune c cs = (r, n)" by fastforce
  then have "valid_utf8 (drop (n - 1) cs)" "\<not> bad_unit (r, n)"
    using 2(2) by (auto simp: valid_utf8_def)
  moreover from this have "encode_runes (runes (drop (n - 1) cs)) = drop (n - 1) cs"
    using 2(1)[of "(r, n)" r n] d by simp
  ultimately show ?case
    using d decode_rune_encode[OF d] by (simp add: runes_def encode_runes_def)
qed

text \<open>Coercion to well-formed UTF-8, as \<open>encoding/json\<close> does on both of its sides.\<close>

definition coerce_utf8 :: "string \<Rightarrow> string" where
  "coerce_utf8 s = encode_runes (runes s)"

lemma coerce_valid [simp]: "valid_utf8 (coerce_utf8 s)"
  by (simp add: coerce_utf8_def)

lemma coerce_id: "valid_utf8 s \<Longrightarrow> coerce_utf8 s = s"
  by (simp add: coerce_utf8_def encode_valid)

lemma valid_utf8_iff: "valid_utf8 s \<longleftrightarrow> coerce_utf8 s = s"
  using coerce_valid coerce_id by metis

definition ascii :: "string \<Rightarrow> bool" where
  "ascii s \<longleftrightarrow> list_all (\<lambda>c. byte c < 128) s"

lemma units_ascii_Cons: "byte c < 128 \<Longrightarrow> units (c # cs) = (byte c, 1) # units cs"
  by (simp add: decode_rune_def)

lemma runes_ascii: "ascii s \<Longrightarrow> runes s = map byte s"
  by (induction s) (simp_all add: ascii_def runes_def units_ascii_Cons del: units.simps(2))

lemma valid_ascii: "ascii s \<Longrightarrow> valid_utf8 s"
  by (induction s)
    (auto simp: ascii_def valid_utf8_def units_ascii_Cons bad_unit_def simp del: units.simps(2))

lemma length_encode_runes: "length (encode_runes rs) = sum_list (map (length \<circ> encode_rune) rs)"
  by (simp add: encode_runes_def length_concat comp_def)

end
