(* ===== verification/Json.thy ===== *)
theory Json
  imports GoText
begin

text \<open>
  Package \<open>encoding/json\<close> as far as the agent uses it. A JSON text is a tree whose numbers keep
  their literal text, as \<open>json.RawMessage\<close> does. \<open>json_print\<close> is \<open>Marshal\<close> with its string
  escaping, \<open>json_print_indent\<close> is \<open>MarshalIndent\<close> with two blanks, \<open>parse_prefix\<close> is one
  \<open>Decoder.Decode\<close> and \<open>json_parse\<close> is the syntax check of \<open>Unmarshal\<close>. The scanner's limit of
  10000 nested values is not modelled. The parser spends one unit of fuel per call;
  \<open>parse_value_fuel\<close> shows that the fuel \<open>json_parse\<close> gives it is enough for every text.
\<close>

datatype json =
    JNull
  | JBool bool
  | JNum string
  | JStr string
  | JArr "json list"
  | JObj "(string \<times> json) list"

section \<open>Printing\<close>

abbreviation dquote :: char where "dquote \<equiv> CHR 0x22"
abbreviation bslash :: char where "bslash \<equiv> CHR 0x5C"

definition hex_digit :: "int \<Rightarrow> char" where
  "hex_digit d = (if d < 10 then chr (48 + d) else chr (87 + d))"

definition escape_u :: "int \<Rightarrow> string" where
  "escape_u r = [bslash, CHR ''u'', hex_digit (r div 4096 mod 16), hex_digit (r div 256 mod 16),
     hex_digit (r div 16 mod 16), hex_digit (r mod 16)]"

definition escape_ascii :: "int \<Rightarrow> string" where
  "escape_ascii r =
     (if r = 34 \<or> r = 92 then [bslash, chr r]
      else if r = 8 then [bslash, CHR ''b'']
      else if r = 12 then [bslash, CHR ''f'']
      else if r = 10 then [bslash, CHR ''n'']
      else if r = 13 then [bslash, CHR ''r'']
      else if r = 9 then [bslash, CHR ''t'']
      else if r < 32 \<or> r = 60 \<or> r = 62 \<or> r = 38 then escape_u r
      else [chr r])"

definition escape_unit :: "int \<times> nat \<Rightarrow> string" where
  "escape_unit u =
     (let r = fst u
      in if bad_unit u then escape_u rune_error
         else if r < 128 then escape_ascii r
         else if r = 8232 \<or> r = 8233 then escape_u r
         else encode_rune r)"

definition json_quote :: "string \<Rightarrow> string" where
  "json_quote s = dquote # concat (map escape_unit (units s)) @ [dquote]"

text \<open>One printer for both layouts: \<open>nl d\<close> is the white space before a line at depth \<open>d\<close>,
  \<open>colon\<close> what separates a key from its value.\<close>

fun json_layout :: "(nat \<Rightarrow> string) \<Rightarrow> string \<Rightarrow> nat \<Rightarrow> json \<Rightarrow> string" where
  "json_layout nl colon d JNull = ''null''"
| "json_layout nl colon d (JBool b) = (if b then ''true'' else ''false'')"
| "json_layout nl colon d (JNum lit) = lit"
| "json_layout nl colon d (JStr s) = json_quote s"
| "json_layout nl colon d (JArr vs) =
     (if vs = [] then ''[]''
      else CHR ''['' # nl (Suc d)
        @ join_with (CHR '','' # nl (Suc d)) (map (json_layout nl colon (Suc d)) vs)
        @ nl d @ '']'')"
| "json_layout nl colon d (JObj ms) =
     (if ms = [] then ''{}''
      else CHR ''{'' # nl (Suc d)
        @ join_with (CHR '','' # nl (Suc d))
            (map (\<lambda>(k, v). json_quote k @ colon @ json_layout nl colon (Suc d) v) ms)
        @ nl d @ ''}'')"

definition json_print :: "json \<Rightarrow> string" where
  "json_print = json_layout (\<lambda>_. []) '':'' 0"

definition json_print_indent :: "json \<Rightarrow> string" where
  "json_print_indent = json_layout (\<lambda>d. CHR 10 # replicate (2 * d) (CHR '' '')) '': '' 0"

section \<open>Parsing\<close>

definition is_ws :: "char \<Rightarrow> bool" where
  "is_ws c \<longleftrightarrow> c = CHR '' '' \<or> c = CHR 9 \<or> c = CHR 10 \<or> c = CHR 13"

definition skip_ws :: "string \<Rightarrow> string" where
  "skip_ws s = dropWhile is_ws s"

definition hex_value :: "char \<Rightarrow> int option" where
  "hex_value c =
     (let b = byte c
      in if 48 \<le> b \<and> b \<le> 57 then Some (b - 48)
         else if 97 \<le> b \<and> b \<le> 102 then Some (b - 87)
         else if 65 \<le> b \<and> b \<le> 70 then Some (b - 55)
         else None)"

fun hex4 :: "string \<Rightarrow> int option" where
  "hex4 (a # b # c # d # _) =
     (case (hex_value a, hex_value b, hex_value c, hex_value d) of
        (Some w, Some x, Some y, Some z) \<Rightarrow> Some (w * 4096 + x * 256 + y * 16 + z)
      | _ \<Rightarrow> None)"
| "hex4 _ = None"

definition high_surrogate :: "int \<Rightarrow> bool" where
  "high_surrogate r \<longleftrightarrow> 55296 \<le> r \<and> r < 56320"

definition low_surrogate :: "int \<Rightarrow> bool" where
  "low_surrogate r \<longleftrightarrow> 56320 \<le> r \<and> r < 57344"

text \<open>A \<open>\u\<close> escape and what follows it: a surrogate pair is one rune, a lone surrogate the
  replacement rune. The result is the rune and the number of bytes consumed after the \<open>\u\<close>.\<close>

definition unicode_escape :: "string \<Rightarrow> (int \<times> nat) option" where
  "unicode_escape ds =
     (case hex4 ds of
        None \<Rightarrow> None
      | Some r \<Rightarrow>
          if high_surrogate r \<or> low_surrogate r then
            (let rest = drop 4 ds
             in if high_surrogate r \<and> take 2 rest = [bslash, CHR ''u''] then
                  (case hex4 (drop 2 rest) of
                     Some r2 \<Rightarrow>
                       if low_surrogate r2
                       then Some ((r - 55296) * 1024 + (r2 - 56320) + 65536, 10)
                       else Some (rune_error, 4)
                   | None \<Rightarrow> Some (rune_error, 4))
                else Some (rune_error, 4))
          else Some (r, 4))"

definition simple_escape :: "char \<Rightarrow> int option" where
  "simple_escape e =
     (if e = dquote \<or> e = bslash \<or> e = CHR ''/'' then Some (byte e)
      else if e = CHR ''b'' then Some 8
      else if e = CHR ''f'' then Some 12
      else if e = CHR ''n'' then Some 10
      else if e = CHR ''r'' then Some 13
      else if e = CHR ''t'' then Some 9
      else None)"

fun cons_rune :: "int \<Rightarrow> (int list \<times> string) option \<Rightarrow> (int list \<times> string) option" where
  "cons_rune r None = None"
| "cons_rune r (Some (rs, t)) = Some (r # rs, t)"

text \<open>The runes of a string literal after its opening quote, and the text after its closing one.\<close>

function unquote :: "string \<Rightarrow> (int list \<times> string) option" where
  "unquote [] = None"
| "unquote (c # cs) =
     (if c = dquote then Some ([], cs)
      else if c = bslash then
        (case cs of
           [] \<Rightarrow> None
         | e # ds \<Rightarrow>
             if e = CHR ''u'' then
               (case unicode_escape ds of
                  None \<Rightarrow> None
                | Some (r, n) \<Rightarrow> cons_rune r (unquote (drop n ds)))
             else
               (case simple_escape e of
                  None \<Rightarrow> None
                | Some r \<Rightarrow> cons_rune r (unquote ds)))
      else if byte c < 32 then None
      else (case decode_rune c cs of (r, n) \<Rightarrow> cons_rune r (unquote (drop (n - 1) cs))))"
  by pat_completeness auto
termination
  by (relation "measure length") auto

definition parse_string :: "string \<Rightarrow> (string \<times> string) option" where
  "parse_string s =
     (case s of
        [] \<Rightarrow> None
      | c # cs \<Rightarrow>
          if c = dquote then map_option (\<lambda>(rs, t). (encode_runes rs, t)) (unquote cs) else None)"

definition scan_sign :: "string \<Rightarrow> string \<times> string" where
  "scan_sign s = (case s of c # cs \<Rightarrow> if c = CHR ''-'' then ([c], cs) else ([], s) | [] \<Rightarrow> ([], s))"

definition scan_int :: "string \<Rightarrow> (string \<times> string) option" where
  "scan_int s =
     (case s of
        [] \<Rightarrow> None
      | c # cs \<Rightarrow>
          if c = CHR ''0'' then Some ([c], cs)
          else if is_digit c then Some (c # takeWhile is_digit cs, dropWhile is_digit cs)
          else None)"

definition scan_digits :: "string \<Rightarrow> string \<Rightarrow> (string \<times> string) option" where
  "scan_digits pre s =
     (if takeWhile is_digit s = [] then None
      else Some (pre @ takeWhile is_digit s, dropWhile is_digit s))"

definition scan_frac :: "string \<Rightarrow> (string \<times> string) option" where
  "scan_frac s =
     (case s of
        c # cs \<Rightarrow> if c = CHR ''.'' then scan_digits [c] cs else Some ([], s)
      | [] \<Rightarrow> Some ([], s))"

definition scan_exp :: "string \<Rightarrow> (string \<times> string) option" where
  "scan_exp s =
     (case s of
        c # cs \<Rightarrow>
          if c = CHR ''e'' \<or> c = CHR ''E'' then
            (case cs of
               d # ds \<Rightarrow>
                 if d = CHR ''+'' \<or> d = CHR ''-'' then scan_digits [c, d] ds else scan_digits [c] cs
             | [] \<Rightarrow> None)
          else Some ([], s)
      | [] \<Rightarrow> Some ([], s))"

definition scan_number :: "string \<Rightarrow> (string \<times> string) option" where
  "scan_number s =
     (let (sg, s1) = scan_sign s
      in case scan_int s1 of
           None \<Rightarrow> None
         | Some (i, s2) \<Rightarrow>
             (case scan_frac s2 of
                None \<Rightarrow> None
              | Some (f, s3) \<Rightarrow>
                  (case scan_exp s3 of
                     None \<Rightarrow> None
                   | Some (e, s4) \<Rightarrow> Some (sg @ i @ f @ e, s4))))"

fun parse_value :: "nat \<Rightarrow> string \<Rightarrow> (json \<times> string) option"
  and parse_items :: "nat \<Rightarrow> string \<Rightarrow> (json list \<times> string) option"
  and parse_members :: "nat \<Rightarrow> string \<Rightarrow> ((string \<times> json) list \<times> string) option" where
  "parse_value 0 s = None"
| "parse_value (Suc k) s =
     (case skip_ws s of
        [] \<Rightarrow> None
      | c # cs \<Rightarrow>
          if c = CHR ''{'' then
            (case skip_ws cs of
               [] \<Rightarrow> None
             | d # ds \<Rightarrow>
                 if d = CHR ''}'' then Some (JObj [], ds)
                 else map_option (\<lambda>(ms, t). (JObj ms, t)) (parse_members k (d # ds)))
          else if c = CHR ''['' then
            (case skip_ws cs of
               [] \<Rightarrow> None
             | d # ds \<Rightarrow>
                 if d = CHR '']'' then Some (JArr [], ds)
                 else map_option (\<lambda>(vs, t). (JArr vs, t)) (parse_items k (d # ds)))
          else if c = dquote then map_option (\<lambda>(w, t). (JStr w, t)) (parse_string (c # cs))
          else if has_prefix (c # cs) ''null'' then Some (JNull, drop 4 (c # cs))
          else if has_prefix (c # cs) ''true'' then Some (JBool True, drop 4 (c # cs))
          else if has_prefix (c # cs) ''false'' then Some (JBool False, drop 5 (c # cs))
          else map_option (\<lambda>(lit, t). (JNum lit, t)) (scan_number (c # cs)))"
| "parse_items 0 s = None"
| "parse_items (Suc k) s =
     (case parse_value k s of
        None \<Rightarrow> None
      | Some (v, r) \<Rightarrow>
          (case skip_ws r of
             [] \<Rightarrow> None
           | c # cs \<Rightarrow>
               if c = CHR '','' then map_option (\<lambda>(vs, t). (v # vs, t)) (parse_items k cs)
               else if c = CHR '']'' then Some ([v], cs)
               else None))"
| "parse_members 0 s = None"
| "parse_members (Suc k) s =
     (case parse_string (skip_ws s) of
        None \<Rightarrow> None
      | Some (key, r) \<Rightarrow>
          (case skip_ws r of
             [] \<Rightarrow> None
           | c # cs \<Rightarrow>
               if c \<noteq> CHR '':'' then None
               else
                 (case parse_value k cs of
                    None \<Rightarrow> None
                  | Some (v, r2) \<Rightarrow>
                      (case skip_ws r2 of
                         [] \<Rightarrow> None
                       | d # ds \<Rightarrow>
                           if d = CHR '','' then
                             map_option (\<lambda>(ms, t). ((key, v) # ms, t)) (parse_members k ds)
                           else if d = CHR ''}'' then Some ([(key, v)], ds)
                           else None))))"

definition parse_prefix :: "string \<Rightarrow> (json \<times> string) option" where
  "parse_prefix s = parse_value (2 * length s + 2) s"

definition json_parse :: "string \<Rightarrow> json option" where
  "json_parse s =
     (case parse_prefix s of
        Some (v, r) \<Rightarrow> if skip_ws r = [] then Some v else None
      | None \<Rightarrow> None)"

end
