(* ===== verification/Json_Roundtrip.thy ===== *)
theory Json_Roundtrip
  imports Json
begin

text \<open>
  What a reader of JSON gets back from a writer. \<open>json_layout_parse\<close> is the round trip for both
  layouts of the printer, \<open>parse_value_fuel\<close> shows that the parser's fuel never runs out,
  \<open>length_json_quote\<close> bounds what escaping can add to a string.
\<close>

section \<open>Strings\<close>

lemma hex_value_digit: "0 \<le> d \<Longrightarrow> d < 16 \<Longrightarrow> hex_value (hex_digit d) = Some d"
  by (auto simp: hex_value_def hex_digit_def Let_def)

lemma hex_split:
  assumes "0 \<le> r" "r < 65536"
  shows "r div 4096 mod 16 * 4096 + r div 256 mod 16 * 256 + r div 16 mod 16 * 16 + r mod 16 = (r::int)"
proof -
  have "r div 256 = r div 16 div 16" "r div 4096 = r div 256 div 16"
    by (simp_all add: zdiv_zmult2_eq [symmetric])
  moreover have "r div 4096 mod 16 = r div 4096"
    using assms div_le_bound[of r 4096 15] by simp
  ultimately show ?thesis
    using div_mult_mod_eq[of r 16] div_mult_mod_eq[of "r div 16" 16]
      div_mult_mod_eq[of "r div 256" 16] by linarith
qed

lemma chr_quotes: "chr 34 = dquote" "chr 92 = bslash" "chr 48 = CHR ''0''"
  using chr_byte[of dquote] chr_byte[of bslash] chr_byte[of "CHR ''0''"] by (simp_all add: byte_def)

lemma unquote_u:
  "unquote (bslash # CHR ''u'' # ds) =
     (case unicode_escape ds of None \<Rightarrow> None | Some (r, n) \<Rightarrow> cons_rune r (unquote (drop n ds)))"
  by simp

lemma unquote_escape_u:
  assumes "scalar r" "r < 65536"
  shows "unquote (escape_u r @ t) = cons_rune r (unquote t)"
proof -
  have h: "hex_value (hex_digit (x mod 16)) = Some (x mod 16)" for x
    by (rule hex_value_digit) simp_all
  define a b c d where abcd: "a = hex_digit (r div 4096 mod 16)" "b = hex_digit (r div 256 mod 16)"
    "c = hex_digit (r div 16 mod 16)" "d = hex_digit (r mod 16)"
  have e: "escape_u r = [bslash, CHR ''u'', a, b, c, d]"
    by (simp add: escape_u_def abcd)
  have "0 \<le> r"
    using assms by (simp add: scalar_def)
  then have hex: "hex4 ([a, b, c, d] @ t) = Some r"
    using assms(2) by (simp only: append_Cons hex4.simps abcd h option.case prod.case hex_split)
  have "\<not> high_surrogate r" "\<not> low_surrogate r"
    using assms by (auto simp: scalar_def high_surrogate_def low_surrogate_def)
  then have "unicode_escape ([a, b, c, d] @ t) = Some (r, 4)"
    using hex by (simp add: unicode_escape_def del: hex4.simps)
  then show ?thesis
    using unquote_u[of "[a, b, c, d] @ t"] by (simp add: e del: unquote.simps(2))
qed

lemma unquote_escape_ascii:
  assumes "0 \<le> r" "r < 128"
  shows "unquote (escape_ascii r @ t) = cons_rune r (unquote t)"
proof -
  have b: "byte (chr r) = r"
    using assms by simp
  have u: "unquote (escape_u r @ t) = cons_rune r (unquote t)"
    using assms by (intro unquote_escape_u) (simp_all add: scalar_def)
  have raw: "unquote (chr r # t) = cons_rune r (unquote t)" if "r \<noteq> 34" "r \<noteq> 92" "\<not> r < 32"
  proof -
    have "chr r \<noteq> dquote" "chr r \<noteq> bslash"
      using that b by (auto simp: byte_def)
    then show ?thesis
      using that b assms by (simp add: decode_rune_def)
  qed
  have q: "unquote (bslash # chr r # t) = cons_rune r (unquote t)" if "r = 34 \<or> r = 92"
    using that by (auto simp: simple_escape_def chr_quotes byte_def)
  show ?thesis
    using u raw q by (simp add: escape_ascii_def simple_escape_def)
qed

lemma unquote_encode_rune:
  assumes "scalar r" "128 \<le> r"
  shows "unquote (encode_rune r @ t) = cons_rune r (unquote t)"
proof -
  obtain c cs where e: "encode_rune r = c # cs"
    by (metis encode_rune_nonempty list.exhaust)
  have d: "decode_rune c (cs @ t) = (r, Suc (length cs))"
    using units_encode[OF assms(1), of t] e
    by (cases "decode_rune c (cs @ t)") auto
  have "128 \<le> byte c"
    using d assms by (auto simp: decode_rune_def Let_def split: if_splits)
  then show ?thesis
    using d by (auto simp: e byte_def)
qed

lemma unquote_escape_unit:
  "scalar (fst u) \<Longrightarrow> unquote (escape_unit u @ t) = cons_rune (fst u) (unquote t)"
  using unquote_escape_u[of rune_error t] unquote_escape_u[of "fst u" t]
    unquote_escape_ascii[of "fst u" t] unquote_encode_rune[of "fst u" t]
  by (auto simp: escape_unit_def Let_def bad_unit_def scalar_def)

lemma unquote_escape_units:
  "list_all scalar (map fst us) \<Longrightarrow>
     unquote (concat (map escape_unit us) @ dquote # t) = Some (map fst us, t)"
  by (induction us) (simp_all add: unquote_escape_unit del: unquote.simps(2), simp)

lemma parse_string_quote [simp]: "parse_string (json_quote s @ t) = Some (coerce_utf8 s, t)"
  using unquote_escape_units[of "units s" t] runes_scalar[of s]
  by (simp add: parse_string_def json_quote_def coerce_utf8_def runes_def)

lemma length_escape_unit: "1 \<le> snd u \<Longrightarrow> length (escape_unit u) \<le> 6 * snd u"
  using encode_rune_length(2)[of "fst u"]
  by (auto simp: escape_unit_def escape_ascii_def escape_u_def Let_def)

lemma units_width: "u \<in> set (units s) \<Longrightarrow> 1 \<le> snd u"
proof (induction s arbitrary: u rule: units.induct)
  case (2 c cs)
  obtain r n where d: "decode_rune c cs = (r, n)" by fastforce
  then show ?case
    using 2(1)[of "(r, n)" r n u] 2(2) decode_rune_width(1)[of c cs] by auto
qed simp

lemma units_total_width: "sum_list (map snd (units s)) = length s"
proof (induction s rule: units.induct)
  case (2 c cs)
  obtain r n where d: "decode_rune c cs = (r, n)" by fastforce
  have "n - 1 \<le> length cs"
    using d by (auto simp: decode_rune_def Let_def decode_two_def decode_three_def decode_four_def
        split: if_splits list.splits)
  moreover have "1 \<le> n"
    using decode_rune_width(1)[of c cs] d by simp
  ultimately show ?case
    using 2[of "(r, n)" r n] d by simp
qed simp

lemma length_json_quote: "length (json_quote s) \<le> 6 * length s + 2"
proof -
  have bound: "sum_list (map (length \<circ> escape_unit) us) \<le> 6 * sum_list (map snd us)"
    if "\<forall>u \<in> set us. 1 \<le> snd u" for us
    using that
  proof (induction us)
    case (Cons u us)
    then show ?case
      using length_escape_unit[of u] by simp
  qed simp
  show ?thesis
    using bound[of "units s"] units_width[of _ s] units_total_width[of s]
    by (simp add: json_quote_def length_concat)
qed

lemma json_quote_hd: "json_quote s = dquote # tl (json_quote s)"
  by (simp add: json_quote_def)

section \<open>Numbers\<close>

definition number_ok :: "string \<Rightarrow> bool" where
  "number_ok lit \<longleftrightarrow> scan_number lit = Some (lit, [])"

text \<open>What can follow a value in a text: nothing, white space, or the end of an item.\<close>

definition ends_value :: "string \<Rightarrow> bool" where
  "ends_value t \<longleftrightarrow> t = [] \<or> is_ws (hd t) \<or> hd t \<in> {CHR '','', CHR '']'', CHR ''}''}"

lemma ends_value_hd:
  assumes "ends_value (c # t)"
  shows "\<not> is_digit c" "c \<noteq> CHR ''.''" "c \<noteq> CHR ''e''" "c \<noteq> CHR ''E''"
  using assms by (auto simp: ends_value_def is_ws_def is_digit_def byte_def)

lemma ends_value_digits [simp]:
  assumes "ends_value t"
  shows "takeWhile is_digit (s @ t) = takeWhile is_digit s"
    "dropWhile is_digit (s @ t) = dropWhile is_digit s @ t"
proof -
  have t: "takeWhile is_digit t = []" "dropWhile is_digit t = t"
    using assms ends_value_hd(1) by (cases t; auto)+
  show "takeWhile is_digit (s @ t) = takeWhile is_digit s"
    using t by (induction s) auto
  show "dropWhile is_digit (s @ t) = dropWhile is_digit s @ t"
    using t by (induction s) auto
qed

lemma scan_int_append:
  "scan_int s = Some (a, r) \<Longrightarrow> ends_value t \<Longrightarrow> scan_int (s @ t) = Some (a, r @ t)"
  by (auto simp: scan_int_def split: list.splits if_splits)

lemma scan_digits_append:
  "scan_digits p s = Some (a, r) \<Longrightarrow> ends_value t \<Longrightarrow> scan_digits p (s @ t) = Some (a, r @ t)"
  by (auto simp: scan_digits_def split: if_splits)

lemma scan_frac_append:
  "scan_frac s = Some (a, r) \<Longrightarrow> ends_value t \<Longrightarrow> scan_frac (s @ t) = Some (a, r @ t)"
  using ends_value_hd(2)[of "hd t" "tl t"] scan_digits_append
  by (cases t) (auto simp: scan_frac_def split: list.splits if_splits)

lemma scan_exp_append:
  "scan_exp s = Some (a, r) \<Longrightarrow> ends_value t \<Longrightarrow> scan_exp (s @ t) = Some (a, r @ t)"
  using ends_value_hd(3,4)[of "hd t" "tl t"] scan_digits_append[of "[hd s]" "tl s" a r t]
    scan_digits_append[of "[hd s, hd (tl s)]" "tl (tl s)" a r t]
  by (cases t) (auto simp: scan_exp_def split: list.splits if_splits)

lemma scan_number_append:
  assumes "number_ok lit" "ends_value t"
  shows "scan_number (lit @ t) = Some (lit, t)"
proof -
  obtain sg s1 where s: "scan_sign lit = (sg, s1)" by fastforce
  then obtain i s2 f s3 e s4 where p: "scan_int s1 = Some (i, s2)" "scan_frac s2 = Some (f, s3)"
    "scan_exp s3 = Some (e, s4)" and lit: "sg @ i @ f @ e = lit" "s4 = []"
    using assms(1) by (auto simp: number_ok_def scan_number_def split: option.splits)
  have "lit \<noteq> []"
    using assms(1) by (auto simp: number_ok_def scan_number_def scan_sign_def scan_int_def)
  then have "scan_sign (lit @ t) = (sg, s1 @ t)"
    using s by (cases lit) (auto simp: scan_sign_def split: if_splits)
  then show ?thesis
    using p lit assms(2) by (simp add: scan_number_def scan_int_append scan_frac_append scan_exp_append)
qed

lemma number_ok_hd:
  assumes "number_ok lit"
  shows "lit \<noteq> []" "is_digit (hd lit) \<or> hd lit = CHR ''-''"
  using assms
  by (cases lit; auto simp: number_ok_def scan_number_def scan_sign_def scan_int_def is_digit_def
      byte_def split: if_splits option.splits)+


lemma number_ok_format [simp]: "number_ok (format_int n)"
proof -
  have d: "scan_number (dec_digits m) = Some (dec_digits m, [])" if "0 \<le> m" for m
  proof (cases "m = 0")
    case True
    then show ?thesis
      by (simp add: dec_digits.simps[of 0] digit_char_def scan_number_def scan_sign_def scan_int_def
          scan_frac_def scan_exp_def chr_quotes)
  next
    case False
    then have hd: "hd (dec_digits m) \<noteq> CHR ''0''"
      using that dec_digits_hd[of m] by simp
    have all: "all_digits (dec_digits m)"
      using that dec_digits_all by simp
    then obtain c cs where c: "dec_digits m = c # cs" "is_digit c" "list_all is_digit cs"
      by (cases "dec_digits m") (auto simp: all_digits_def)
    then have dw: "takeWhile is_digit cs = cs" "dropWhile is_digit cs = []"
      by (auto simp: list_all_iff)
    show ?thesis
      using c hd all_digits_hd(2)[OF all]
      by (simp add: scan_number_def scan_sign_def scan_int_def scan_frac_def scan_exp_def dw)
  qed
  show ?thesis
  proof (cases "n < 0")
    case True
    then have "scan_sign (dec_digits (- n)) = ([], dec_digits (- n))"
      using all_digits_hd(2)[OF dec_digits_all[of "- n"]]
      by (cases "dec_digits (- n)") (simp_all add: scan_sign_def)
    then show ?thesis
      using True d[of "- n"]
      by (auto simp: number_ok_def format_int_def scan_number_def scan_sign_def split: option.splits)
  next
    case False
    then show ?thesis
      using d[of n] by (simp add: number_ok_def format_int_def)
  qed
qed

section \<open>The round trip\<close>

fun json_ok :: "json \<Rightarrow> bool" where
  "json_ok JNull = True"
| "json_ok (JBool b) = True"
| "json_ok (JNum lit) = number_ok lit"
| "json_ok (JStr s) = valid_utf8 s"
| "json_ok (JArr vs) = list_all json_ok vs"
| "json_ok (JObj ms) = list_all (\<lambda>(k, v). valid_utf8 k \<and> json_ok v) ms"

definition all_ws :: "string \<Rightarrow> bool" where
  "all_ws w \<longleftrightarrow> list_all is_ws w"

definition layout_ok :: "(nat \<Rightarrow> string) \<Rightarrow> string \<Rightarrow> bool" where
  "layout_ok nl colon \<longleftrightarrow> (\<forall>d. all_ws (nl d)) \<and> colon \<noteq> [] \<and> hd colon = CHR '':'' \<and> all_ws (tl colon)"

lemma skip_ws_append [simp]: "all_ws w \<Longrightarrow> skip_ws (w @ s) = skip_ws s"
  by (induction w) (auto simp: skip_ws_def all_ws_def)

lemma skip_ws_id: "s = [] \<or> \<not> is_ws (hd s) \<Longrightarrow> skip_ws s = s"
  by (cases s) (auto simp: skip_ws_def)

lemma skip_ws_idem [simp]: "skip_ws (skip_ws s) = skip_ws s"
  by (simp add: skip_ws_def)

lemma parse_value_ws [simp]: "all_ws w \<Longrightarrow> parse_value k (w @ s) = parse_value k s"
  by (cases k) simp_all

lemma parse_items_ws [simp]: "all_ws w \<Longrightarrow> parse_items k (w @ s) = parse_items k s"
  by (cases k) simp_all

lemma parse_members_ws [simp]: "all_ws w \<Longrightarrow> parse_members k (w @ s) = parse_members k s"
  by (cases k) simp_all

lemma layout_hd:
  assumes "json_ok v"
  shows "json_layout nl colon d v \<noteq> []" "\<not> is_ws (hd (json_layout nl colon d v))"
    "hd (json_layout nl colon d v) \<notin> {CHR '']'', CHR ''}''}"
  using assms number_ok_hd[of "case v of JNum lit \<Rightarrow> lit | _ \<Rightarrow> []"]
  by (cases v; auto simp: json_quote_def is_ws_def is_digit_def byte_def)+

lemma ends_value_sep [simp]:
  "ends_value (CHR '','' # t)" "ends_value (CHR '']'' # t)" "ends_value (CHR ''}'' # t)" "ends_value []"
  by (simp_all add: ends_value_def)

lemma ends_value_ws: "all_ws w \<Longrightarrow> ends_value t \<Longrightarrow> ends_value (w @ t)"
  by (cases w) (auto simp: ends_value_def all_ws_def)


lemma json_layout_parse:
  assumes "json_ok v" "layout_ok nl colon" "ends_value t"
    "2 * length (json_layout nl colon d v) \<le> k"
  shows "parse_value k (json_layout nl colon d v @ t) = Some (v, t)"
  using assms
proof (induction nl colon d v arbitrary: k t rule: json_layout.induct)
  case (1 nl colon d)
  then obtain k' where "k = Suc k'" by (cases k) auto
  then show ?case by (simp add: skip_ws_def is_ws_def has_prefix_def)
next
  case (2 nl colon d b)
  then obtain k' where "k = Suc k'" by (cases k) (auto split: if_splits)
  then show ?case by (auto simp: skip_ws_def is_ws_def has_prefix_def)
next
  case (3 nl colon d lit)
  note hd = number_ok_hd[of lit]
  obtain c cs where lit: "lit = c # cs" "c = CHR ''-'' \<or> is_digit c"
    using 3 hd by (cases lit) auto
  then have "\<not> is_ws c" "c \<notin> {CHR ''{'', CHR ''['', dquote, CHR ''n'', CHR ''t'', CHR ''f''}"
    by (auto simp: is_ws_def is_digit_def byte_def)
  moreover obtain k' where "k = Suc k'"
    using 3 lit by (cases k) auto
  ultimately show ?case
    using 3 scan_number_append[of lit t] lit
    by (simp add: skip_ws_def has_prefix_def)
next
  case (4 nl colon d s)
  then obtain k' where "k = Suc k'" by (cases k) (auto simp: json_quote_def)
  moreover obtain q where q: "json_quote s = dquote # q"
    by (simp add: json_quote_def)
  moreover have "parse_string (dquote # q @ t) = Some (s, t)"
    using 4 parse_string_quote[of s t] coerce_id[of s] by (simp add: q)
  ultimately show ?case
    by (simp add: skip_ws_def is_ws_def)
next
  case (5 nl colon d vs)
  show ?case
  proof (cases "vs = []")
    case True
    then obtain k' where "k = Suc k'" using 5 by (cases k) auto
    then show ?thesis using True by (simp add: skip_ws_def is_ws_def)
  next
    case False
    let ?p = "json_layout nl colon (Suc d)" and ?w = "nl (Suc d)"
    have ws: "all_ws ?w" "all_ws (nl d)"
      using 5 by (simp_all add: layout_ok_def)
    have items: "parse_items m (join_with (CHR '','' # ?w) (map ?p us) @ nl d @ CHR '']'' # t)
        = Some (us, t)"
      if "us \<noteq> []" "set us \<subseteq> set vs" "2 * length (join_with (CHR '','' # ?w) (map ?p us)) + 1 \<le> m"
      for us m
      using that
    proof (induction us arbitrary: m)
      case (Cons u us)
      then obtain m' where m: "m = Suc m'" by (cases m) auto
      have u: "u \<in> set vs" "json_ok u"
        using Cons 5(2) by (auto simp: list_all_iff)
      show ?case
      proof (cases us)
        case Nil
        have "parse_value m' (?p u @ nl d @ CHR '']'' # t) = Some (u, nl d @ CHR '']'' # t)"
          using Cons.prems m Nil u 5 ws by (intro 5(1)) (auto intro: ends_value_ws)
        then show ?thesis
          using Nil m ws by (simp add: skip_ws_id is_ws_def)
      next
        case (Cons u' us')
        let ?rest = "?w @ join_with (CHR '','' # ?w) (map ?p us) @ nl d @ CHR '']'' # t"
        have "parse_value m' (?p u @ CHR '','' # ?rest) = Some (u, CHR '','' # ?rest)"
          using Cons.prems m Cons u 5 by (intro 5(1)) auto
        moreover have "parse_items m' ?rest = Some (us, t)"
          using Cons.IH[of m'] Cons.prems m Cons ws by simp
        ultimately show ?thesis
          using Cons m by (simp add: skip_ws_def is_ws_def)
      qed
    qed simp
    obtain k' where k: "k = Suc k'" using 5 False by (cases k) auto
    let ?body = "join_with (CHR '','' # ?w) (map ?p vs) @ nl d @ CHR '']'' # t"
    have "parse_items k' ?body = Some (vs, t)"
      using items[of vs k'] False 5 k by simp
    moreover obtain c cs where "?body = c # cs" "\<not> is_ws c" "c \<noteq> CHR '']''"
      using False layout_hd[of "hd vs" nl colon "Suc d"] 5(2)
      by (cases vs; cases "tl vs"; cases "?p (hd vs)") auto
    moreover from this have "skip_ws ?body = ?body"
      by (simp add: skip_ws_id)
    ultimately show ?thesis
      using k False ws by (simp add: skip_ws_def[of "CHR ''['' # _"] is_ws_def)
  qed
next
  case (6 nl colon d ms)
  show ?case
  proof (cases "ms = []")
    case True
    then obtain k' where "k = Suc k'" using 6 by (cases k) auto
    then show ?thesis using True by (simp add: skip_ws_def is_ws_def)
  next
    case False
    let ?v = "json_layout nl colon (Suc d)" and ?w = "nl (Suc d)"
    let ?p = "\<lambda>(k, v). json_quote k @ colon @ ?v v"
    have ws: "all_ws ?w" "all_ws (nl d)"
      using 6 by (simp_all add: layout_ok_def)
    obtain cw where colon: "colon = CHR '':'' # cw" "all_ws cw"
      using 6 by (cases colon) (auto simp: layout_ok_def)
    have items: "parse_members m (join_with (CHR '','' # ?w) (map ?p us) @ nl d @ CHR ''}'' # t)
        = Some (us, t)"
      if "us \<noteq> []" "set us \<subseteq> set ms" "2 * length (join_with (CHR '','' # ?w) (map ?p us)) + 1 \<le> m"
      for us m
      using that
    proof (induction us arbitrary: m)
      case (Cons e us)
      obtain key u where e: "e = (key, u)" by fastforce
      obtain m' where m: "m = Suc m'" using Cons.prems by (cases m) auto
      have u: "(key, u) \<in> set ms" "json_ok u" "valid_utf8 key"
        using Cons 6(2) by (auto simp: e list_all_iff)
      have key: "parse_string (skip_ws (json_quote key @ r)) = Some (key, r)" for r
        using parse_string_quote[of key r] coerce_id[OF u(3)] skip_ws_id[of "json_quote key @ r"]
        by (simp add: json_quote_def is_ws_def)
      have val: "parse_value m' (?v u @ r) = Some (u, r)" if "ends_value r" for r
        using Cons.prems m u 6 that e by (intro 6(1)) (cases us; auto)+
      show ?case
      proof (cases us)
        case Nil
        then show ?thesis
          using m ws key val[of "nl d @ CHR ''}'' # t"] colon
          by (simp add: e skip_ws_id is_ws_def ends_value_ws)
      next
        case (Cons u' us')
        let ?rest = "?w @ join_with (CHR '','' # ?w) (map ?p us) @ nl d @ CHR ''}'' # t"
        have "parse_members m' ?rest = Some (us, t)"
          using Cons.IH[of m'] Cons.prems m Cons ws e by simp
        then show ?thesis
          using Cons m e key val[of "CHR '','' # ?rest"] colon by (simp add: skip_ws_id is_ws_def)
      qed
    qed simp
    obtain k' where k: "k = Suc k'" using 6 False by (cases k) auto
    let ?body = "join_with (CHR '','' # ?w) (map ?p ms) @ nl d @ CHR ''}'' # t"
    have "parse_members k' ?body = Some (ms, t)"
      using items[of ms k'] False 6 k by simp
    moreover obtain cs where "?body = dquote # cs"
      using False by (cases ms; cases "tl ms") (auto simp: json_quote_def)
    ultimately show ?thesis
      using k False ws by (simp add: skip_ws_def[of "CHR ''{'' # _"] skip_ws_id is_ws_def)
  qed
qed


corollary parse_prefix_layout:
  assumes "json_ok v" "layout_ok nl colon" "ends_value t"
  shows "parse_prefix (json_layout nl colon d v @ t) = Some (v, t)"
  unfolding parse_prefix_def by (rule json_layout_parse[OF assms]) simp

corollary json_parse_print [simp]: "json_ok v \<Longrightarrow> json_parse (json_print v) = Some v"
  using parse_prefix_layout[of v "\<lambda>_. []" "'':''" "[]" 0]
  by (simp add: json_print_def json_parse_def layout_ok_def all_ws_def skip_ws_def)

corollary json_parse_print_indent:
  "json_ok v \<Longrightarrow> json_parse (json_print_indent v @ [CHR 10]) = Some v"
  using parse_prefix_layout[of v "\<lambda>d. CHR 10 # replicate (2 * d) (CHR '' '')" "'': ''" "[CHR 10]" 0]
  by (simp add: json_print_indent_def json_parse_def layout_ok_def all_ws_def skip_ws_def is_ws_def
      ends_value_def list_all_iff)

section \<open>The parser's fuel is enough\<close>

lemma skip_ws_length: "length (skip_ws s) \<le> length s"
  by (simp add: skip_ws_def length_dropWhile_le)

lemma unquote_length: "unquote s = Some (rs, t) \<Longrightarrow> length t < length s"
proof (induction s arbitrary: rs t rule: unquote.induct)
  case (2 c cs)
  have cons: "cons_rune r x = Some (rs, t) \<longleftrightarrow> (\<exists>rs'. x = Some (rs', t) \<and> rs = r # rs')" for r x
    by (cases x) auto
  show ?case
    using 2 by (fastforce simp: cons split: if_splits list.splits option.splits prod.splits)
qed simp

lemma parse_string_length: "parse_string s = Some (w, t) \<Longrightarrow> length t < length s"
  by (auto simp: parse_string_def dest: unquote_length split: list.splits if_splits)

lemma scan_digits_length: "scan_digits p s = Some (a, t) \<Longrightarrow> length t \<le> length s"
  by (auto simp: scan_digits_def length_dropWhile_le split: if_splits)

lemma scan_number_length: "scan_number s = Some (lit, t) \<Longrightarrow> length t < length s"
proof -
  have sg: "length (snd (scan_sign s)) \<le> length s"
    by (auto simp: scan_sign_def split: list.splits)
  have i: "scan_int u = Some (a, r) \<Longrightarrow> length r < length u" for u a r
    by (auto simp: scan_int_def less_Suc_eq_le length_dropWhile_le split: list.splits if_splits)
  have f: "scan_frac u = Some (a, r) \<Longrightarrow> length r \<le> length u" for u a r
    by (auto simp: scan_frac_def dest: scan_digits_length split: list.splits if_splits)
  have e: "scan_exp u = Some (a, r) \<Longrightarrow> length r \<le> length u" for u a r
    by (auto simp: scan_exp_def dest: scan_digits_length split: list.splits if_splits)
  assume "scan_number s = Some (lit, t)"
  then show ?thesis
    using sg by (auto simp: scan_number_def split: prod.splits option.splits dest!: i f e)
qed


lemma has_prefix_length: "has_prefix s p \<Longrightarrow> length p \<le> length s"
  by (auto simp: has_prefix_iff)

lemma parse_length:
  "parse_value k s = Some (v, t) \<Longrightarrow> length t < length s"
  "parse_items k s = Some (vs, t) \<Longrightarrow> length t < length s"
  "parse_members k s = Some (ms, t) \<Longrightarrow> length t < length s"
proof (induction k s and k s and k s arbitrary: v t and vs t and ms t
    rule: parse_value_parse_items_parse_members.induct)
  case (2 k s)
  obtain c cs where s: "skip_ws s = c # cs"
    using 2(3) by (auto split: list.splits)
  have len: "Suc (length cs) \<le> length s"
    using skip_ws_length[of s] s by simp
  have ws: "skip_ws cs = d # ds \<Longrightarrow> Suc (length ds) \<le> length cs" for d ds
    using skip_ws_length[of cs] by simp
  have "length t < Suc (length cs)"
    using 2(3) ws 2(1)[OF s] 2(2)[OF s] parse_string_length[of "c # cs"] scan_number_length[of "c # cs"]
      has_prefix_length[of "c # cs"]
    by (fastforce simp: s split: if_splits list.splits)
  then show ?case
    using len by simp
next
  case (4 k s)
  then obtain v r where v: "parse_value k s = Some (v, r)" "length r < length s"
    by (auto split: option.splits)
  then show ?case
    using 4(2)[OF v(1)] 4(3) skip_ws_length[of r]
    by (fastforce split: list.splits if_splits)
next
  case (6 k s)
  then obtain key r where key: "parse_string (skip_ws s) = Some (key, r)"
    by (auto split: option.splits)
  then obtain cs where cs: "skip_ws r = CHR '':'' # cs"
    using 6(3) by (auto split: list.splits if_splits)
  then obtain v r2 where v: "parse_value k cs = Some (v, r2)"
    using 6(3) key by (auto split: option.splits)
  have len: "length cs < length s" "length r2 < length cs"
    using parse_string_length[OF key] skip_ws_length[of s] skip_ws_length[of r] cs
      6(1)[OF key refl cs _ v] by auto
  then show ?case
    using 6(2)[OF key refl cs _ v refl] 6(3) skip_ws_length[of r2]
    by (fastforce simp: key cs v split: list.splits if_splits)
qed simp_all

lemma parse_fuel_step:
  "(2 * length s + 1 \<le> k \<longrightarrow> parse_value (Suc k) s = parse_value k s)
   \<and> (2 * length s + 2 \<le> k \<longrightarrow> parse_items (Suc k) s = parse_items k s)
   \<and> (2 * length s + 2 \<le> k \<longrightarrow> parse_members (Suc k) s = parse_members k s)"
proof (induction k arbitrary: s)
  case (Suc k)
  have value_eq: "parse_value (Suc k) s = parse_value k s" if "2 * length s + 1 \<le> k" for s
    using Suc that by blast
  have items_eq: "parse_items (Suc k) s = parse_items k s" if "2 * length s + 2 \<le> k" for s
    using Suc that by blast
  have members_eq: "parse_members (Suc k) s = parse_members k s" if "2 * length s + 2 \<le> k" for s
    using Suc that by blast
  have v: "parse_value (Suc (Suc k)) s = parse_value (Suc k) s" if h: "2 * length s + 1 \<le> Suc k"
  proof -
    have "2 * length (d # ds) + 2 \<le> k" if "skip_ws s = c # cs" "skip_ws cs = d # ds" for c cs d ds
      using skip_ws_length[of s] skip_ws_length[of cs] that h by simp
    then show ?thesis
      unfolding parse_value.simps(2)[of "Suc k" s] parse_value.simps(2)[of k s]
      by (auto simp del: parse_items.simps parse_members.simps simp: items_eq members_eq
          split: list.splits)
  qed
  have i: "parse_items (Suc (Suc k)) s = parse_items (Suc k) s" if h: "2 * length s + 2 \<le> Suc k"
  proof (cases "parse_value k s")
    case None
    then show ?thesis
      unfolding parse_items.simps(2)[of "Suc k" s] parse_items.simps(2)[of k s]
      using value_eq[of s] h by simp
  next
    case (Some e)
    obtain w r where e: "e = (w, r)" by fastforce
    have "2 * length cs + 2 \<le> k" if "skip_ws r = c # cs" for c cs
      using parse_length(1)[of k s w r] Some e skip_ws_length[of r] that h by simp
    then show ?thesis
      unfolding parse_items.simps(2)[of "Suc k" s] parse_items.simps(2)[of k s]
      using value_eq[of s] h Some e
      by (auto simp del: parse_items.simps simp: items_eq split: list.splits)
  qed
  have m: "parse_members (Suc (Suc k)) s = parse_members (Suc k) s" if h: "2 * length s + 2 \<le> Suc k"
  proof (cases "parse_string (skip_ws s)")
    case None
    then show ?thesis
      unfolding parse_members.simps(2)[of "Suc k" s] parse_members.simps(2)[of k s] by simp
  next
    case (Some e)
    obtain key r where e: "e = (key, r)" by fastforce
    have cs: "2 * length cs + 1 \<le> k" if "skip_ws r = c # cs" for c cs
      using parse_string_length[of "skip_ws s" key r] Some e skip_ws_length[of s]
        skip_ws_length[of r] that h by simp
    have ds: "2 * length ds + 2 \<le> k"
      if "skip_ws r = c # cs" "parse_value k cs = Some (w, r2)" "skip_ws r2 = d # ds" for c cs w r2 d ds
      using cs[OF that(1)] parse_length(1)[OF that(2)] skip_ws_length[of r2] that(3)
        parse_string_length[of "skip_ws s" key r] Some e skip_ws_length[of s]
        skip_ws_length[of r] that(1) h by simp
    show ?thesis
      unfolding parse_members.simps(2)[of "Suc k" s] parse_members.simps(2)[of k s]
      using Some e cs ds
      by (auto simp del: parse_members.simps parse_value.simps simp: value_eq members_eq
          split: list.splits option.splits)
  qed
  show ?case
    using v i m by blast
qed simp

text \<open>More fuel than \<open>json_parse\<close> gives never changes the answer.\<close>

theorem parse_value_fuel: "2 * length s + 2 \<le> k \<Longrightarrow> parse_value k s = parse_prefix s"
proof (induction k rule: dec_induct)
  case base
  then show ?case by (simp add: parse_prefix_def)
next
  case (step k)
  then show ?case using parse_fuel_step[of s k] by simp
qed

end
