(* ===== verification/Metadata.thy ===== *)
theory Metadata
  imports GoText Json_Roundtrip
begin

text \<open>
  \<open>internal/protocol/herdr_metadata.go\<close> and the parts of \<open>types.go\<close> it needs: the event types,
  identifiers, and the presentation metadata of a Herdr event with its sanitiser \<open>DisplayText\<close>, the
  size-bounded \<open>Normalized\<close>, the check \<open>ValidFor\<close> and the text \<open>Body\<close>.

  Go's \<open>range\<close> over a string and \<open>strings.Fields\<close> both work on decoded runes, so \<open>DisplayText\<close> is
  modelled on rune lists. The loop of \<open>Normalized\<close> has no obvious bound: it is a
  \<open>partial_function\<close>, and \<open>normalized_returns\<close> shows that it ends.
\<close>

section \<open>Constants and identifiers\<close>

type_synonym event_type = string

definition EventApprovalRequired :: event_type where "EventApprovalRequired = ''approval_required''"
definition EventTurnStopped :: event_type where "EventTurnStopped = ''turn_stopped''"
definition EventAttentionRequired :: event_type where "EventAttentionRequired = ''attention_required''"
definition EventProgressUpdated :: event_type where "EventProgressUpdated = ''progress_updated''"
definition EventTestNotification :: event_type where "EventTestNotification = ''test_notification''"

lemmas event_type_defs = EventApprovalRequired_def EventTurnStopped_def EventAttentionRequired_def
  EventProgressUpdated_def EventTestNotification_def

definition event_type_valid :: "event_type \<Rightarrow> bool" where
  "event_type_valid e \<longleftrightarrow> e = EventApprovalRequired \<or> e = EventTurnStopped"

definition valid_id :: "string \<Rightarrow> bool" where
  "valid_id v \<longleftrightarrow> v \<noteq> [] \<and> length v \<le> 256 \<and> \<not> contains_any v [chr 13, chr 10, chr 0]"

section \<open>Display text\<close>

text \<open>\<open>strings.Join(strings.Fields(value), " ")\<close> on runes.\<close>

function space_fields :: "int list \<Rightarrow> int list list" where
  "space_fields [] = []"
| "space_fields (r # rs) =
     (if is_space r then space_fields rs
      else (r # takeWhile (\<lambda>x. \<not> is_space x) rs) # space_fields (dropWhile (\<lambda>x. \<not> is_space x) rs))"
  by pat_completeness auto
termination
  by (relation "measure length") (simp_all add: length_dropWhile_le le_imp_less_Suc)

fun join_fields :: "int list list \<Rightarrow> int list" where
  "join_fields [] = []"
| "join_fields [w] = w"
| "join_fields (w # v # ws) = w @ 32 # join_fields (v # ws)"

definition hidden_rune :: "int \<Rightarrow> bool" where
  "hidden_rune r \<longleftrightarrow> is_control r \<or> is_format r"

fun take_budget :: "nat \<Rightarrow> nat \<Rightarrow> int list \<Rightarrow> int list" where
  "take_budget limit n [] = []"
| "take_budget limit n (r # rs) =
     (if hidden_rune r then take_budget limit n rs
      else if limit < n + length (encode_rune r) then []
      else r # take_budget limit (n + length (encode_rune r)) rs)"

definition trim_space :: "int list \<Rightarrow> int list" where
  "trim_space rs = rev (dropWhile is_space (rev (dropWhile is_space rs)))"

definition display_text :: "string \<Rightarrow> nat \<Rightarrow> string" where
  "display_text value limit = encode_runes (trim_space (take_budget limit 0 (join_fields (space_fields (runes value)))))"

section \<open>The metadata record and its JSON text\<close>

record herdr_metadata =
  hm_session_name :: string
  hm_workspace_id :: string
  hm_agent_status :: string
  hm_agent :: string
  hm_title :: string
  hm_display_agent :: string
  hm_state_labels :: "string gomap"

definition herdr_statuses :: "string list" where
  "herdr_statuses = [''working'', ''blocked'', ''idle'', ''done'', ''unknown'']"

text \<open>A member of a struct with \<open>omitempty\<close>.\<close>

definition opt_member :: "string \<Rightarrow> string \<Rightarrow> (string \<times> json) list" where
  "opt_member k v = (if v = [] then [] else [(k, JStr v)])"

definition metadata_json :: "herdr_metadata \<Rightarrow> json" where
  "metadata_json m = JObj
     (opt_member ''sessionName'' (hm_session_name m) @
      opt_member ''workspaceId'' (hm_workspace_id m) @
      [(''agentStatus'', JStr (hm_agent_status m))] @
      opt_member ''agent'' (hm_agent m) @
      opt_member ''title'' (hm_title m) @
      opt_member ''displayAgent'' (hm_display_agent m) @
      (if hm_state_labels m = [] then []
       else [(''stateLabels'', JObj (map (\<lambda>(k, v). (k, JStr v)) (hm_state_labels m)))]))"

section \<open>Normalisation\<close>

definition session_name_char :: "int \<Rightarrow> bool" where
  "session_name_char r \<longleftrightarrow>
     97 \<le> r \<and> r \<le> 122 \<or> 65 \<le> r \<and> r \<le> 90 \<or> 48 \<le> r \<and> r \<le> 57 \<or> r = 45 \<or> r = 95 \<or> r = 46"

definition valid_herdr_session_name :: "string \<Rightarrow> bool" where
  "valid_herdr_session_name s \<longleftrightarrow>
     \<not> (s = [] \<or> 64 < length s \<or> s = ''.'' \<or> s = ''..'') \<and> list_all session_name_char (runes s)"

definition label_of :: "string gomap \<Rightarrow> string \<Rightarrow> string" where
  "label_of m k = (case map_get m k of Some v \<Rightarrow> v | None \<Rightarrow> [])"

definition known_labels :: "string gomap \<Rightarrow> string gomap" where
  "known_labels m =
     foldl (\<lambda>labels k. let v = display_text (label_of m k) 96 in if v \<noteq> [] then map_put k v labels else labels)
       [] herdr_statuses"

definition normal_fields :: "herdr_metadata \<Rightarrow> herdr_metadata" where
  "normal_fields m =
     \<lparr>hm_session_name = (if valid_herdr_session_name (hm_session_name m) then hm_session_name m else []),
      hm_workspace_id = display_text (hm_workspace_id m) 256,
      hm_agent_status = display_text (hm_agent_status m) 32,
      hm_agent = display_text (hm_agent m) 64,
      hm_title = display_text (hm_title m) 256,
      hm_display_agent = display_text (hm_display_agent m) 64,
      hm_state_labels = known_labels (hm_state_labels m)\<rparr>"

definition halve_text :: "string \<Rightarrow> string" where
  "halve_text s = display_text s (length s div 2)"

text \<open>
  The loop body visits the labels in an unspecified order, but each iteration only rewrites or
  deletes its own key, so the order does not matter.
\<close>

definition halve_labels :: "string gomap \<Rightarrow> string gomap" where
  "halve_labels m = filter (\<lambda>(k, v). v \<noteq> []) (map (\<lambda>(k, v). (k, halve_text v)) m)"

definition shrink_metadata :: "herdr_metadata \<Rightarrow> herdr_metadata" where
  "shrink_metadata m = m
     \<lparr>hm_workspace_id := (if 600 < length (json_quote (hm_workspace_id m)) then [] else hm_workspace_id m),
      hm_agent := halve_text (hm_agent m),
      hm_display_agent := halve_text (hm_display_agent m),
      hm_title := halve_text (hm_title m),
      hm_state_labels := halve_labels (hm_state_labels m)\<rparr>"

partial_function (option) fit_metadata :: "herdr_metadata \<Rightarrow> herdr_metadata option" where
  "fit_metadata m =
     (if length (json_print (metadata_json m)) \<le> 1200 then Some m else fit_metadata (shrink_metadata m))"

declare fit_metadata.simps [code]

definition normalized :: "herdr_metadata \<Rightarrow> herdr_metadata option" where
  "normalized m = fit_metadata (normal_fields m)"

definition metadata_valid_for :: "herdr_metadata \<Rightarrow> event_type \<Rightarrow> bool" where
  "metadata_valid_for m event \<longleftrightarrow>
     \<not> (event = EventAttentionRequired \<and> hm_agent_status m \<noteq> ''blocked'' \<or>
        event = EventProgressUpdated \<and> hm_agent_status m \<noteq> ''idle'' \<and> hm_agent_status m \<noteq> ''done'' \<or>
        event \<noteq> EventAttentionRequired \<and> event \<noteq> EventProgressUpdated) \<and>
     \<not> (hm_workspace_id m \<noteq> [] \<and> \<not> valid_id (hm_workspace_id m)) \<and>
     map_option (\<lambda>n. json_print (metadata_json n)) (normalized m) = Some (json_print (metadata_json m))"

definition metadata_body :: "herdr_metadata \<Rightarrow> string" where
  "metadata_body m =
     (let agent = (if hm_display_agent m = [] then hm_agent m else hm_display_agent m);
          parts = filter (\<lambda>v. v \<noteq> []) [agent, hm_title m, label_of (hm_state_labels m) (hm_agent_status m)]
      in display_text (join_with [CHR '' '', chr 194, chr 183, CHR '' ''] parts) 400)"


section \<open>What \<open>DisplayText\<close> guarantees\<close>

definition plain :: "int \<Rightarrow> bool" where
  "plain r \<longleftrightarrow> scalar r \<and> \<not> hidden_rune r"

text \<open>Words of plain runes, one space between two of them.\<close>

definition word_ok :: "int list \<Rightarrow> bool" where
  "word_ok w \<longleftrightarrow> w \<noteq> [] \<and> list_all (\<lambda>r. plain r \<and> \<not> is_space r) w"

definition clean_runes :: "int list \<Rightarrow> bool" where
  "clean_runes rs \<longleftrightarrow> (\<exists>ws. list_all word_ok ws \<and> rs = join_fields ws)"

lemma join_fields_Cons: "join_fields (w # ws) = (if ws = [] then w else w @ 32 # join_fields ws)"
  by (cases ws) auto

lemma space_32 [simp]: "is_space 32" "scalar 32" "\<not> hidden_rune 32" "plain 32"
  by (simp_all add: is_space_def scalar_def hidden_rune_def is_control_def is_format_def cf_ranges_def plain_def)

lemma list_all_conj: "list_all (\<lambda>r. P r \<and> Q r) w \<longleftrightarrow> list_all P w \<and> list_all Q w"
  by (auto simp: list_all_iff)

lemma fields_all:
  "list_all P rs \<Longrightarrow> list_all (\<lambda>w. w \<noteq> [] \<and> list_all (\<lambda>r. P r \<and> \<not> is_space r) w) (space_fields rs)"
proof (induction rs rule: space_fields.induct)
  case (2 r rs)
  have "list_all P (takeWhile (\<lambda>x. \<not> is_space x) rs)" "list_all P (dropWhile (\<lambda>x. \<not> is_space x) rs)"
    using 2(3) by (auto simp: list_all_iff dest: set_takeWhileD set_dropWhileD)
  moreover have "list_all (\<lambda>x. \<not> is_space x) (takeWhile (\<lambda>x. \<not> is_space x) rs)"
    by (metis list_all_iff set_takeWhileD)
  ultimately show ?case
    using 2 by (auto simp: list_all_conj)
qed simp

lemma fields_plain: "list_all plain rs \<Longrightarrow> list_all word_ok (space_fields rs)"
  using fields_all[of plain rs] by (simp add: word_ok_def [abs_def])

lemma join_fields_scalar:
  "list_all (list_all P) ws \<Longrightarrow> P 32 \<Longrightarrow> list_all P (join_fields ws)"
  by (induction ws rule: join_fields.induct) auto

lemma fields_word:
  "w \<noteq> [] \<Longrightarrow> list_all (\<lambda>r. \<not> is_space r) w \<Longrightarrow> space_fields (w @ 32 # rs) = w # space_fields rs"
  by (cases w) (auto simp: list_all_iff takeWhile_append dropWhile_append)

lemma fields_last_word: "w \<noteq> [] \<Longrightarrow> list_all (\<lambda>r. \<not> is_space r) w \<Longrightarrow> space_fields w = [w]"
proof (cases w)
  case (Cons r rs)
  assume "list_all (\<lambda>r. \<not> is_space r) w"
  then have "takeWhile (\<lambda>x. \<not> is_space x) rs = rs" "dropWhile (\<lambda>x. \<not> is_space x) rs = []"
    by (simp_all add: Cons list_all_iff takeWhile_eq_all_conv dropWhile_eq_Nil_conv)
  moreover assume "list_all (\<lambda>r. \<not> is_space r) w"
  ultimately show ?thesis
    by (simp add: Cons del: dropWhile_eq_Nil_conv takeWhile_eq_all_conv)
qed simp

lemma fields_join: "list_all word_ok ws \<Longrightarrow> space_fields (join_fields ws) = ws"
  by (induction ws rule: join_fields.induct)
    (auto simp: fields_word fields_last_word word_ok_def list_all_iff)

lemma take_budget_plain: "list_all scalar rs \<Longrightarrow> list_all plain (take_budget limit n rs)"
  by (induction limit n rs rule: take_budget.induct) (auto simp: plain_def)

lemma take_budget_length: "n \<le> limit \<Longrightarrow> n + length (encode_runes (take_budget limit n rs)) \<le> limit"
  by (induction limit n rs rule: take_budget.induct) (auto simp: encode_runes_def add.assoc)

lemma take_budget_prefix:
  "list_all plain rs \<Longrightarrow> \<exists>k. take_budget limit n rs = take k rs"
proof (induction limit n rs rule: take_budget.induct)
  case (2 limit n r rs)
  show ?case
  proof (cases "limit < n + length (encode_rune r)")
    case True
    then show ?thesis using 2 by (intro exI[of _ 0]) (auto simp: plain_def)
  next
    case False
    then obtain k where "take_budget limit (n + length (encode_rune r)) rs = take k rs"
      using 2 by (auto simp: plain_def)
    then show ?thesis using False 2 by (intro exI[of _ "Suc k"]) (auto simp: plain_def)
  qed
qed simp

lemma take_budget_all:
  "list_all plain rs \<Longrightarrow> n + length (encode_runes rs) \<le> limit \<Longrightarrow> take_budget limit n rs = rs"
  by (induction limit n rs rule: take_budget.induct) (auto simp: plain_def encode_runes_def)

definition trim_end :: "int list \<Rightarrow> int list" where
  "trim_end rs = rev (dropWhile is_space (rev rs))"

lemma trim_end_prefix: "\<exists>k. trim_end rs = take k rs"
proof -
  have "rs = trim_end rs @ rev (takeWhile is_space (rev rs))"
    unfolding trim_end_def by (metis rev_append rev_rev_ident takeWhile_dropWhile_id)
  then show ?thesis
    by (metis append_eq_conv_conj)
qed

lemma trim_end_word: "list_all (\<lambda>r. \<not> is_space r) w \<Longrightarrow> trim_end w = w"
  by (cases w rule: rev_cases) (auto simp: trim_end_def)

lemma trim_end_append:
  "list_all (\<lambda>r. \<not> is_space r) w \<Longrightarrow> trim_end (w @ 32 # rs) = (if trim_end rs = [] then w else w @ 32 # trim_end rs)"
  using trim_end_word[of w]
  by (auto simp: trim_end_def dropWhile_append dropWhile_eq_Nil_conv simp del: rev_is_Nil_conv)

lemma word_no_space: "word_ok w \<Longrightarrow> list_all (\<lambda>r. \<not> is_space r) w"
  by (auto simp: word_ok_def list_all_iff)

lemma word_take: "word_ok w \<Longrightarrow> take k w = [] \<or> word_ok (take k w)"
  by (auto simp: word_ok_def list_all_iff dest: in_set_takeD)

lemma trim_end_take_clean:
  "list_all word_ok ws \<Longrightarrow> \<exists>vs. list_all word_ok vs \<and> trim_end (take k (join_fields ws)) = join_fields vs"
proof (induction ws arbitrary: k)
  case Nil
  then show ?case by (intro exI[of _ "[]"]) (simp add: trim_end_def)
next
  case (Cons w ws)
  then have w: "word_ok w" "list_all word_ok ws" by simp_all
  show ?case
  proof (cases "ws = [] \<or> k \<le> length w")
    case True
    then have "take k (join_fields (w # ws)) = take k w"
      by (auto simp: join_fields_Cons)
    moreover have "trim_end (take k w) = take k w"
      using word_no_space[OF w(1)] by (intro trim_end_word) (auto simp: list_all_iff dest: in_set_takeD)
    ultimately show ?thesis
      using word_take[OF w(1), of k]
      by (intro exI[of _ "if take k w = [] then [] else [take k w]"]) auto
  next
    case False
    then have t: "take k (join_fields (w # ws)) = w @ 32 # take (k - length w - 1) (join_fields ws)"
      by (cases "k - length w") (auto simp: join_fields_Cons)
    obtain vs where vs: "list_all word_ok vs"
      "trim_end (take (k - length w - 1) (join_fields ws)) = join_fields vs"
      using Cons.IH[OF w(2)] by blast
    have "join_fields vs = [] \<longleftrightarrow> vs = []"
      using vs(1) by (cases vs) (auto simp: join_fields_Cons word_ok_def)
    then show ?thesis
      using t vs w trim_end_append[OF word_no_space[OF w(1)], of "take (k - length w - 1) (join_fields ws)"]
      by (intro exI[of _ "w # vs"]) (auto simp: join_fields_Cons)
  qed
qed

lemma clean_hd: "clean_runes rs \<Longrightarrow> rs = [] \<or> \<not> is_space (hd rs)"
  unfolding clean_runes_def by (elim exE conjE) (case_tac ws; auto simp: join_fields_Cons word_ok_def list_all_iff)

lemma clean_plain: "clean_runes rs \<Longrightarrow> list_all plain rs"
  unfolding clean_runes_def
  by (elim exE conjE) (simp add: join_fields_scalar list_all_conj word_ok_def [abs_def] list.pred_mono_strong)

lemma trim_space_take_clean:
  assumes "clean_runes rs"
  shows "clean_runes (trim_space (take k rs))"
proof -
  obtain ws where ws: "list_all word_ok ws" "rs = join_fields ws"
    using assms by (auto simp: clean_runes_def)
  have "dropWhile is_space (take k rs) = take k rs"
    using clean_hd[OF assms] by (cases rs; cases k) auto
  then show ?thesis
    using trim_end_take_clean[OF ws(1), of k] by (auto simp: trim_space_def trim_end_def clean_runes_def ws(2))
qed

lemma trim_space_clean: "clean_runes rs \<Longrightarrow> trim_space rs = rs"
proof -
  assume c: "clean_runes rs"
  then obtain ws where ws: "list_all word_ok ws" "rs = join_fields ws"
    by (auto simp: clean_runes_def)
  have "trim_end (join_fields ws) = join_fields ws"
    using ws(1)
  proof (induction ws)
    case (Cons w ws)
    then have "ws \<noteq> [] \<Longrightarrow> join_fields ws \<noteq> []"
      by (cases ws) (auto simp: join_fields_Cons word_ok_def)
    then show ?case
      using Cons trim_end_append[OF word_no_space, of w "join_fields ws"] trim_end_word[OF word_no_space, of w]
      by (auto simp: join_fields_Cons)
  qed (simp add: trim_end_def)
  moreover have "dropWhile is_space rs = rs"
    using clean_hd[OF c] by (cases rs) auto
  ultimately show ?thesis
    by (simp add: trim_space_def trim_end_def ws(2))
qed

text \<open>The same on strings: what one pass establishes, and what a second one establishes.\<close>

definition plain_text :: "string \<Rightarrow> bool" where
  "plain_text s \<longleftrightarrow> valid_utf8 s \<and> list_all plain (runes s)"

definition clean_text :: "string \<Rightarrow> bool" where
  "clean_text s \<longleftrightarrow> valid_utf8 s \<and> clean_runes (runes s)"

lemma clean_plain_text: "clean_text s \<Longrightarrow> plain_text s"
  by (simp add: clean_text_def plain_text_def clean_plain)

lemma clean_text_Nil [simp]: "clean_text []"
  unfolding clean_text_def clean_runes_def
  by (auto simp: valid_utf8_def runes_def intro!: exI[of _ "[]"])

lemma trim_space_infix: "\<exists>a b. rs = a @ trim_space rs @ b"
proof -
  obtain a where a: "rs = a @ dropWhile is_space rs"
    by (metis takeWhile_dropWhile_id)
  obtain k where "trim_space rs = take k (dropWhile is_space rs)"
    using trim_end_prefix[of "dropWhile is_space rs"] by (auto simp: trim_space_def trim_end_def)
  then show ?thesis
    using a by (metis append_take_drop_id)
qed

lemma display_runes:
  fixes v :: string and n :: nat
  defines "rs \<equiv> trim_space (take_budget n 0 (join_fields (space_fields (runes v))))"
  shows "display_text v n = encode_runes rs" "list_all plain rs" "length (encode_runes rs) \<le> n"
proof -
  let ?b = "take_budget n 0 (join_fields (space_fields (runes v)))"
  have "list_all scalar (join_fields (space_fields (runes v)))"
    using fields_all[OF runes_scalar[of v]]
    by (intro join_fields_scalar) (simp_all add: list_all_conj)
  then have p: "list_all plain ?b"
    by (rule take_budget_plain)
  obtain a b where ab: "?b = a @ rs @ b"
    using trim_space_infix[of ?b] unfolding rs_def by blast
  show "list_all plain rs"
    using p unfolding ab by simp
  have "length (encode_runes ?b) \<le> n"
    using take_budget_length[of 0 n] by simp
  then show "length (encode_runes rs) \<le> n"
    unfolding ab by (simp add: encode_runes_def)
qed (simp add: display_text_def rs_def)

lemma display_length: "length (display_text v n) \<le> n"
  using display_runes[where v = v and n = n] by simp

lemma plain_scalar: "list_all plain rs \<Longrightarrow> list_all scalar rs"
  by (auto simp: list_all_iff plain_def)

lemma display_plain: "plain_text (display_text v n)"
  using display_runes[where v = v and n = n] plain_scalar by (simp add: plain_text_def)

lemma display_plain_clean:
  assumes "plain_text v"
  shows "clean_text (display_text v n)"
proof -
  let ?j = "join_fields (space_fields (runes v))"
  have w: "list_all word_ok (space_fields (runes v))"
    using assms by (intro fields_plain) (simp add: plain_text_def)
  then have c: "clean_runes ?j"
    by (auto simp: clean_runes_def)
  obtain k where "take_budget n 0 ?j = take k ?j"
    using take_budget_prefix[OF clean_plain[OF c]] by blast
  then have "clean_runes (trim_space (take_budget n 0 ?j))"
    using trim_space_take_clean[OF c] by simp
  then show ?thesis
    using display_runes[where v = v and n = n] by (simp add: clean_text_def plain_scalar)
qed

lemma display_clean_id:
  assumes "clean_text v" "length v \<le> n"
  shows "display_text v n = v"
proof -
  obtain ws where ws: "list_all word_ok ws" "runes v = join_fields ws"
    using assms by (auto simp: clean_text_def clean_runes_def)
  have c: "clean_runes (runes v)" and e: "encode_runes (runes v) = v"
    using assms encode_valid by (auto simp: clean_text_def)
  have "join_fields (space_fields (runes v)) = runes v"
    using ws by (simp add: fields_join)
  moreover have "take_budget n 0 (runes v) = runes v"
    using assms(2) e by (intro take_budget_all clean_plain[OF c]) simp
  ultimately show ?thesis
    by (simp add: display_text_def trim_space_clean[OF c] e)
qed

end
