(* ===== verification/Metadata_Bounds.thy ===== *)
theory Metadata_Bounds
  imports Metadata
begin

text \<open>
  The contract of \<open>Normalized\<close> and \<open>ValidFor\<close>: the loop ends, its result is within the byte
  budget and free of hidden runes, and a second pass is stable, so metadata that was normalised
  twice is accepted by \<open>ValidFor\<close>. One pass is not enough.
\<close>

section \<open>Well-formed metadata\<close>

definition labels_ok :: "(string \<Rightarrow> bool) \<Rightarrow> string gomap \<Rightarrow> bool" where
  "labels_ok P L \<longleftrightarrow> map_ok L \<and> (\<forall>(k, v) \<in> set L. k \<in> set herdr_statuses \<and> v \<noteq> [] \<and> length v \<le> 96 \<and> P v)"

definition metadata_bounded :: "(string \<Rightarrow> bool) \<Rightarrow> herdr_metadata \<Rightarrow> bool" where
  "metadata_bounded P m \<longleftrightarrow>
     (hm_session_name m = [] \<or> valid_herdr_session_name (hm_session_name m)) \<and>
     P (hm_workspace_id m) \<and> length (hm_workspace_id m) \<le> 256 \<and>
     P (hm_agent_status m) \<and> length (hm_agent_status m) \<le> 32 \<and>
     P (hm_agent m) \<and> length (hm_agent m) \<le> 64 \<and>
     P (hm_title m) \<and> length (hm_title m) \<le> 256 \<and>
     P (hm_display_agent m) \<and> length (hm_display_agent m) \<le> 64 \<and>
     labels_ok P (hm_state_labels m)"

lemma put_labels:
  assumes "map_ok L0"
  shows "map_ok (foldl (\<lambda>labels k. if f k \<noteq> [] then map_put k (f k) labels else labels) L0 ks)
    \<and> (\<forall>k. map_get (foldl (\<lambda>labels k. if f k \<noteq> [] then map_put k (f k) labels else labels) L0 ks) k
         = (if k \<in> set ks \<and> f k \<noteq> [] then Some (f k) else map_get L0 k))"
  using assms by (induction ks arbitrary: L0) (auto simp: map_get_put)

lemma known_labels_ok [simp]: "map_ok (known_labels L)"
  using put_labels[of "[]" "\<lambda>k. display_text (label_of L k) 96" herdr_statuses]
  by (simp add: known_labels_def Let_def)

lemma known_labels_get:
  "map_get (known_labels L) k =
     (if k \<in> set herdr_statuses \<and> display_text (label_of L k) 96 \<noteq> []
      then Some (display_text (label_of L k) 96) else None)"
  using put_labels[of "[]" "\<lambda>k. display_text (label_of L k) 96" herdr_statuses]
  by (simp add: known_labels_def Let_def map_get_def)

lemma map_get_set: "map_ok L \<Longrightarrow> map_get L k = Some v \<longleftrightarrow> (k, v) \<in> set L"
  by (simp add: map_get_def map_ok_distinct)

lemma label_of_plain: "labels_ok P L \<Longrightarrow> P [] \<Longrightarrow> P (label_of L k) \<and> length (label_of L k) \<le> 96"
  by (auto simp: label_of_def labels_ok_def map_get_set split: option.splits)

lemma normal_fields_plain: "metadata_bounded plain_text (normal_fields m)"
  by (auto simp: metadata_bounded_def normal_fields_def display_length display_plain labels_ok_def
      map_get_set [symmetric] known_labels_get split: if_splits)

lemma normal_fields_clean:
  "metadata_bounded plain_text m \<Longrightarrow> metadata_bounded clean_text (normal_fields m)"
  using label_of_plain[of plain_text "hm_state_labels m"] clean_plain_text[OF clean_text_Nil]
  by (auto simp: metadata_bounded_def normal_fields_def display_length display_plain_clean labels_ok_def
      map_get_set [symmetric] known_labels_get split: if_splits)

lemma known_labels_id:
  assumes "labels_ok clean_text L"
  shows "known_labels L = L"
proof (rule map_ext)
  fix k
  show "map_get (known_labels L) k = map_get L k"
  proof (cases "map_get L k")
    case None
    have "display_text [] 96 = []" by (rule display_clean_id) simp_all
    then show ?thesis
      using None by (simp add: known_labels_get label_of_def)
  next
    case (Some v)
    then have "(k, v) \<in> set L"
      using assms by (simp add: labels_ok_def map_get_set)
    then have "k \<in> set herdr_statuses" "v \<noteq> []" "display_text v 96 = v"
      using assms by (auto simp: labels_ok_def intro!: display_clean_id)
    then show ?thesis
      using Some by (simp add: known_labels_get label_of_def)
  qed
qed (use assms in \<open>simp_all add: labels_ok_def\<close>)

lemma normal_fields_id: "metadata_bounded clean_text m \<Longrightarrow> normal_fields m = m"
  by (auto simp: metadata_bounded_def normal_fields_def known_labels_id display_clean_id)

section \<open>The loop\<close>

lemma halve_length: "length (halve_text s) \<le> length s div 2"
  by (simp add: halve_text_def display_length)

lemma halve_labels_keys: "map_ok L \<Longrightarrow> map_ok (halve_labels L)"
  unfolding halve_labels_def
  by (induction L) (auto simp: map_ok_Cons)

lemma halve_le: "length s \<le> n \<Longrightarrow> length (halve_text s) \<le> n"
  using halve_length[of s] by linarith

lemma halve_labels_ok:
  assumes "labels_ok P L" "\<And>v. P v \<Longrightarrow> P (halve_text v)"
  shows "labels_ok P (halve_labels L)"
proof -
  have "k \<in> set herdr_statuses \<and> v \<noteq> [] \<and> length v \<le> 96 \<and> P v" if "(k, v) \<in> set (halve_labels L)" for k v
  proof -
    have "\<exists>u. (k, u) \<in> set L \<and> v = halve_text u \<and> v \<noteq> []"
      using that by (auto simp: halve_labels_def)
    then obtain u where u: "(k, u) \<in> set L" "v = halve_text u" "v \<noteq> []"
      by blast
    then have "k \<in> set herdr_statuses \<and> length u \<le> 96 \<and> P u"
      using assms(1) by (auto simp: labels_ok_def)
    then show ?thesis
      using u assms(2) by (simp add: halve_le)
  qed
  then show ?thesis
    using assms(1) by (auto simp: labels_ok_def halve_labels_keys)
qed

lemma shrink_bounded:
  assumes "\<And>v. P v \<Longrightarrow> P (halve_text v)" "P []" "metadata_bounded P m"
  shows "metadata_bounded P (shrink_metadata m)"
proof -
  have "labels_ok P (halve_labels (hm_state_labels m))"
    using assms by (intro halve_labels_ok) (simp_all add: metadata_bounded_def)
  then show ?thesis
    using assms(2,3) by (simp add: metadata_bounded_def shrink_metadata_def halve_le assms(1))
qed

lemma shrink_plain: "metadata_bounded plain_text m \<Longrightarrow> metadata_bounded plain_text (shrink_metadata m)"
  by (rule shrink_bounded) (simp_all add: halve_text_def display_plain clean_plain_text)

lemma shrink_clean: "metadata_bounded clean_text m \<Longrightarrow> metadata_bounded clean_text (shrink_metadata m)"
  by (rule shrink_bounded) (simp_all add: halve_text_def display_plain_clean clean_plain_text)

text \<open>The bytes the loop can still remove.\<close>

definition label_weight :: "string gomap \<Rightarrow> nat" where
  "label_weight L = sum_list (map (\<lambda>(k, v). length v + 1) L)"

definition metadata_weight :: "herdr_metadata \<Rightarrow> nat" where
  "metadata_weight m =
     length (hm_agent m) + length (hm_title m) + length (hm_display_agent m) + label_weight (hm_state_labels m) +
     (if 600 < length (json_quote (hm_workspace_id m)) then 1 else 0)"

lemma halve_shorter: "length (halve_text s) \<le> length s" "s \<noteq> [] \<Longrightarrow> length (halve_text s) < length s"
  using halve_length[of s] by (auto intro: le_less_trans le_trans)

lemma label_weight_halve:
  "label_weight (halve_labels L) \<le> label_weight L \<and> (L \<noteq> [] \<longrightarrow> label_weight (halve_labels L) < label_weight L)"
proof (induction L)
  case (Cons e L)
  obtain k v where e: "e = (k, v)" by fastforce
  show ?case
    using Cons halve_shorter[of v]
    by (cases "v = []") (auto simp: e label_weight_def halve_labels_def)
qed (simp add: label_weight_def halve_labels_def)

lemma weight_shrinks:
  assumes "metadata_weight m \<noteq> 0"
  shows "metadata_weight (shrink_metadata m) < metadata_weight m"
proof -
  let ?ws = "hm_workspace_id m"
  have q: "length (json_quote []) = 2"
    by (simp add: json_quote_def)
  note h = halve_shorter(1)[of "hm_agent m"] halve_shorter(1)[of "hm_title m"]
    halve_shorter(1)[of "hm_display_agent m"] label_weight_halve[of "hm_state_labels m"]
  have "hm_agent m \<noteq> [] \<or> hm_title m \<noteq> [] \<or> hm_display_agent m \<noteq> [] \<or> hm_state_labels m \<noteq> []
      \<or> 600 < length (json_quote ?ws)"
    using assms by (cases "600 < length (json_quote ?ws)") (auto simp: metadata_weight_def label_weight_def)
  then show ?thesis
    using h halve_shorter(2)[of "hm_agent m"] halve_shorter(2)[of "hm_title m"]
      halve_shorter(2)[of "hm_display_agent m"]
    by (elim disjE; cases "600 < length (json_quote ?ws)")
      (simp_all add: metadata_weight_def shrink_metadata_def q)
qed

lemma quote_name_length:
  assumes "list_all session_name_char (runes s)"
  shows "length (json_quote s) \<le> length s + 2"
proof -
  have one: "length (escape_unit u) \<le> snd u" if "u \<in> set (units s)" for u
  proof -
    have "session_name_char (fst u)"
      using assms that by (auto simp: runes_def list_all_iff)
    moreover from this have "\<not> bad_unit u"
      by (auto simp: bad_unit_def session_name_char_def)
    ultimately show ?thesis
      using units_width[OF that] by (auto simp: escape_unit_def escape_ascii_def session_name_char_def)
  qed
  then have "sum_list (map (length \<circ> escape_unit) (units s)) \<le> sum_list (map snd (units s))"
    by (intro sum_list_mono) auto
  then show ?thesis
    by (simp add: json_quote_def length_concat units_total_width)
qed

lemma name_ascii: "ascii s \<Longrightarrow> list_all (\<lambda>c. session_name_char (byte c)) s \<Longrightarrow> length (json_quote s) \<le> length s + 2"
  by (intro quote_name_length) (auto simp: runes_ascii list_all_iff)

lemma key_lengths:
  "length (json_quote ''sessionName'') \<le> 13" "length (json_quote ''workspaceId'') \<le> 13"
  "length (json_quote ''agentStatus'') \<le> 13"
  by (rule le_trans, rule name_ascii; simp add: ascii_def byte_def session_name_char_def)+

lemma weightless_fits:
  assumes b: "metadata_bounded P m" and w: "metadata_weight m = 0"
  shows "length (json_print (metadata_json m)) \<le> 1200"
proof -
  have e: "hm_agent m = []" "hm_title m = []" "hm_display_agent m = []" "hm_state_labels m = []"
    using w label_weight_halve[of "hm_state_labels m"]
    by (auto simp: metadata_weight_def split: if_splits)
  have ws: "length (json_quote (hm_workspace_id m)) \<le> 600"
    using w by (auto simp: metadata_weight_def split: if_splits)
  have name: "hm_session_name m = [] \<or> length (json_quote (hm_session_name m)) \<le> 66"
    using b quote_name_length[of "hm_session_name m"]
    by (auto simp: metadata_bounded_def valid_herdr_session_name_def)
  have status: "length (json_quote (hm_agent_status m)) \<le> 194"
    using b length_json_quote[of "hm_agent_status m"] by (auto simp: metadata_bounded_def)
  show ?thesis
    using ws name status key_lengths e
    by (cases "hm_session_name m = []"; cases "hm_workspace_id m = []")
      (simp_all add: json_print_def metadata_json_def opt_member_def)
qed

theorem fit_metadata_returns:
  assumes "metadata_bounded P m" "\<And>v. P v \<Longrightarrow> P (halve_text v)" "P []"
  shows "\<exists>n. fit_metadata m = Some n \<and> length (json_print (metadata_json n)) \<le> 1200 \<and> metadata_bounded P n"
  using assms(1)
proof (induction "metadata_weight m" arbitrary: m rule: less_induct)
  case less
  show ?case
  proof (cases "length (json_print (metadata_json m)) \<le> 1200")
    case True
    then show ?thesis
      using less.prems by (subst fit_metadata.simps) simp
  next
    case False
    then have "metadata_weight m \<noteq> 0"
      using weightless_fits[OF less.prems] by blast
    then show ?thesis
      using less.hyps[OF weight_shrinks shrink_bounded[OF assms(2,3) less.prems]] False
      by (subst fit_metadata.simps) simp
  qed
qed

section \<open>\<open>Normalized\<close>\<close>

lemma normalized_bounded:
  "\<exists>n. normalized m = Some n \<and> length (json_print (metadata_json n)) \<le> 1200 \<and> metadata_bounded plain_text n"
  unfolding normalized_def
  by (rule fit_metadata_returns[OF normal_fields_plain])
    (simp_all add: halve_text_def display_plain clean_plain_text)

lemma normalized_clean:
  assumes "metadata_bounded plain_text m"
  shows "\<exists>n. normalized m = Some n \<and> length (json_print (metadata_json n)) \<le> 1200 \<and> metadata_bounded clean_text n"
  unfolding normalized_def
  by (rule fit_metadata_returns[OF normal_fields_clean[OF assms]])
    (simp_all add: halve_text_def display_plain_clean clean_plain_text)

lemma normalized_id:
  "metadata_bounded clean_text m \<Longrightarrow> length (json_print (metadata_json m)) \<le> 1200 \<Longrightarrow> normalized m = Some m"
  by (simp add: normalized_def normal_fields_id fit_metadata.simps)

lemma shrink_status [simp]: "hm_agent_status (shrink_metadata m) = hm_agent_status m"
  by (simp add: shrink_metadata_def)

lemma fit_status: "fit_metadata m = Some n \<Longrightarrow> hm_agent_status n = hm_agent_status m"
  by (erule fit_metadata.raw_induct [rotated]) (auto split: if_splits)

lemma low_byte_rune:
  assumes "scalar r" "c \<in> set (encode_rune r)" "byte c < 128"
  shows "r = byte c"
proof (cases "r < 128")
  case True
  then show ?thesis
    using assms by (auto simp: encode_ascii scalar_def)
next
  case False
  have "0 \<le> r" "r \<le> 1114111"
    using assms by (auto simp: scalar_def)
  then have "r div 262144 < 8" "r div 4096 < 16 \<or> 65536 \<le> r" "r div 64 < 32 \<or> 2048 \<le> r"
    by linarith+
  then show ?thesis
    using False assms by (auto simp: encode_rune_def Let_def byte_chr split: if_splits)
qed

lemma plain_valid_id:
  assumes "plain_text v" "length v \<le> 256" "v \<noteq> []"
  shows "valid_id v"
proof -
  have "\<exists>r \<in> set (runes v). r = byte c" if c: "c \<in> set v" "byte c < 128" for c
  proof -
    have "c \<in> set (encode_runes (runes v))"
      using assms(1) c encode_valid by (simp add: plain_text_def)
    then obtain r where "r \<in> set (runes v)" "c \<in> set (encode_rune r)"
      by (auto simp: encode_runes_def)
    then show ?thesis
      using low_byte_rune[of r c] c runes_scalar[of v] by (auto simp: list_all_iff)
  qed
  moreover have "\<forall>r \<in> set (runes v). 32 \<le> r"
    using assms(1) by (auto simp: plain_text_def plain_def hidden_rune_def is_control_def scalar_def list_all_iff)
  ultimately have "32 \<le> byte c" if "c \<in> set v" for c
    using that by (cases "byte c < 128") auto
  then have "chr b \<notin> set v" if "0 \<le> b" "b < 32" for b
    using that byte_chr_id[of b] by force
  then show ?thesis
    using assms(2,3) by (auto simp: valid_id_def contains_any_iff)
qed

text \<open>A second pass is stable.\<close>

lemma normalized_twice:
  assumes "normalized m = Some n1" "normalized n1 = Some n2"
  shows "normalized n2 = Some n2 \<and> metadata_bounded clean_text n2 \<and> length (json_print (metadata_json n2)) \<le> 1200"
proof -
  have "metadata_bounded plain_text n1"
    using normalized_bounded[of m] assms(1) by simp
  then show ?thesis
    using normalized_clean[of n1] assms(2) normalized_id[of n2] by simp
qed

lemma normalized_status: "normalized m = Some n \<Longrightarrow> hm_agent_status n = display_text (hm_agent_status m) 32"
  using fit_status[of "normal_fields m" n] by (simp add: normalized_def normal_fields_def)

definition event_of_status :: "string \<Rightarrow> event_type" where
  "event_of_status s = (if s = ''blocked'' then EventAttentionRequired else EventProgressUpdated)"

lemma status_text:
  "s \<in> {''blocked'', ''idle'', ''done''} \<Longrightarrow> display_text s 32 = s"
  by (elim insertE emptyE; simp only:; code_simp)

lemma normalized_twice_valid:
  assumes "normalized m = Some n1" "normalized n1 = Some n2" "hm_agent_status m \<in> {''blocked'', ''idle'', ''done''}"
  shows "metadata_valid_for n2 (event_of_status (hm_agent_status m))"
proof -
  note n2 = normalized_twice[OF assms(1,2)]
  have "hm_agent_status n2 = hm_agent_status m"
    using normalized_status[OF assms(1)] normalized_status[OF assms(2)] status_text[OF assms(3)] by simp
  moreover have "hm_workspace_id n2 = [] \<or> valid_id (hm_workspace_id n2)"
    using n2 plain_valid_id clean_plain_text by (auto simp: metadata_bounded_def)
  ultimately show ?thesis
    using assms(3) n2 by (auto simp: metadata_valid_for_def event_of_status_def event_type_defs)
qed

section \<open>Properties\<close>

text \<open>\<open>DisplayText(value, max)\<close> never returns more than \<open>max\<close> bytes, is valid UTF-8 and contains no
  control and no format rune, whatever bytes the remote agent supplied.\<close>

theorem display_text_contract:
  "length (display_text v n) \<le> n \<and> valid_utf8 (display_text v n) \<and> list_all plain (runes (display_text v n))"
  using display_length[of v n] display_plain[of v n] by (simp add: plain_text_def)

text \<open>Display text settles after a second pass: a third application changes nothing.\<close>

theorem display_text_settles:
  "display_text (display_text (display_text v n) n) n = display_text (display_text v n) n"
  by (rule display_clean_id[OF display_plain_clean[OF display_plain] display_length])

text \<open>C34: \<open>Normalized\<close> always returns: its shrinking loop ends for every metadata value, the result
  marshals to at most 1200 bytes and every text field is within its own budget and free of hidden runes.\<close>

theorem normalized_returns:
  "\<exists>n. normalized m = Some n \<and> length (json_print (metadata_json n)) \<le> 1200 \<and> metadata_bounded plain_text n"
  by (rule normalized_bounded)

text \<open>Metadata that was normalised twice is a fixed point of \<open>Normalized\<close> and, when the pane was
  blocked, idle or done, passes \<open>ValidFor\<close> for the event type of that status.\<close>

theorem normalized_twice_accepted:
  assumes "normalized m = Some n1" "normalized n1 = Some n2" "hm_agent_status m \<in> {''blocked'', ''idle'', ''done''}"
  shows "normalized n2 = Some n2 \<and> metadata_valid_for n2 (event_of_status (hm_agent_status m))"
  using normalized_twice[OF assms(1,2)] normalized_twice_valid[OF assms] by simp

definition blocked_metadata :: "string \<Rightarrow> herdr_metadata" where
  "blocked_metadata title = \<lparr>hm_session_name = [], hm_workspace_id = [], hm_agent_status = ''blocked'', hm_agent = [],
     hm_title = title, hm_display_agent = [], hm_state_labels = []\<rparr>"

text \<open>A title of two words around a zero-width space (U+200B).\<close>

definition zero_width_title :: string where
  "zero_width_title = [CHR ''a'', CHR '' '', chr 226, chr 128, chr 139, CHR '' '', CHR ''b'']"

lemma zero_width_normalized:
  "normalized (blocked_metadata zero_width_title) = Some (blocked_metadata ''a  b'')"
  "normalized (blocked_metadata ''a  b'') = Some (blocked_metadata ''a b'')"
  "normalized (blocked_metadata ''a b'') = Some (blocked_metadata ''a b'')"
  by code_simp+

theorem normalized_twice_accepted_witness:
  "normalized (blocked_metadata ''a b'') = Some (blocked_metadata ''a b'') \<and>
   metadata_valid_for (blocked_metadata ''a b'') (event_of_status ''blocked'')"
  using normalized_twice_accepted[OF zero_width_normalized(1,2)] by (simp add: blocked_metadata_def)

text \<open>C38: One pass of \<open>Normalized\<close> is not enough for \<open>ValidFor\<close>: dropping a zero-width space between two
  spaces leaves a double space that the next pass collapses, so \<open>ValidFor\<close> rejects the normalised value.\<close>

theorem normalized_once_rejected:
  "\<exists>m n. normalized m = Some n \<and> hm_agent_status m = ''blocked'' \<and> \<not> metadata_valid_for n EventAttentionRequired"
proof -
  have "\<not> metadata_valid_for (blocked_metadata ''a  b'') EventAttentionRequired"
    by code_simp
  then show ?thesis
    using zero_width_normalized(1)
    by (intro exI[of _ "blocked_metadata zero_width_title"] exI[of _ "blocked_metadata ''a  b''"] conjI)
      (simp_all add: blocked_metadata_def)
qed

end
