(* ===== verification/GoTime.thy ===== *)
theory GoTime
  imports Prelude
begin

text \<open>
  Package \<open>time\<close> as far as the agent uses it: an instant in nanoseconds since the Unix epoch with
  the zone offset (in minutes) it is shown in, and the RFC 3339 text \<open>encoding/json\<close> writes and
  reads. Only the strict form of the text is read; Go's fallback for a one-digit hour or a comma
  before the fraction is not modelled. \<open>parse_time_text\<close> is the round trip.
\<close>

record gotime =
  nanos :: int
  zone :: int

abbreviation second :: int where
  "second \<equiv> 1000000000"

definition unix :: "gotime \<Rightarrow> int" where
  "unix t = nanos t div second"

definition utc :: "gotime \<Rightarrow> gotime" where
  "utc t = t\<lparr>zone := 0\<rparr>"

definition time_add :: "gotime \<Rightarrow> int \<Rightarrow> gotime" where
  "time_add t d = t\<lparr>nanos := nanos t + d\<rparr>"

definition is_zero_time :: "gotime \<Rightarrow> bool" where
  "is_zero_time t \<longleftrightarrow> nanos t = -62135596800 * second"

definition after :: "gotime \<Rightarrow> gotime \<Rightarrow> bool" where
  "after t u \<longleftrightarrow> nanos u < nanos t"

lemma unix_add_seconds [simp]: "unix (time_add t (n * second)) = unix t + n"
  by (simp add: unix_def time_add_def)

lemma unix_utc [simp]: "unix (utc t) = unix t" "nanos (utc t) = nanos t"
  by (simp_all add: unix_def utc_def)

section \<open>The calendar\<close>

definition leap :: "int \<Rightarrow> bool" where
  "leap y \<longleftrightarrow> y mod 4 = 0 \<and> (y mod 100 \<noteq> 0 \<or> y mod 400 = 0)"

definition month_lengths :: "int \<Rightarrow> int list" where
  "month_lengths y = [31, if leap y then 29 else 28, 31, 30, 31, 30, 31, 31, 30, 31, 30, 31]"

text \<open>Days from 1 January of the year 0 to 1 January of the year \<open>y\<close>.\<close>

definition year_start :: "int \<Rightarrow> int" where
  "year_start y = 365 * y + (y + 3) div 4 - (y + 99) div 100 + (y + 399) div 400"

definition year_of :: "int \<Rightarrow> int" where
  "year_of n =
     (let y = 400 * n div 146097
      in if year_start (y + 1) \<le> n then y + 1 else if n < year_start y then y - 1 else y)"

fun split_month :: "int list \<Rightarrow> int \<Rightarrow> int \<Rightarrow> int \<times> int" where
  "split_month [] m d = (m, d + 1)"
| "split_month (l # ls) m d = (if d < l then (m, d + 1) else split_month ls (m + 1) (d - l))"

definition civil :: "int \<Rightarrow> int \<times> int \<times> int" where
  "civil n = (let y = year_of n; (m, d) = split_month (month_lengths y) 1 (n - year_start y) in (y, m, d))"

definition day_number :: "int \<Rightarrow> int \<Rightarrow> int \<Rightarrow> int" where
  "day_number y m d = year_start y + sum_list (take (nat (m - 1)) (month_lengths y)) + d - 1"

lemma ceil_div_step:
  fixes y k :: int
  assumes "0 < k"
  shows "(y + k) div k = (y + (k - 1)) div k + (if y mod k = 0 then 1 else 0)"
proof -
  define r where "r = y mod k"
  have r: "0 \<le> r" "r < k"
    using assms by (simp_all add: r_def)
  have y: "y = y div k * k + r"
    by (simp add: r_def)
  have "(r + (k - 1)) div k = (if r = 0 then 0 else 1)"
    using r assms div_pos_pos_trivial[of "r - 1" k] div_add_self2[of k "r - 1"]
    by (auto simp: algebra_simps)
  moreover have "(y + (k - 1)) div k = y div k + (r + (k - 1)) div k"
  proof -
    have "y + (k - 1) = y div k * k + (r + (k - 1))"
      using y by linarith
    then show ?thesis
      using assms by (simp only:) simp
  qed
  moreover have "(y + k) div k = y div k + 1"
    using assms div_add_self2[of k y] by simp
  ultimately show ?thesis
    by (simp add: r_def)
qed

lemma div_bounds:
  fixes x k :: int
  assumes "0 < k"
  shows "k * (x div k) \<le> x" "x \<le> k * (x div k) + (k - 1)"
proof -
  have "k * (x div k) + x mod k = x" "0 \<le> x mod k" "x mod k < k"
    using assms by simp_all
  then show "k * (x div k) \<le> x" "x \<le> k * (x div k) + (k - 1)"
    by linarith+
qed

lemmas div_4_bounds = div_bounds [of 4, simplified]
lemmas div_100_bounds = div_bounds [of 100, simplified]
lemmas div_400_bounds = div_bounds [of 400, simplified]
lemmas div_era_bounds = div_bounds [of 146097, simplified]

lemma year_start_step: "year_start (y + 1) = year_start y + sum_list (month_lengths y)"
proof -
  have m: "y mod 100 = 0 \<Longrightarrow> y mod 4 = 0" "y mod 400 = 0 \<Longrightarrow> y mod 100 = 0"
    using dvd_trans[of 4 100 y] dvd_trans[of 100 400 y] by (simp_all add: mod_eq_0_iff_dvd)
  have months: "sum_list (month_lengths y) = 365 + (if leap y then 1 else 0)"
    by (simp add: month_lengths_def)
  have "(y + 4) div 4 = (y + 3) div 4 + (if y mod 4 = 0 then 1 else 0)"
    "(y + 100) div 100 = (y + 99) div 100 + (if y mod 100 = 0 then 1 else 0)"
    "(y + 400) div 400 = (y + 399) div 400 + (if y mod 400 = 0 then 1 else 0)"
    using ceil_div_step[of 4 y, simplified] ceil_div_step[of 100 y, simplified]
      ceil_div_step[of 400 y, simplified] by (simp_all only:)
  note q = this
  have "year_start (y + 1) = 365 * (y + 1) + (y + 4) div 4 - (y + 100) div 100 + (y + 400) div 400"
  proof -
    have "y + 1 + 3 = y + 4" "y + 1 + 99 = y + 100" "y + 1 + 399 = y + 400"
      by simp_all
    then show ?thesis
      unfolding year_start_def by (simp only:)
  qed
  also have "\<dots> = year_start y + (365 + (if leap y then 1 else 0))"
  proof -
    have count: "(if a \<and> (\<not> b \<or> c) then 1 else 0 :: int) = (if a then 1 else 0)
        - (if b then 1 else 0) + (if c then 1 else 0)" if "b \<Longrightarrow> a" "c \<Longrightarrow> b" for a b c
      using that by (cases a; cases b; cases c) simp_all
    have "(if leap y then 1 else 0 :: int) = (if y mod 4 = 0 then 1 else 0)
        - (if y mod 100 = 0 then 1 else 0) + (if y mod 400 = 0 then 1 else 0)"
      unfolding leap_def using m by (intro count)
    moreover have "365 * (y + 1) + (a + i) - (b + j) + (c + k)
        = 365 * y + a - b + c + (365 + (i - j + k))" for a b c i j k :: int
      by simp
    ultimately show ?thesis
      unfolding q year_start_def by (simp only:)
  qed
  finally show ?thesis
    by (simp add: months)
qed

lemma year_start_bounds:
  "146097 * y - 396 \<le> 400 * year_start y" "400 * year_start y \<le> 146097 * y + 699"
proof -
  define a b c where abc: "a = (y + 3) div 4" "b = (y + 99) div 100" "c = (y + 399) div 400"
  note b = div_4_bounds[of "y + 3"] div_100_bounds[of "y + 99"] div_400_bounds[of "y + 399"]
  show "146097 * y - 396 \<le> 400 * year_start y"
    using b unfolding year_start_def abc [symmetric] by (simp add: algebra_simps)
  show "400 * year_start y \<le> 146097 * y + 699"
    using b unfolding year_start_def abc [symmetric] by (simp add: algebra_simps)
qed

lemma year_of_correct: "year_start (year_of n) \<le> n \<and> n < year_start (year_of n + 1)"
proof -
  define e where e_def: "e = 400 * n div 146097"
  have e: "146097 * e \<le> 400 * n" "400 * n \<le> 146097 * e + 146096"
    unfolding e_def by (rule div_era_bounds)+
  have hi: "n < year_start (e + 1 + 1)"
    using year_start_bounds(1)[of "e + 1 + 1"] e by (simp add: algebra_simps)
  have lo: "year_start (e - 1) \<le> n"
    using year_start_bounds(2)[of "e - 1"] e by (simp add: algebra_simps)
  show ?thesis
    using hi lo by (auto simp: year_of_def Let_def simp flip: e_def)
qed

lemma split_month_correct:
  assumes "split_month ls m0 d0 = (m, d)" "0 \<le> d0" "d0 < sum_list ls"
  shows "m0 \<le> m \<and> m < m0 + int (length ls) \<and> 1 \<le> d \<and> d \<le> ls ! nat (m - m0)
    \<and> sum_list (take (nat (m - m0)) ls) + d - 1 = d0"
  using assms
proof (induction ls arbitrary: m0 d0)
  case (Cons l ls)
  show ?case
  proof (cases "d0 < l")
    case True
    then show ?thesis using Cons by auto
  next
    case False
    then have "m0 + 1 \<le> m \<and> m < m0 + 1 + int (length ls) \<and> 1 \<le> d \<and> d \<le> ls ! nat (m - (m0 + 1))
      \<and> sum_list (take (nat (m - (m0 + 1))) ls) + d - 1 = d0 - l"
      using Cons by (intro Cons.IH) auto
    moreover from this have "nat (m - m0) = Suc (nat (m - (m0 + 1)))"
      by linarith
    ultimately show ?thesis
      by auto
  qed
qed simp

lemma civil_correct:
  assumes "civil n = (y, m, d)"
  shows "1 \<le> m" "m \<le> 12" "1 \<le> d" "d \<le> month_lengths y ! nat (m - 1)" "day_number y m d = n"
proof -
  let ?y = "year_of n"
  have "split_month (month_lengths y) 1 (n - year_start y) = (m, d)" "y = ?y"
    using assms by (auto simp: civil_def Let_def split: prod.splits)
  then have r: "1 \<le> m \<and> m < 1 + int (length (month_lengths y)) \<and> 1 \<le> d
      \<and> d \<le> month_lengths y ! nat (m - 1)
      \<and> sum_list (take (nat (m - 1)) (month_lengths y)) + d - 1 = n - year_start y"
    using year_of_correct[of n] year_start_step[of ?y] by (intro split_month_correct) auto
  then show "1 \<le> m" "m \<le> 12" "1 \<le> d" "d \<le> month_lengths y ! nat (m - 1)" "day_number y m d = n"
    by (auto simp: month_lengths_def day_number_def)
qed

section \<open>RFC 3339\<close>

fun pad :: "nat \<Rightarrow> int \<Rightarrow> string" where
  "pad 0 n = []"
| "pad (Suc k) n = pad k (n div 10) @ [digit_char (n mod 10)]"

definition fraction_text :: "int \<Rightarrow> string" where
  "fraction_text ns = (if ns = 0 then [] else CHR ''.'' # trim_right (CHR ''0'') (pad 9 ns))"

definition zone_text :: "int \<Rightarrow> string" where
  "zone_text z =
     (if z = 0 then ''Z''
      else (if z < 0 then CHR ''-'' else CHR ''+'') # pad 2 (\<bar>z\<bar> div 60) @ CHR '':'' # pad 2 (\<bar>z\<bar> mod 60))"

definition time_text :: "gotime \<Rightarrow> string option" where
  "time_text t =
     (let local = nanos t div second + 60 * zone t;
          (y, m, d) = civil (local div 86400 + 719528);
          s = local mod 86400
      in if 0 \<le> y \<and> y \<le> 9999 \<and> \<bar>zone t\<bar> < 1440 then
           Some (pad 4 y @ CHR ''-'' # pad 2 m @ CHR ''-'' # pad 2 d @ CHR ''T''
             # pad 2 (s div 3600) @ CHR '':'' # pad 2 (s div 60 mod 60) @ CHR '':'' # pad 2 (s mod 60)
             @ fraction_text (nanos t mod second) @ zone_text (zone t))
         else None)"

definition take_num :: "nat \<Rightarrow> int \<Rightarrow> int \<Rightarrow> string \<Rightarrow> (int \<times> string) option" where
  "take_num k lo hi s =
     (let ds = take k s; v = digits_value ds
      in if length ds = k \<and> list_all is_digit ds \<and> lo \<le> v \<and> v \<le> hi
         then Some (v, drop k s) else None)"

definition take_char :: "char \<Rightarrow> string \<Rightarrow> string option" where
  "take_char c s = (case s of d # ds \<Rightarrow> if d = c then Some ds else None | [] \<Rightarrow> None)"

definition take_fraction :: "string \<Rightarrow> int \<times> string" where
  "take_fraction s =
     (case s of
        c # cs \<Rightarrow>
          if c = CHR ''.'' \<and> takeWhile is_digit cs \<noteq> [] then
            (let ds = take 9 (takeWhile is_digit cs)
             in (digits_value ds * 10 ^ (9 - length ds), dropWhile is_digit cs))
          else (0, s)
      | [] \<Rightarrow> (0, s))"

definition parse_zone :: "string \<Rightarrow> int option" where
  "parse_zone s =
     (if s = ''Z'' then Some 0
      else case s of
        [] \<Rightarrow> None
      | c # cs \<Rightarrow>
          if c \<noteq> CHR ''-'' \<and> c \<noteq> CHR ''+'' then None
          else Option.bind (take_num 2 0 23 cs) (\<lambda>(h, r1).
            Option.bind (take_char (CHR '':'') r1) (\<lambda>r2.
              Option.bind (take_num 2 0 59 r2) (\<lambda>(mm, r3).
                if r3 \<noteq> [] then None
                else Some (if c = CHR ''-'' then - (h * 60 + mm) else h * 60 + mm)))))"

definition parse_time :: "string \<Rightarrow> gotime option" where
  "parse_time s =
     Option.bind (take_num 4 0 9999 s) (\<lambda>(y, s1).
     Option.bind (take_char (CHR ''-'') s1) (\<lambda>s2.
     Option.bind (take_num 2 1 12 s2) (\<lambda>(m, s3).
     Option.bind (take_char (CHR ''-'') s3) (\<lambda>s4.
     Option.bind (take_num 2 1 (month_lengths y ! nat (m - 1)) s4) (\<lambda>(d, s5).
     Option.bind (take_char (CHR ''T'') s5) (\<lambda>s6.
     Option.bind (take_num 2 0 23 s6) (\<lambda>(h, s7).
     Option.bind (take_char (CHR '':'') s7) (\<lambda>s8.
     Option.bind (take_num 2 0 59 s8) (\<lambda>(mi, s9).
     Option.bind (take_char (CHR '':'') s9) (\<lambda>s10.
     Option.bind (take_num 2 0 59 s10) (\<lambda>(se, s11).
     (let (ns, s12) = take_fraction s11 in
     Option.bind (parse_zone s12) (\<lambda>z.
       Some \<lparr>nanos = (((day_number y m d - 719528) * 86400 + h * 3600 + mi * 60 + se) - 60 * z) * second + ns,
             zone = z\<rparr>)))))))))))))"


section \<open>The round trip\<close>

lemma length_pad [simp]: "length (pad k n) = k"
  by (induction k arbitrary: n) auto

lemma pad_digits [simp]: "list_all is_digit (pad k n)"
  by (induction k arbitrary: n) (auto simp: digit_char_simps)

lemma pad_value: "0 \<le> n \<Longrightarrow> n < 10 ^ k \<Longrightarrow> digits_value (pad k n) = n"
proof (induction k arbitrary: n)
  case (Suc k)
  have "n div 10 < 10 ^ k"
    using Suc.prems by (simp add: div_less_iff_less_mult mult.commute)
  then show ?case
    using Suc by (simp add: digit_char_simps)
qed simp

lemma take_num_pad:
  "0 \<le> n \<Longrightarrow> n < 10 ^ k \<Longrightarrow> lo \<le> n \<Longrightarrow> n \<le> hi \<Longrightarrow> take_num k lo hi (pad k n @ t) = Some (n, t)"
  by (simp add: take_num_def pad_value)

lemma take_char_same [simp]: "take_char c (c # t) = Some t"
  by (simp add: take_char_def)

lemma digits_value_append:
  "digits_value (s @ t) = digits_value s * 10 ^ length t + digits_value t"
  by (induction t rule: rev_induct)
    (simp_all add: algebra_simps flip: append_assoc)

lemma digits_value_zeros: "digits_value (replicate k (CHR ''0'')) = 0"
proof (induction k)
  case (Suc k)
  have "replicate (Suc k) (CHR ''0'') = replicate k (CHR ''0'') @ ''0''"
    by (simp add: replicate_append_same)
  then show ?case
    using Suc by (simp add: byte_def del: replicate.simps)
qed simp

lemma not_digit_hd:
  "t = [] \<or> \<not> is_digit (hd t) \<Longrightarrow> list_all is_digit s \<Longrightarrow>
     takeWhile is_digit (s @ t) = s \<and> dropWhile is_digit (s @ t) = t"
  by (induction s) (cases t; auto)+

lemma take_fraction_text:
  assumes "0 \<le> ns" "ns < second" "t \<noteq> []" "\<not> is_digit (hd t)" "hd t \<noteq> CHR ''.''"
  shows "take_fraction (fraction_text ns @ t) = (ns, t)"
proof (cases "ns = 0")
  case True
  then show ?thesis
    using assms by (auto simp: fraction_text_def take_fraction_def split: list.splits)
next
  case False
  let ?p = "pad 9 ns" and ?d = "trim_right (CHR ''0'') (pad 9 ns)"
  obtain j where j: "?p = ?d @ replicate j (CHR ''0'')"
    using trim_right_decomp by blast
  have v: "digits_value ?p = ns"
    using assms by (simp add: pad_value)
  then have dv: "digits_value ?d * 10 ^ j = ns"
    using arg_cong[OF j, of digits_value] by (simp add: digits_value_append digits_value_zeros)
  have len: "length ?d + j = 9"
    using arg_cong[OF j, of length] by simp
  have dig: "list_all is_digit ?d"
    using pad_digits[of 9 ns] j by (metis list_all_append)
  have "?d \<noteq> []"
    using dv False by auto
  moreover have "takeWhile is_digit (?d @ t) = ?d" "dropWhile is_digit (?d @ t) = t"
    using not_digit_hd[of t ?d] dig assms by auto
  moreover have "9 - length ?d = j" "take 9 ?d = ?d"
    using len by simp_all
  ultimately show ?thesis
    using False dv by (simp add: fraction_text_def take_fraction_def Let_def)
qed

lemma parse_zone_text:
  assumes "\<bar>z\<bar> < 1440"
  shows "parse_zone (zone_text z) = Some z"
proof (cases "z = 0")
  case False
  have "\<bar>z\<bar> div 60 \<le> 23" "0 \<le> \<bar>z\<bar> mod 60" "\<bar>z\<bar> mod 60 < 60" "0 \<le> \<bar>z\<bar> div 60"
    "\<bar>z\<bar> div 60 * 60 + \<bar>z\<bar> mod 60 = \<bar>z\<bar>"
    using assms by auto
  then have n: "take_num 2 0 23 (pad 2 (\<bar>z\<bar> div 60) @ t) = Some (\<bar>z\<bar> div 60, t)"
    "take_num 2 0 59 (pad 2 (\<bar>z\<bar> mod 60) @ t) = Some (\<bar>z\<bar> mod 60, t)" for t
    by (auto intro!: take_num_pad)
  show ?thesis
    using False n(1)[of "CHR '':'' # pad 2 (\<bar>z\<bar> mod 60)"] n(2)[of "[]"]
    by (auto simp: parse_zone_def zone_text_def)
qed (simp add: parse_zone_def zone_text_def)

lemma zone_text_hd:
  "zone_text z \<noteq> []" "\<not> is_digit (hd (zone_text z))" "hd (zone_text z) \<noteq> CHR ''.''"
  by (auto simp: zone_text_def is_digit_def byte_def)

lemma parse_time_parts:
  assumes "0 \<le> y" "y \<le> 9999" "1 \<le> m" "m \<le> 12" "1 \<le> d" "d \<le> month_lengths y ! nat (m - 1)"
    "0 \<le> h" "h \<le> 23" "0 \<le> mi" "mi \<le> 59" "0 \<le> se" "se \<le> 59" "0 \<le> ns" "ns < second" "\<bar>z\<bar> < 1440"
  shows "parse_time (pad 4 y @ CHR ''-'' # pad 2 m @ CHR ''-'' # pad 2 d @ CHR ''T''
           # pad 2 h @ CHR '':'' # pad 2 mi @ CHR '':'' # pad 2 se @ fraction_text ns @ zone_text z)
         = Some \<lparr>nanos = (((day_number y m d - 719528) * 86400 + h * 3600 + mi * 60 + se) - 60 * z) * second + ns,
                 zone = z\<rparr>"
proof -
  have "nat (m - 1) < 12"
    using assms by simp
  then have "month_lengths y ! nat (m - 1) \<in> set (month_lengths y)"
    by (intro nth_mem) (simp add: month_lengths_def)
  then have "d \<le> 31"
    using assms(6) by (auto simp: month_lengths_def split: if_splits)
  then show ?thesis
    using assms zone_text_hd[of z]
    by (simp add: parse_time_def take_num_pad take_fraction_text parse_zone_text)
qed

lemma day_seconds:
  assumes "0 \<le> u" "u < (86400::int)"
  shows "0 \<le> u div 3600" "u div 3600 \<le> 23" "0 \<le> u div 60 mod 60" "u div 60 mod 60 \<le> 59"
    "0 \<le> u mod 60" "u mod 60 \<le> 59" "u div 3600 * 3600 + u div 60 mod 60 * 60 + u mod 60 = u"
proof -
  have q: "u div 3600 = u div 60 div 60"
    by (simp add: zdiv_zmult2_eq [symmetric])
  have sum: "a * 60 + b = c \<Longrightarrow> c * 60 + d = u \<Longrightarrow> a * 3600 + b * 60 + d = u" for a b c d
    by simp
  show "u div 3600 * 3600 + u div 60 mod 60 * 60 + u mod 60 = u"
    unfolding q by (rule sum[of _ _ "u div 60"]) (rule div_mult_mod_eq)+
  show "0 \<le> u div 3600" "u div 3600 \<le> 23"
    using assms div_le_mono2[of 3600] zdiv_mono1[of u 86399 3600] by simp_all
  show "0 \<le> u div 60 mod 60" "u div 60 mod 60 \<le> 59" "0 \<le> u mod 60" "u mod 60 \<le> 59"
    by simp_all
qed

theorem parse_time_text:
  assumes "time_text t = Some s"
  shows "parse_time s = Some t"
proof -
  define secs where "secs = nanos t div second"
  define local where "local = secs + 60 * zone t"
  define u where "u = local mod 86400"
  define day where "day = local div 86400"
  obtain y m d where c: "civil (day + 719528) = (y, m, d)"
    by (cases "civil (day + 719528)") auto
  note cc = civil_correct[OF c]
  have yz: "0 \<le> y" "y \<le> 9999" "\<bar>zone t\<bar> < 1440"
    and s: "s = pad 4 y @ CHR ''-'' # pad 2 m @ CHR ''-'' # pad 2 d @ CHR ''T''
             # pad 2 (u div 3600) @ CHR '':'' # pad 2 (u div 60 mod 60) @ CHR '':'' # pad 2 (u mod 60)
             @ fraction_text (nanos t mod second) @ zone_text (zone t)"
    using assms c unfolding time_text_def Let_def secs_def [symmetric] local_def [symmetric] u_def [symmetric] day_def [symmetric]
    by (simp_all split: if_splits)
  have r: "0 \<le> u" "u < 86400" and l: "local = day * 86400 + u"
    by (simp_all add: u_def day_def)
  note hms = day_seconds[OF r]
  define h mi se where "h = u div 3600" and "mi = u div 60 mod 60" and "se = u mod 60"
  have "(day_number y m d - 719528) * 86400 + h * 3600 + mi * 60 + se - 60 * zone t = secs"
    using hms(7) cc(5) l unfolding h_def [symmetric] mi_def [symmetric] se_def [symmetric] local_def
    by simp
  moreover have "parse_time s = Some \<lparr>nanos = (((day_number y m d - 719528) * 86400 + h * 3600 + mi * 60 + se)
      - 60 * zone t) * second + nanos t mod second, zone = zone t\<rparr>"
    unfolding s h_def mi_def se_def
    by (rule parse_time_parts[OF yz(1,2) cc(1-4) hms(1-6) _ _ yz(3)]) simp_all
  ultimately show ?thesis
    by (simp add: secs_def)
qed

end
