(* ===== verification/Protocol.thy ===== *)
theory Protocol
  imports Metadata_Bounds GoTime
begin

text \<open>
  \<open>internal/protocol/types.go\<close>: the events the hook sends to the daemon, the events the daemon
  sends to the backend, and the check \<open>HostEvent.Valid\<close> every event passes before it is uploaded.
\<close>

definition Version :: int where "Version = 1"
definition HerdrVersion :: int where "HerdrVersion = 2"

type_synonym source = string

definition SourceCodex :: source where "SourceCodex = ''codex''"
definition SourceHerdr :: source where "SourceHerdr = ''herdr''"

definition DaemonInfoRequestType :: string where "DaemonInfoRequestType = ''daemon-info''"
definition HerdrDirtyEventType :: string where "HerdrDirtyEventType = ''herdr-dirty''"

lemmas protocol_consts = Version_def HerdrVersion_def SourceCodex_def SourceHerdr_def
  DaemonInfoRequestType_def HerdrDirtyEventType_def

record hook_event =
  he_protocol_version :: int
  he_event_type :: event_type
  he_thread_id :: string
  he_turn_id :: string
  he_request_id :: string
  he_occurred_at :: gotime

record herdr_target =
  ht_session_id :: string
  ht_pane_id :: string
  ht_codex_thread_id :: string
  ht_test_installation_id :: string

record host_event =
  ev_schema_version :: int
  ev_event_type :: event_type
  ev_thread_id :: string
  ev_turn_id :: string
  ev_request_id :: string
  ev_occurred_at :: gotime
  ev_source :: source
  ev_target :: "herdr_target option"
  ev_herdr_metadata :: "herdr_metadata option"

record ipc_response =
  ir_accepted :: bool
  ir_error :: string

record daemon_info_request =
  dq_type :: string

record daemon_info_response =
  dr_version :: string
  dr_capabilities :: "string list"
  dr_queue_depth :: int
  dr_registration_state :: string
  dr_error :: string

record herdr_dirty_event =
  de_type :: string
  de_binding_key :: string
  de_pane_id :: string
  de_socket_path :: string
  de_baseline :: bool

definition event_source :: "host_event \<Rightarrow> source" where
  "event_source e = (if ev_source e = [] \<and> ev_schema_version e = Version then SourceCodex else ev_source e)"

definition herdr_target_valid :: "herdr_target \<Rightarrow> event_type \<Rightarrow> bool" where
  "herdr_target_valid t event \<longleftrightarrow>
     (if event = EventTestNotification
      then ht_pane_id t = [] \<and> ht_codex_thread_id t = [] \<and> valid_id (ht_test_installation_id t)
      else valid_id (ht_pane_id t) \<and> ht_test_installation_id t = [] \<and>
           (ht_codex_thread_id t = [] \<or> valid_id (ht_codex_thread_id t)) \<and>
           (event = EventAttentionRequired \<or> event = EventProgressUpdated))"

definition host_event_valid :: "host_event \<Rightarrow> bool" where
  "host_event_valid e \<longleftrightarrow>
     (if is_zero_time (ev_occurred_at e) \<or>
         (case ev_herdr_metadata e of None \<Rightarrow> False
          | Some m \<Rightarrow> event_source e \<noteq> SourceHerdr \<or> \<not> metadata_valid_for m (ev_event_type e))
      then False
      else if ev_schema_version e = Version then
        (ev_source e = [] \<or> ev_source e = SourceCodex) \<and> ev_target e = None \<and> event_type_valid (ev_event_type e) \<and>
        valid_id (ev_thread_id e) \<and> valid_id (ev_turn_id e) \<and> (ev_request_id e = [] \<or> valid_id (ev_request_id e))
      else if ev_schema_version e \<noteq> HerdrVersion \<or> ev_source e \<noteq> SourceHerdr \<or> ev_thread_id e \<noteq> [] \<or>
         ev_turn_id e \<noteq> [] \<or> ev_request_id e \<noteq> [] then False
      else case ev_target e of None \<Rightarrow> False
        | Some t \<Rightarrow> valid_id (ht_session_id t) \<and> herdr_target_valid t (ev_event_type e))"

section \<open>The two kinds of valid events\<close>

lemma valid_codex_shape:
  assumes "host_event_valid e" "event_source e \<noteq> SourceHerdr"
  shows "ev_schema_version e = Version \<and> event_source e = SourceCodex \<and> ev_target e = None
    \<and> ev_herdr_metadata e = None \<and> event_type_valid (ev_event_type e)
    \<and> valid_id (ev_thread_id e) \<and> valid_id (ev_turn_id e)"
  using assms
  by (auto simp: host_event_valid_def event_source_def protocol_consts split: if_splits option.splits)

lemma valid_herdr_shape:
  assumes "host_event_valid e" "event_source e = SourceHerdr"
  shows "\<exists>t. ev_schema_version e = HerdrVersion \<and> ev_target e = Some t \<and> valid_id (ht_session_id t)
    \<and> herdr_target_valid t (ev_event_type e) \<and> ev_thread_id e = [] \<and> ev_turn_id e = []
    \<and> (\<forall>m. ev_herdr_metadata e = Some m \<longrightarrow> metadata_valid_for m (ev_event_type e))"
  using assms
  by (auto simp: host_event_valid_def event_source_def protocol_consts split: if_splits option.splits)

lemma metadata_needs_herdr:
  "host_event_valid e \<Longrightarrow> ev_herdr_metadata e \<noteq> None \<Longrightarrow> event_source e = SourceHerdr"
  by (auto simp: host_event_valid_def split: if_splits)

lemma valid_event_types:
  "host_event_valid e \<Longrightarrow> ev_event_type e \<in> {EventApprovalRequired, EventTurnStopped, EventAttentionRequired,
     EventProgressUpdated, EventTestNotification}"
  by (auto simp: host_event_valid_def event_type_valid_def herdr_target_valid_def split: if_splits option.splits)

text \<open>A valid host event is of exactly one kind. A Codex event has schema version 1, no target and no
  metadata, one of the two lifecycle types and valid thread and turn identifiers; a Herdr event has
  schema version 2, a target that fits its type and no Codex identifiers.\<close>

theorem valid_event_kinds:
  assumes "host_event_valid e"
  shows "event_source e = SourceCodex \<and> ev_schema_version e = Version \<and> ev_target e = None \<and>
      ev_herdr_metadata e = None \<and> event_type_valid (ev_event_type e) \<and> valid_id (ev_thread_id e) \<and>
      valid_id (ev_turn_id e)
    \<or> event_source e = SourceHerdr \<and> ev_schema_version e = HerdrVersion \<and> ev_thread_id e = [] \<and>
      (\<exists>t. ev_target e = Some t \<and> valid_id (ht_session_id t) \<and> herdr_target_valid t (ev_event_type e))"
  using valid_codex_shape[OF assms] valid_herdr_shape[OF assms] by (cases "event_source e = SourceHerdr") auto

definition sample_stop_event :: host_event where
  "sample_stop_event = \<lparr>ev_schema_version = 1, ev_event_type = ''turn_stopped'', ev_thread_id = ''thread'',
     ev_turn_id = ''turn'', ev_request_id = [], ev_occurred_at = \<lparr>nanos = 1700000000 * second, zone = 0\<rparr>,
     ev_source = [], ev_target = None, ev_herdr_metadata = None\<rparr>"

theorem valid_event_kinds_witness:
  "host_event_valid sample_stop_event \<and> event_source sample_stop_event = SourceCodex"
proof -
  have v: "host_event_valid sample_stop_event" by code_simp
  have "event_source sample_stop_event \<noteq> SourceHerdr" by code_simp
  then show ?thesis
    using valid_event_kinds[OF v] v by blast
qed

end
