(* ===== verification/Codec.thy ===== *)
theory Codec
  imports Protocol
begin

text \<open>
  \<open>encoding/json\<close> on the structs of \<open>types.go\<close>: how a JSON value is stored into a struct (members
  matched without regard to case, unknown members skipped, \<open>null\<close> a no-op, a value of the wrong
  type reported but not fatal for the rest) and how a struct is written (\<open>omitempty\<close>). The result
  of a decoder is the value and whether every member had the right type; \<open>json.Unmarshal\<close> fails
  when one had not. \<open>host_event_roundtrip\<close> is the contract of the queue's event bodies.
\<close>

section \<open>Decoding\<close>

definition fold_rune :: "int \<Rightarrow> int" where
  "fold_rune r = (if 65 \<le> r \<and> r \<le> 90 then r + 32 else if r = 383 then 115 else if r = 8490 then 107 else r)"

definition is_field :: "string \<Rightarrow> string \<Rightarrow> bool" where
  "is_field name key \<longleftrightarrow> map fold_rune (runes key) = map fold_rune (runes name)"

fun dec_string :: "json \<Rightarrow> string \<Rightarrow> string \<times> bool" where
  "dec_string (JStr s) old = (s, True)"
| "dec_string JNull old = (old, True)"
| "dec_string _ old = (old, False)"

fun dec_bool :: "json \<Rightarrow> bool \<Rightarrow> bool \<times> bool" where
  "dec_bool (JBool b) old = (b, True)"
| "dec_bool JNull old = (old, True)"
| "dec_bool _ old = (old, False)"

fun dec_int :: "json \<Rightarrow> int \<Rightarrow> int \<times> bool" where
  "dec_int (JNum lit) old = (case parse_int64 lit of Some n \<Rightarrow> (n, True) | None \<Rightarrow> (old, False))"
| "dec_int JNull old = (old, True)"
| "dec_int _ old = (old, False)"

fun dec_time :: "json \<Rightarrow> gotime \<Rightarrow> gotime \<times> bool" where
  "dec_time (JStr s) old = (case parse_time s of Some t \<Rightarrow> (t, True) | None \<Rightarrow> (old, False))"
| "dec_time JNull old = (old, True)"
| "dec_time _ old = (old, False)"

text \<open>The members in the order of the text; a repeated member is stored again.\<close>

fun dec_members :: "(string \<Rightarrow> json \<Rightarrow> 'a \<Rightarrow> 'a \<times> bool) \<Rightarrow> (string \<times> json) list \<Rightarrow> 'a \<Rightarrow> 'a \<times> bool" where
  "dec_members f [] x = (x, True)"
| "dec_members f ((k, v) # ms) x =
     (let (y, ok) = f k v x; (z, ok') = dec_members f ms y in (z, ok \<and> ok'))"

fun dec_struct :: "(string \<Rightarrow> json \<Rightarrow> 'a \<Rightarrow> 'a \<times> bool) \<Rightarrow> json \<Rightarrow> 'a \<Rightarrow> 'a \<times> bool" where
  "dec_struct f JNull old = (old, True)"
| "dec_struct f (JObj ms) old = dec_members f ms old"
| "dec_struct f _ old = (old, False)"

text \<open>A pointer to a struct: \<open>null\<close> clears it, an object is stored into a fresh or the old struct.\<close>

definition dec_pointer :: "(json \<Rightarrow> 'a \<Rightarrow> 'a \<times> bool) \<Rightarrow> 'a \<Rightarrow> json \<Rightarrow> 'a option \<Rightarrow> 'a option \<times> bool" where
  "dec_pointer d zero j old =
     (if j = JNull then (None, True)
      else (let (x, ok) = d j (case old of Some x \<Rightarrow> x | None \<Rightarrow> zero) in (Some x, ok)))"

fun dec_string_map :: "json \<Rightarrow> string gomap \<Rightarrow> string gomap \<times> bool" where
  "dec_string_map JNull old = ([], True)"
| "dec_string_map (JObj ms) old =
     dec_members (\<lambda>k v m. let (s, ok) = dec_string v [] in (map_put k s m, ok)) ms old"
| "dec_string_map _ old = (old, False)"

definition store :: "('b \<Rightarrow> 'b \<times> bool) \<Rightarrow> ('a \<Rightarrow> 'b) \<Rightarrow> (('b \<Rightarrow> 'b) \<Rightarrow> 'a \<Rightarrow> 'a) \<Rightarrow> 'a \<Rightarrow> 'a \<times> bool" where
  "store d get upd x = (let (y, ok) = d (get x) in (upd (\<lambda>_. y) x, ok))"

definition unmarshal :: "(json \<Rightarrow> 'a \<Rightarrow> 'a \<times> bool) \<Rightarrow> string \<Rightarrow> 'a \<Rightarrow> 'a result" where
  "unmarshal d data zero =
     (case json_parse data of
        None \<Rightarrow> fail ''invalid JSON''
      | Some j \<Rightarrow> (let (x, ok) = d j zero in if ok then Inr x else fail ''cannot unmarshal''))"

section \<open>The structs of the protocol\<close>

definition zero_time :: gotime where
  "zero_time = \<lparr>nanos = -62135596800 * second, zone = 0\<rparr>"

definition zero_target :: herdr_target where
  "zero_target = \<lparr>ht_session_id = [], ht_pane_id = [], ht_codex_thread_id = [], ht_test_installation_id = []\<rparr>"

definition zero_metadata :: herdr_metadata where
  "zero_metadata = \<lparr>hm_session_name = [], hm_workspace_id = [], hm_agent_status = [], hm_agent = [],
     hm_title = [], hm_display_agent = [], hm_state_labels = []\<rparr>"

definition zero_host_event :: host_event where
  "zero_host_event = \<lparr>ev_schema_version = 0, ev_event_type = [], ev_thread_id = [], ev_turn_id = [],
     ev_request_id = [], ev_occurred_at = zero_time, ev_source = [], ev_target = None, ev_herdr_metadata = None\<rparr>"

definition zero_hook_event :: hook_event where
  "zero_hook_event = \<lparr>he_protocol_version = 0, he_event_type = [], he_thread_id = [], he_turn_id = [],
     he_request_id = [], he_occurred_at = zero_time\<rparr>"

definition zero_dirty_event :: herdr_dirty_event where
  "zero_dirty_event = \<lparr>de_type = [], de_binding_key = [], de_pane_id = [], de_socket_path = [], de_baseline = False\<rparr>"

definition target_member :: "string \<Rightarrow> json \<Rightarrow> herdr_target \<Rightarrow> herdr_target \<times> bool" where
  "target_member k v t =
     (if is_field ''sessionId'' k then store (dec_string v) ht_session_id ht_session_id_update t
      else if is_field ''paneId'' k then store (dec_string v) ht_pane_id ht_pane_id_update t
      else if is_field ''codexThreadId'' k then store (dec_string v) ht_codex_thread_id ht_codex_thread_id_update t
      else if is_field ''testInstallationId'' k
        then store (dec_string v) ht_test_installation_id ht_test_installation_id_update t
      else (t, True))"

definition metadata_member :: "string \<Rightarrow> json \<Rightarrow> herdr_metadata \<Rightarrow> herdr_metadata \<times> bool" where
  "metadata_member k v m =
     (if is_field ''sessionName'' k then store (dec_string v) hm_session_name hm_session_name_update m
      else if is_field ''workspaceId'' k then store (dec_string v) hm_workspace_id hm_workspace_id_update m
      else if is_field ''agentStatus'' k then store (dec_string v) hm_agent_status hm_agent_status_update m
      else if is_field ''agent'' k then store (dec_string v) hm_agent hm_agent_update m
      else if is_field ''title'' k then store (dec_string v) hm_title hm_title_update m
      else if is_field ''displayAgent'' k then store (dec_string v) hm_display_agent hm_display_agent_update m
      else if is_field ''stateLabels'' k then store (dec_string_map v) hm_state_labels hm_state_labels_update m
      else (m, True))"

definition host_event_member :: "string \<Rightarrow> json \<Rightarrow> host_event \<Rightarrow> host_event \<times> bool" where
  "host_event_member k v e =
     (if is_field ''schemaVersion'' k then store (dec_int v) ev_schema_version ev_schema_version_update e
      else if is_field ''eventType'' k then store (dec_string v) ev_event_type ev_event_type_update e
      else if is_field ''threadId'' k then store (dec_string v) ev_thread_id ev_thread_id_update e
      else if is_field ''turnId'' k then store (dec_string v) ev_turn_id ev_turn_id_update e
      else if is_field ''requestId'' k then store (dec_string v) ev_request_id ev_request_id_update e
      else if is_field ''occurredAt'' k then store (dec_time v) ev_occurred_at ev_occurred_at_update e
      else if is_field ''source'' k then store (dec_string v) ev_source ev_source_update e
      else if is_field ''target'' k
        then store (dec_pointer (dec_struct target_member) zero_target v) ev_target ev_target_update e
      else if is_field ''herdrMetadata'' k
        then store (dec_pointer (dec_struct metadata_member) zero_metadata v) ev_herdr_metadata ev_herdr_metadata_update e
      else (e, True))"

definition hook_event_member :: "string \<Rightarrow> json \<Rightarrow> hook_event \<Rightarrow> hook_event \<times> bool" where
  "hook_event_member k v e =
     (if is_field ''protocolVersion'' k then store (dec_int v) he_protocol_version he_protocol_version_update e
      else if is_field ''eventType'' k then store (dec_string v) he_event_type he_event_type_update e
      else if is_field ''threadId'' k then store (dec_string v) he_thread_id he_thread_id_update e
      else if is_field ''turnId'' k then store (dec_string v) he_turn_id he_turn_id_update e
      else if is_field ''requestId'' k then store (dec_string v) he_request_id he_request_id_update e
      else if is_field ''occurredAt'' k then store (dec_time v) he_occurred_at he_occurred_at_update e
      else (e, True))"

definition dirty_event_member :: "string \<Rightarrow> json \<Rightarrow> herdr_dirty_event \<Rightarrow> herdr_dirty_event \<times> bool" where
  "dirty_event_member k v e =
     (if is_field ''type'' k then store (dec_string v) de_type de_type_update e
      else if is_field ''bindingKey'' k then store (dec_string v) de_binding_key de_binding_key_update e
      else if is_field ''paneId'' k then store (dec_string v) de_pane_id de_pane_id_update e
      else if is_field ''socketPath'' k then store (dec_string v) de_socket_path de_socket_path_update e
      else if is_field ''baseline'' k then store (dec_bool v) de_baseline de_baseline_update e
      else (e, True))"

definition info_request_member :: "string \<Rightarrow> json \<Rightarrow> daemon_info_request \<Rightarrow> daemon_info_request \<times> bool" where
  "info_request_member k v e =
     (if is_field ''type'' k then store (dec_string v) dq_type dq_type_update e else (e, True))"

definition unmarshal_host_event :: "string \<Rightarrow> host_event result" where
  "unmarshal_host_event body = unmarshal (dec_struct host_event_member) body zero_host_event"

definition unmarshal_hook_event :: "string \<Rightarrow> hook_event result" where
  "unmarshal_hook_event body = unmarshal (dec_struct hook_event_member) body zero_hook_event"

definition unmarshal_dirty_event :: "string \<Rightarrow> herdr_dirty_event result" where
  "unmarshal_dirty_event body = unmarshal (dec_struct dirty_event_member) body zero_dirty_event"

definition unmarshal_info_request :: "string \<Rightarrow> daemon_info_request result" where
  "unmarshal_info_request body = unmarshal (dec_struct info_request_member) body \<lparr>dq_type = []\<rparr>"

section \<open>Encoding\<close>

definition target_json :: "herdr_target \<Rightarrow> json" where
  "target_json t = JObj
     ([(''sessionId'', JStr (ht_session_id t))] @
      opt_member ''paneId'' (ht_pane_id t) @
      opt_member ''codexThreadId'' (ht_codex_thread_id t) @
      opt_member ''testInstallationId'' (ht_test_installation_id t))"

text \<open>\<open>time.Time\<close> has no text outside the years 0 to 9999: marshalling the event fails.\<close>

definition host_event_json :: "host_event \<Rightarrow> json option" where
  "host_event_json e =
     (case time_text (ev_occurred_at e) of
        None \<Rightarrow> None
      | Some at \<Rightarrow> Some (JObj
          ([(''schemaVersion'', JNum (format_int (ev_schema_version e))),
            (''eventType'', JStr (ev_event_type e))] @
           opt_member ''threadId'' (ev_thread_id e) @
           opt_member ''turnId'' (ev_turn_id e) @
           opt_member ''requestId'' (ev_request_id e) @
           [(''occurredAt'', JStr at)] @
           opt_member ''source'' (ev_source e) @
           (case ev_target e of None \<Rightarrow> [] | Some t \<Rightarrow> [(''target'', target_json t)]) @
           (case ev_herdr_metadata e of None \<Rightarrow> [] | Some m \<Rightarrow> [(''herdrMetadata'', metadata_json m)]))))"

definition marshal_host_event :: "host_event \<Rightarrow> string result" where
  "marshal_host_event e =
     (case host_event_json e of None \<Rightarrow> fail ''Time.MarshalJSON: year outside of range [0,9999]''
      | Some j \<Rightarrow> Inr (json_print j))"

definition hook_event_json :: "hook_event \<Rightarrow> json option" where
  "hook_event_json e =
     (case time_text (he_occurred_at e) of
        None \<Rightarrow> None
      | Some at \<Rightarrow> Some (JObj
          ([(''protocolVersion'', JNum (format_int (he_protocol_version e))),
            (''eventType'', JStr (he_event_type e)),
            (''threadId'', JStr (he_thread_id e)),
            (''turnId'', JStr (he_turn_id e))] @
           opt_member ''requestId'' (he_request_id e) @
           [(''occurredAt'', JStr at)])))"

definition dirty_event_json :: "herdr_dirty_event \<Rightarrow> json" where
  "dirty_event_json e = JObj
     ([(''type'', JStr (de_type e)), (''bindingKey'', JStr (de_binding_key e)), (''paneId'', JStr (de_pane_id e))] @
      opt_member ''socketPath'' (de_socket_path e) @
      (if de_baseline e then [(''baseline'', JBool True)] else []))"

end
