(* ===== verification/Codec_Roundtrip.thy ===== *)
theory Codec_Roundtrip
  imports Codec
begin

text \<open>
  The contract of the struct codecs as a locale: what was encoded is decoded to the same value. The
  queue stores encoded host events and the daemon decodes them again before an upload, and the hook
  sends its events encoded over the socket, so both rest on it.
\<close>

locale codec =
  fixes encode :: "'a \<Rightarrow> string result" and decode :: "string \<Rightarrow> 'a result" and wf :: "'a \<Rightarrow> bool"
  assumes decode_encode: "wf x \<Longrightarrow> encode x = Inr s \<Longrightarrow> decode s = Inr x"
begin

lemma encode_inj: "wf x \<Longrightarrow> wf y \<Longrightarrow> encode x = Inr s \<Longrightarrow> encode y = Inr s \<Longrightarrow> x = y"
  using decode_encode[of x s] decode_encode[of y s] by simp

lemma encode_distinct: "wf x \<Longrightarrow> wf y \<Longrightarrow> x \<noteq> y \<Longrightarrow> encode x = Inr s \<Longrightarrow> encode y \<noteq> Inr s"
  using encode_inj by blast

end

section \<open>Members\<close>

lemma is_field_ascii: "ascii k \<Longrightarrow> ascii n \<Longrightarrow> is_field n k \<longleftrightarrow> map (fold_rune \<circ> byte) k = map (fold_rune \<circ> byte) n"
  by (simp add: is_field_def runes_ascii)

lemma is_field_same [simp]: "is_field n n"
  by (simp add: is_field_def)

lemma dec_members_append:
  "dec_members f (xs @ ys) x =
     (let (y, ok) = dec_members f xs x; (z, ok') = dec_members f ys y in (z, ok \<and> ok'))"
  by (induction f xs x rule: dec_members.induct) (auto simp: Let_def split: prod.splits)

lemma dec_opt_member:
  "dec_members f (opt_member k v) x = (if v = [] then (x, True) else f k (JStr v) x)"
  by (simp add: opt_member_def split: prod.splits)

lemma store_string [simp]: "store (dec_string (JStr s)) get upd x = (upd (\<lambda>_. s) x, True)"
  by (simp add: store_def)

lemma store_int: "parse_int64 lit = Some n \<Longrightarrow> store (dec_int (JNum lit)) get upd x = (upd (\<lambda>_. n) x, True)"
  by (simp add: store_def)

lemma store_time: "parse_time s = Some t \<Longrightarrow> store (dec_time (JStr s)) get upd x = (upd (\<lambda>_. t) x, True)"
  by (simp add: store_def)

lemmas dec_rules = dec_members_append dec_opt_member Let_def store_def

lemma target_fields:
  "target_member ''sessionId'' v t = store (dec_string v) ht_session_id ht_session_id_update t"
  "target_member ''paneId'' v t = store (dec_string v) ht_pane_id ht_pane_id_update t"
  "target_member ''codexThreadId'' v t = store (dec_string v) ht_codex_thread_id ht_codex_thread_id_update t"
  "target_member ''testInstallationId'' v t =
     store (dec_string v) ht_test_installation_id ht_test_installation_id_update t"
  by (simp_all add: target_member_def is_field_ascii ascii_def byte_def fold_rune_def)

lemma metadata_fields:
  "metadata_member ''sessionName'' v m = store (dec_string v) hm_session_name hm_session_name_update m"
  "metadata_member ''workspaceId'' v m = store (dec_string v) hm_workspace_id hm_workspace_id_update m"
  "metadata_member ''agentStatus'' v m = store (dec_string v) hm_agent_status hm_agent_status_update m"
  "metadata_member ''agent'' v m = store (dec_string v) hm_agent hm_agent_update m"
  "metadata_member ''title'' v m = store (dec_string v) hm_title hm_title_update m"
  "metadata_member ''displayAgent'' v m = store (dec_string v) hm_display_agent hm_display_agent_update m"
  "metadata_member ''stateLabels'' v m = store (dec_string_map v) hm_state_labels hm_state_labels_update m"
  by (simp_all add: metadata_member_def is_field_ascii ascii_def byte_def fold_rune_def)

lemma host_event_fields:
  "host_event_member ''schemaVersion'' v e = store (dec_int v) ev_schema_version ev_schema_version_update e"
  "host_event_member ''eventType'' v e = store (dec_string v) ev_event_type ev_event_type_update e"
  "host_event_member ''threadId'' v e = store (dec_string v) ev_thread_id ev_thread_id_update e"
  "host_event_member ''turnId'' v e = store (dec_string v) ev_turn_id ev_turn_id_update e"
  "host_event_member ''requestId'' v e = store (dec_string v) ev_request_id ev_request_id_update e"
  "host_event_member ''occurredAt'' v e = store (dec_time v) ev_occurred_at ev_occurred_at_update e"
  "host_event_member ''source'' v e = store (dec_string v) ev_source ev_source_update e"
  "host_event_member ''target'' v e =
     store (dec_pointer (dec_struct target_member) zero_target v) ev_target ev_target_update e"
  "host_event_member ''herdrMetadata'' v e =
     store (dec_pointer (dec_struct metadata_member) zero_metadata v) ev_herdr_metadata ev_herdr_metadata_update e"
  by (simp_all add: host_event_member_def is_field_ascii ascii_def byte_def fold_rune_def)

lemma hook_event_fields:
  "hook_event_member ''protocolVersion'' v e = store (dec_int v) he_protocol_version he_protocol_version_update e"
  "hook_event_member ''eventType'' v e = store (dec_string v) he_event_type he_event_type_update e"
  "hook_event_member ''threadId'' v e = store (dec_string v) he_thread_id he_thread_id_update e"
  "hook_event_member ''turnId'' v e = store (dec_string v) he_turn_id he_turn_id_update e"
  "hook_event_member ''requestId'' v e = store (dec_string v) he_request_id he_request_id_update e"
  "hook_event_member ''occurredAt'' v e = store (dec_time v) he_occurred_at he_occurred_at_update e"
  by (simp_all add: hook_event_member_def is_field_ascii ascii_def byte_def fold_rune_def)

lemma dirty_event_fields:
  "dirty_event_member ''type'' v d = store (dec_string v) de_type de_type_update d"
  "dirty_event_member ''bindingKey'' v d = store (dec_string v) de_binding_key de_binding_key_update d"
  "dirty_event_member ''paneId'' v d = store (dec_string v) de_pane_id de_pane_id_update d"
  "dirty_event_member ''socketPath'' v d = store (dec_string v) de_socket_path de_socket_path_update d"
  "dirty_event_member ''baseline'' v d = store (dec_bool v) de_baseline de_baseline_update d"
  by (simp_all add: dirty_event_member_def is_field_ascii ascii_def byte_def fold_rune_def)

section \<open>Decoding what was encoded\<close>

lemma dec_target_json [simp]: "dec_struct target_member (target_json t) zero_target = (t, True)"
  by (cases t) (simp add: target_json_def zero_target_def dec_members_append dec_opt_member target_fields
      opt_member_def Let_def)

lemma dec_labels:
  "map_ok (L0 @ L) \<Longrightarrow>
     dec_members (\<lambda>k v m. let (s, ok) = dec_string v [] in (map_put k s m, ok))
       (map (\<lambda>(k, v). (k, JStr v)) L) L0 = (L0 @ L, True)"
proof (induction L arbitrary: L0)
  case (Cons e L)
  obtain k v where e: "e = (k, v)" by fastforce
  have "map_ok (L0 @ [(k, v)])"
    using Cons.prems by (simp add: e map_ok_def sorted_wrt_append)
  then have "map_put k v L0 = L0 @ [(k, v)]"
    by (rule map_put_append)
  then show ?case
    using Cons.IH[of "L0 @ [(k, v)]"] Cons.prems by (simp add: e)
qed simp

lemma dec_metadata_json [simp]:
  "map_ok (hm_state_labels m) \<Longrightarrow> dec_struct metadata_member (metadata_json m) zero_metadata = (m, True)"
  using dec_labels[of "[]" "hm_state_labels m"]
  by (cases m) (simp add: metadata_json_def zero_metadata_def dec_members_append dec_opt_member metadata_fields
      store_def Let_def)

definition int64 :: "int \<Rightarrow> bool" where
  "int64 n \<longleftrightarrow> - (2 ^ 63) \<le> n \<and> n < 2 ^ 63"

definition metadata_wf :: "herdr_metadata \<Rightarrow> bool" where
  "metadata_wf m \<longleftrightarrow>
     list_all valid_utf8 [hm_session_name m, hm_workspace_id m, hm_agent_status m, hm_agent m, hm_title m, hm_display_agent m] \<and>
     map_ok (hm_state_labels m) \<and> list_all (\<lambda>(k, v). valid_utf8 k \<and> valid_utf8 v) (hm_state_labels m)"

definition target_wf :: "herdr_target \<Rightarrow> bool" where
  "target_wf t \<longleftrightarrow>
     list_all valid_utf8 [ht_session_id t, ht_pane_id t, ht_codex_thread_id t, ht_test_installation_id t]"

definition host_event_wf :: "host_event \<Rightarrow> bool" where
  "host_event_wf e \<longleftrightarrow> int64 (ev_schema_version e) \<and>
     list_all valid_utf8 [ev_event_type e, ev_thread_id e, ev_turn_id e, ev_request_id e, ev_source e] \<and>
     pred_option target_wf (ev_target e) \<and> pred_option metadata_wf (ev_herdr_metadata e)"

definition hook_event_wf :: "hook_event \<Rightarrow> bool" where
  "hook_event_wf e \<longleftrightarrow> int64 (he_protocol_version e) \<and>
     list_all valid_utf8 [he_event_type e, he_thread_id e, he_turn_id e, he_request_id e]"

lemma key_utf8:
  "list_all (\<lambda>c. byte c < 128) k \<Longrightarrow> valid_utf8 k"
  by (rule valid_ascii) (simp add: ascii_def)

lemma opt_member_ok: "list_all (\<lambda>(k, v). valid_utf8 k \<and> json_ok v) (opt_member k v) \<longleftrightarrow> v = [] \<or> valid_utf8 k \<and> valid_utf8 v"
  by (simp add: opt_member_def)

lemma target_json_ok: "target_wf t \<Longrightarrow> json_ok (target_json t)"
  by (simp add: target_wf_def target_json_def opt_member_ok key_utf8 byte_def)

lemma metadata_json_ok: "metadata_wf m \<Longrightarrow> json_ok (metadata_json m)"
proof -
  assume m: "metadata_wf m"
  have "list_all (\<lambda>(k, v). valid_utf8 k \<and> json_ok v) (map (\<lambda>(k, v). (k, JStr v)) L)"
    if "list_all (\<lambda>(k, v). valid_utf8 k \<and> valid_utf8 v) L" for L
    using that by (induction L) auto
  then show ?thesis
    using m by (simp add: metadata_wf_def metadata_json_def opt_member_ok key_utf8 byte_def)
qed

lemma ascii_digits: "list_all is_digit s \<Longrightarrow> ascii s"
  by (auto simp: ascii_def is_digit_def list_all_iff)

lemma ascii_append [simp]: "ascii (s @ t) \<longleftrightarrow> ascii s \<and> ascii t" "ascii (c # s) \<longleftrightarrow> byte c < 128 \<and> ascii s" "ascii []"
  by (auto simp: ascii_def)

lemma ascii_pad [simp]: "ascii (pad k n)"
  by (rule ascii_digits) simp

lemma ascii_fraction: "ascii (fraction_text n)"
proof -
  obtain j where "pad 9 n = trim_right (CHR ''0'') (pad 9 n) @ replicate j (CHR ''0'')"
    using trim_right_decomp by blast
  then have "ascii (trim_right (CHR ''0'') (pad 9 n))"
    using ascii_pad[of 9 n] by (metis ascii_append(1))
  then show ?thesis
    by (simp add: fraction_text_def byte_def)
qed

lemma time_text_utf8: "time_text t = Some s \<Longrightarrow> valid_utf8 s"
  using ascii_fraction
  by (intro valid_ascii) (auto simp: time_text_def zone_text_def Let_def byte_def split: prod.splits if_splits)

lemma host_event_json_ok: "host_event_wf e \<Longrightarrow> host_event_json e = Some j \<Longrightarrow> json_ok j"
  by (auto simp: host_event_wf_def host_event_json_def opt_member_ok key_utf8 byte_def time_text_utf8
      target_json_ok metadata_json_ok split: option.splits)

lemma dec_pointer_json [simp]:
  "dec_pointer (dec_struct target_member) zero_target (target_json t) None = (Some t, True)"
  "map_ok (hm_state_labels m) \<Longrightarrow>
     dec_pointer (dec_struct metadata_member) zero_metadata (metadata_json m) None = (Some m, True)"
proof -
  have "target_json t \<noteq> JNull" "metadata_json m \<noteq> JNull"
    by (simp_all add: target_json_def metadata_json_def)
  then show "dec_pointer (dec_struct target_member) zero_target (target_json t) None = (Some t, True)"
    "map_ok (hm_state_labels m) \<Longrightarrow>
       dec_pointer (dec_struct metadata_member) zero_metadata (metadata_json m) None = (Some m, True)"
    by (simp_all add: dec_pointer_def)
qed

text \<open>One step per member; the record that comes out is computed on the way.\<close>

lemma dec_chain:
  "dec_members f xs x = (y, True) \<Longrightarrow> dec_members f ys y = (z, True) \<Longrightarrow> dec_members f (xs @ ys) x = (z, True)"
  "f k v x = (y, True) \<Longrightarrow> dec_members f ms y = (z, True) \<Longrightarrow> dec_members f ((k, v) # ms) x = (z, True)"
  "dec_members f [] x = (x, True)"
  by (simp_all add: dec_members_append)

lemma dec_opt: "f k (JStr v) x = (y, True) \<Longrightarrow> (v = [] \<Longrightarrow> y = x) \<Longrightarrow> dec_members f (opt_member k v) x = (y, True)"
  by (auto simp: dec_opt_member)

lemma host_event_stores:
  "parse_int64 lit = Some n \<Longrightarrow> host_event_member ''schemaVersion'' (JNum lit) e = (e\<lparr>ev_schema_version := n\<rparr>, True)"
  "host_event_member ''eventType'' (JStr s) e = (e\<lparr>ev_event_type := s\<rparr>, True)"
  "host_event_member ''threadId'' (JStr s) e = (e\<lparr>ev_thread_id := s\<rparr>, True)"
  "host_event_member ''turnId'' (JStr s) e = (e\<lparr>ev_turn_id := s\<rparr>, True)"
  "host_event_member ''requestId'' (JStr s) e = (e\<lparr>ev_request_id := s\<rparr>, True)"
  "parse_time s = Some t \<Longrightarrow> host_event_member ''occurredAt'' (JStr s) e = (e\<lparr>ev_occurred_at := t\<rparr>, True)"
  "host_event_member ''source'' (JStr s) e = (e\<lparr>ev_source := s\<rparr>, True)"
  by (simp_all add: host_event_fields store_int store_time)

lemma host_event_options:
  "ev_target e0 = None \<Longrightarrow> dec_members host_event_member
     (case x of None \<Rightarrow> [] | Some t \<Rightarrow> [(''target'', target_json t)]) e0 = (e0\<lparr>ev_target := x\<rparr>, True)"
  "ev_herdr_metadata e0 = None \<Longrightarrow> pred_option (\<lambda>m. map_ok (hm_state_labels m)) y \<Longrightarrow> dec_members host_event_member
     (case y of None \<Rightarrow> [] | Some m \<Rightarrow> [(''herdrMetadata'', metadata_json m)]) e0 = (e0\<lparr>ev_herdr_metadata := y\<rparr>, True)"
  by (cases e0; cases x; simp add: host_event_fields store_def)
    (cases e0; cases y; simp add: host_event_fields store_def)

lemma dec_host_event_json:
  assumes "host_event_wf e" "host_event_json e = Some j"
  shows "dec_struct host_event_member j zero_host_event = (e, True)"
proof -
  obtain at where at: "time_text (ev_occurred_at e) = Some at"
    using assms(2) by (auto simp: host_event_json_def split: option.splits)
  have v: "parse_int64 (format_int (ev_schema_version e)) = Some (ev_schema_version e)"
    using assms(1) by (intro parse_int64_format) (simp_all add: host_event_wf_def int64_def)
  have m: "pred_option (\<lambda>m. map_ok (hm_state_labels m)) (ev_herdr_metadata e)"
    using assms(1) by (auto simp: host_event_wf_def metadata_wf_def pred_option_def)
  have j: "j = JObj
          ([(''schemaVersion'', JNum (format_int (ev_schema_version e))), (''eventType'', JStr (ev_event_type e))] @
           opt_member ''threadId'' (ev_thread_id e) @ opt_member ''turnId'' (ev_turn_id e) @
           opt_member ''requestId'' (ev_request_id e) @ [(''occurredAt'', JStr at)] @
           opt_member ''source'' (ev_source e) @
           (case ev_target e of None \<Rightarrow> [] | Some t \<Rightarrow> [(''target'', target_json t)]) @
           (case ev_herdr_metadata e of None \<Rightarrow> [] | Some m \<Rightarrow> [(''herdrMetadata'', metadata_json m)]))"
    using assms(2) at by (simp add: host_event_json_def)
  have "dec_struct host_event_member j zero_host_event =
      (zero_host_event\<lparr>ev_schema_version := ev_schema_version e, ev_event_type := ev_event_type e,
        ev_thread_id := ev_thread_id e, ev_turn_id := ev_turn_id e, ev_request_id := ev_request_id e,
        ev_occurred_at := ev_occurred_at e, ev_source := ev_source e, ev_target := ev_target e,
        ev_herdr_metadata := ev_herdr_metadata e\<rparr>, True)"
    unfolding j dec_struct.simps
    by (rule dec_chain dec_opt host_event_stores host_event_options v parse_time_text[OF at] m
        | simp add: zero_host_event_def)+
  then show ?thesis
    by (cases e) (simp add: zero_host_event_def)
qed

lemma hook_event_stores:
  "parse_int64 lit = Some n \<Longrightarrow> hook_event_member ''protocolVersion'' (JNum lit) e = (e\<lparr>he_protocol_version := n\<rparr>, True)"
  "hook_event_member ''eventType'' (JStr s) e = (e\<lparr>he_event_type := s\<rparr>, True)"
  "hook_event_member ''threadId'' (JStr s) e = (e\<lparr>he_thread_id := s\<rparr>, True)"
  "hook_event_member ''turnId'' (JStr s) e = (e\<lparr>he_turn_id := s\<rparr>, True)"
  "hook_event_member ''requestId'' (JStr s) e = (e\<lparr>he_request_id := s\<rparr>, True)"
  "parse_time s = Some t \<Longrightarrow> hook_event_member ''occurredAt'' (JStr s) e = (e\<lparr>he_occurred_at := t\<rparr>, True)"
  by (simp_all add: hook_event_fields store_int store_time)

lemma hook_event_json_ok: "hook_event_wf e \<Longrightarrow> hook_event_json e = Some j \<Longrightarrow> json_ok j"
  by (auto simp: hook_event_wf_def hook_event_json_def opt_member_ok key_utf8 byte_def time_text_utf8
      split: option.splits)

lemma dec_hook_event_json:
  assumes "hook_event_wf e" "hook_event_json e = Some j"
  shows "dec_struct hook_event_member j zero_hook_event = (e, True)"
proof -
  obtain at where at: "time_text (he_occurred_at e) = Some at"
    using assms(2) by (auto simp: hook_event_json_def split: option.splits)
  have v: "parse_int64 (format_int (he_protocol_version e)) = Some (he_protocol_version e)"
    using assms(1) by (intro parse_int64_format) (simp_all add: hook_event_wf_def int64_def)
  have j: "j = JObj
          ([(''protocolVersion'', JNum (format_int (he_protocol_version e))), (''eventType'', JStr (he_event_type e)),
            (''threadId'', JStr (he_thread_id e)), (''turnId'', JStr (he_turn_id e))] @
           opt_member ''requestId'' (he_request_id e) @ [(''occurredAt'', JStr at)])"
    using assms(2) at by (simp add: hook_event_json_def)
  have "dec_struct hook_event_member j zero_hook_event =
      (zero_hook_event\<lparr>he_protocol_version := he_protocol_version e, he_event_type := he_event_type e,
        he_thread_id := he_thread_id e, he_turn_id := he_turn_id e, he_request_id := he_request_id e,
        he_occurred_at := he_occurred_at e\<rparr>, True)"
    unfolding j dec_struct.simps
    by (rule dec_chain dec_opt hook_event_stores v parse_time_text[OF at] | simp add: zero_hook_event_def)+
  then show ?thesis
    by (cases e) (simp add: zero_hook_event_def)
qed

lemma dec_dirty_event_json: "dec_struct dirty_event_member (dirty_event_json d) zero_dirty_event = (d, True)"
  by (cases d) (simp add: dirty_event_json_def zero_dirty_event_def dec_members_append dec_opt_member
      dirty_event_fields store_def)

section \<open>The codecs of the agent\<close>

text \<open>What \<open>json.NewEncoder(connection).Encode\<close> writes: the text and a line feed.\<close>

definition encode_hook_event :: "hook_event \<Rightarrow> string result" where
  "encode_hook_event e =
     (case hook_event_json e of None \<Rightarrow> fail ''Time.MarshalJSON: year outside of range [0,9999]''
      | Some j \<Rightarrow> Inr (json_print j @ [CHR 10]))"

definition encode_dirty_event :: "herdr_dirty_event \<Rightarrow> string result" where
  "encode_dirty_event d = Inr (json_print (dirty_event_json d) @ [CHR 10])"

definition dirty_event_wf :: "herdr_dirty_event \<Rightarrow> bool" where
  "dirty_event_wf d \<longleftrightarrow> list_all valid_utf8 [de_type d, de_binding_key d, de_pane_id d, de_socket_path d]"

lemma json_parse_line: "json_ok v \<Longrightarrow> json_parse (json_print v @ [CHR 10]) = Some v"
  using parse_prefix_layout[of v "\<lambda>_. []" "'':''" "[CHR 10]" 0]
  by (simp add: json_print_def json_parse_def layout_ok_def all_ws_def skip_ws_def is_ws_def ends_value_def)

lemma dirty_event_json_ok: "dirty_event_wf d \<Longrightarrow> json_ok (dirty_event_json d)"
  by (simp add: dirty_event_wf_def dirty_event_json_def opt_member_ok key_utf8 byte_def)

interpretation host_codec: codec marshal_host_event unmarshal_host_event host_event_wf
  by unfold_locales
    (auto simp: marshal_host_event_def unmarshal_host_event_def unmarshal_def host_event_json_ok
      dec_host_event_json split: option.splits)

interpretation hook_codec: codec encode_hook_event unmarshal_hook_event hook_event_wf
  by unfold_locales
    (auto simp: encode_hook_event_def unmarshal_hook_event_def unmarshal_def hook_event_json_ok json_parse_line
      dec_hook_event_json split: option.splits)

interpretation dirty_codec: codec encode_dirty_event unmarshal_dirty_event dirty_event_wf
  by unfold_locales
    (auto simp: encode_dirty_event_def unmarshal_dirty_event_def unmarshal_def dirty_event_json_ok json_parse_line
      dec_dirty_event_json)

text \<open>C35: The body of a queued event determines the event: what \<open>json.Marshal\<close> wrote for a host event with
  valid UTF-8 strings is what \<open>json.Unmarshal\<close> reads back, target and metadata included.\<close>

theorem host_event_roundtrip:
  assumes "host_event_wf e" "marshal_host_event e = Inr body"
  shows "unmarshal_host_event body = Inr e"
  using assms by (rule host_codec.decode_encode)

definition sample_stop_body :: string where
  "sample_stop_body = (case marshal_host_event sample_stop_event of Inr s \<Rightarrow> s | Inl _ \<Rightarrow> [])"

lemma sample_stop_marshal: "marshal_host_event sample_stop_event = Inr sample_stop_body"
  by code_simp

theorem host_event_roundtrip_witness:
  "host_event_wf sample_stop_event \<and> unmarshal_host_event sample_stop_body = Inr sample_stop_event"
proof -
  have w: "host_event_wf sample_stop_event"
    by (simp add: host_event_wf_def sample_stop_event_def int64_def key_utf8 byte_def)
  show ?thesis
    using w host_event_roundtrip[OF w sample_stop_marshal] by simp
qed

text \<open>Two different hook events never produce the same line on the daemon's socket.\<close>

theorem hook_event_encoding_injective:
  assumes "hook_event_wf e" "hook_event_wf f" "encode_hook_event e = Inr line" "encode_hook_event f = Inr line"
  shows "e = f"
  using assms by (rule hook_codec.encode_inj)

definition sample_hook_event :: hook_event where
  "sample_hook_event = \<lparr>he_protocol_version = 1, he_event_type = ''turn_stopped'', he_thread_id = ''thread'',
     he_turn_id = ''turn'', he_request_id = [], he_occurred_at = \<lparr>nanos = 1700000000 * second, zone = 0\<rparr>\<rparr>"

theorem hook_event_encoding_injective_witness:
  "hook_event_wf sample_hook_event \<and> (\<exists>line. encode_hook_event sample_hook_event = Inr line \<and>
     (\<forall>f. hook_event_wf f \<and> encode_hook_event f = Inr line \<longleftrightarrow> f = sample_hook_event))"
proof -
  have w: "hook_event_wf sample_hook_event" by code_simp
  have "is_ok (encode_hook_event sample_hook_event)" by code_simp
  then obtain line where l: "encode_hook_event sample_hook_event = Inr line"
    by (auto simp: is_ok_iff)
  then show ?thesis
    using w hook_event_encoding_injective[OF w _ l] by blast
qed

end
