(* ===== verification/Queue.thy ===== *)
theory Queue
  imports Codec_Roundtrip "HOL-Library.Multiset"
begin

text \<open>
  \<open>internal/agent/queue.go\<close>: the durable queue of pending events. A table is the list of its rows
  in rowid order (a new row gets the largest rowid, so an insertion appends), and a query with
  \<open>ORDER BY\<close> is a stable sort of it; a statement is a function on the tables and a transaction the
  composition of its statements. Only the SQL of the source is modelled, not failures of the disk.
  The tables of the Herdr adapter live in the same database; their operations are in
  \<open>Herdr_Bindings\<close> and \<open>Reconcile\<close>.
\<close>

section \<open>The database\<close>

record pending_event =
  pe_event_id :: string
  pe_body :: string
  pe_attempts :: int
  pe_next_attempt_at :: int
  pe_created_at :: int
  pe_expires_at :: int
  pe_source :: string
  pe_session_id :: string
  pe_pane_id :: string
  pe_backend :: string

record herdr_binding =
  hb_binding_key :: string
  hb_session_id :: string
  hb_socket_path :: string
  hb_incarnation :: string
  hb_updated_at :: int
  hb_enabled :: bool

record herdr_pane =
  hp_binding_key :: string
  hp_pane_id :: string
  hp_terminal_id :: string
  hp_sequence :: int
  hp_status :: string
  hp_observed_at :: int

record queue =
  q_events :: "pending_event list"
  q_bindings :: "herdr_binding list"
  q_panes :: "herdr_pane list"
  q_backend :: "string option"
  q_adapter :: "bool option"
  q_last_source :: string

record queued_event =
  qe_event_id :: string
  qe_body :: string
  qe_attempts :: int
  qe_next_attempt :: int

text \<open>
  \<open>OpenQueue\<close>. A missing table is created empty, so the tables of the file are given as lists;
  \<open>columns\<close> are the columns \<open>pending_events\<close> has in the file. A column of a later release that is
  missing is added with its default in every row, and an earlier installation of the Herdr adapter is
  adopted. The in-memory source of the last dequeue starts empty.
\<close>

definition add_column :: "string list \<Rightarrow> string \<Rightarrow> (pending_event \<Rightarrow> pending_event) \<Rightarrow> pending_event list \<Rightarrow> pending_event list" where
  "add_column columns name fill rows = (if name \<in> set columns then rows else map fill rows)"

definition migrate_rows :: "string list \<Rightarrow> pending_event list \<Rightarrow> pending_event list" where
  "migrate_rows columns rows =
     add_column columns ''pane_id'' (pe_pane_id_update (\<lambda>_. []))
       (add_column columns ''session_id'' (pe_session_id_update (\<lambda>_. []))
         (add_column columns ''source'' (pe_source_update (\<lambda>_. ''codex''))
           (add_column columns ''backend'' (pe_backend_update (\<lambda>_. [])) rows)))"

definition open_queue :: "string list \<Rightarrow> queue \<Rightarrow> queue" where
  "open_queue columns q = q
     \<lparr>q_adapter := (case q_adapter q of Some b \<Rightarrow> Some b | None \<Rightarrow> Some (list_ex hb_enabled (q_bindings q))),
      q_events := migrate_rows columns (q_events q),
      q_last_source := []\<rparr>"

definition empty_queue :: queue where
  "empty_queue = \<lparr>q_events = [], q_bindings = [], q_panes = [], q_backend = None, q_adapter = None, q_last_source = []\<rparr>"

section \<open>Statements on \<open>pending_events\<close>\<close>

definition delete_expired :: "int \<Rightarrow> pending_event list \<Rightarrow> pending_event list" where
  "delete_expired now = filter (\<lambda>r. \<not> pe_expires_at r \<le> now)"

text \<open>\<open>ORDER BY created_at DESC, rowid DESC\<close>\<close>

definition newest_first :: "pending_event list \<Rightarrow> pending_event list" where
  "newest_first rows = sort_key (\<lambda>r. - pe_created_at r) (rev rows)"

definition source_rank :: "pending_event \<Rightarrow> int" where
  "source_rank r = (if pe_source r = ''codex'' then 0 else 1)"

definition delete_ids :: "string list \<Rightarrow> pending_event list \<Rightarrow> pending_event list" where
  "delete_ids ids = filter (\<lambda>r. pe_event_id r \<notin> set ids)"

definition keep_newest :: "nat \<Rightarrow> (pending_event \<Rightarrow> bool) \<Rightarrow> pending_event list \<Rightarrow> pending_event list" where
  "keep_newest n P rows = delete_ids (map pe_event_id (drop n (newest_first (filter P rows)))) rows"

definition keep_ranked :: "nat \<Rightarrow> pending_event list \<Rightarrow> pending_event list" where
  "keep_ranked n rows = delete_ids (map pe_event_id (drop n (sort_key source_rank (newest_first rows)))) rows"

definition insert_or_ignore :: "pending_event \<Rightarrow> pending_event list \<Rightarrow> pending_event list" where
  "insert_or_ignore r rows = (if pe_event_id r \<in> pe_event_id ` set rows then rows else rows @ [r])"

definition is_herdr :: "pending_event \<Rightarrow> bool" where
  "is_herdr r \<longleftrightarrow> pe_source r = ''herdr''"

section \<open>Operations\<close>

definition week :: int where "week = 7 * 24 * 3600 * second"
definition half_hour :: int where "half_hour = 30 * 60 * second"

text \<open>How \<open>enqueueEvent\<close> classes a body: source, session, pane and expiry.\<close>

definition classify :: "string \<Rightarrow> gotime \<Rightarrow> string \<times> string \<times> string \<times> gotime" where
  "classify body now =
     (case unmarshal_host_event body of
        Inl _ \<Rightarrow> (''codex'', [], [], time_add now week)
      | Inr e \<Rightarrow>
          if event_source e = SourceHerdr \<and> host_event_valid e then
            (case ev_target e of
               Some t \<Rightarrow> (''herdr'', ht_session_id t, ht_pane_id t, time_add (ev_occurred_at e) half_hour)
             | None \<Rightarrow> (''codex'', [], [], time_add now week))
          else (''codex'', [], [], time_add now week))"

definition new_row :: "string option \<Rightarrow> string \<Rightarrow> string \<Rightarrow> gotime \<Rightarrow> pending_event" where
  "new_row backend event_id body now =
     (let (source, session, pane, expires) = classify body now
      in \<lparr>pe_event_id = event_id, pe_body = body, pe_attempts = 0, pe_next_attempt_at = unix now,
          pe_created_at = unix now, pe_expires_at = unix expires, pe_source = source, pe_session_id = session,
          pe_pane_id = pane, pe_backend = (case backend of Some b \<Rightarrow> b | None \<Rightarrow> [])\<rparr>)"

definition trim_queue :: "string \<Rightarrow> int \<Rightarrow> pending_event list \<Rightarrow> pending_event list" where
  "trim_queue session now rows =
     keep_ranked 500
       (keep_newest 200 is_herdr
         (keep_newest 50 (\<lambda>r. is_herdr r \<and> pe_session_id r = session)
           (delete_expired now rows)))"

definition enqueue_event :: "string \<Rightarrow> string \<Rightarrow> gotime \<Rightarrow> queue \<Rightarrow> queue" where
  "enqueue_event event_id body now q =
     (let row = new_row (q_backend q) event_id body now
      in q\<lparr>q_events := trim_queue (pe_session_id row) (unix now) (insert_or_ignore row (q_events q))\<rparr>)"

text \<open>
  \<open>ConfigureBackend\<close>. The URL package is a parameter: \<open>norm_ep\<close> is \<open>parseNotificationEndpoint\<close>
  followed by \<open>String\<close>.
\<close>

definition configure_backend :: "(string \<Rightarrow> string result) \<Rightarrow> string \<Rightarrow> queue \<Rightarrow> queue result" where
  "configure_backend norm_ep endpoint q =
     (case norm_ep endpoint of
        Inl e \<Rightarrow> Inl e
      | Inr text \<Rightarrow>
          (let ep = trim_right (CHR ''/'') text
           in Inr (q\<lparr>q_events := map (\<lambda>r. if pe_backend r = []
                       then r\<lparr>pe_backend := (case q_backend q of Some b \<Rightarrow> b | None \<Rightarrow> ep)\<rparr> else r) (q_events q),
                     q_backend := Some ep\<rparr>)))"

definition due :: "int \<Rightarrow> string \<Rightarrow> pending_event \<Rightarrow> bool" where
  "due now backend r \<longleftrightarrow>
     pe_next_attempt_at r \<le> now \<and> now < pe_expires_at r \<and> (backend = [] \<or> pe_backend r = backend)"

definition dequeue_order :: "string \<Rightarrow> pending_event list \<Rightarrow> pending_event list" where
  "dequeue_order prev rows = sort_key (\<lambda>r. if pe_source r = prev then 1 else 0 :: int) (sort_key pe_created_at rows)"

definition next_event :: "gotime \<Rightarrow> string \<Rightarrow> queue \<Rightarrow> queued_event result \<times> queue" where
  "next_event now backend q =
     (let rows = delete_expired (unix now) (q_events q); q' = q\<lparr>q_events := rows\<rparr>
      in case dequeue_order (q_last_source q) (filter (due (unix now) backend) rows) of
           [] \<Rightarrow> (Inl ErrNoRows, q')
         | r # _ \<Rightarrow>
             (Inr \<lparr>qe_event_id = pe_event_id r, qe_body = pe_body r, qe_attempts = pe_attempts r,
                   qe_next_attempt = pe_next_attempt_at r\<rparr>,
              q'\<lparr>q_last_source := pe_source r\<rparr>))"

definition next_for_backend :: "gotime \<Rightarrow> string \<Rightarrow> queue \<Rightarrow> queued_event result \<times> queue" where
  "next_for_backend now backend q = next_event now (trim_right (CHR ''/'') backend) q"

definition complete :: "string \<Rightarrow> queue \<Rightarrow> queue" where
  "complete event_id q = q\<lparr>q_events := filter (\<lambda>r. pe_event_id r \<noteq> event_id) (q_events q)\<rparr>"

definition retry :: "string \<Rightarrow> int \<Rightarrow> gotime \<Rightarrow> queue \<Rightarrow> queue" where
  "retry event_id attempts at q =
     q\<lparr>q_events := map (\<lambda>r. if pe_event_id r = event_id
         then r\<lparr>pe_attempts := attempts, pe_next_attempt_at := unix at\<rparr> else r) (q_events q)\<rparr>"

definition depth :: "queue \<Rightarrow> nat" where
  "depth q = length (q_events q)"

definition set_herdr_capture_enabled :: "bool \<Rightarrow> queue \<Rightarrow> queue" where
  "set_herdr_capture_enabled enabled q =
     (let q1 = q\<lparr>q_adapter := map_option (\<lambda>_. enabled) (q_adapter q)\<rparr>
      in if enabled then q1
         else q1\<lparr>q_bindings := map (\<lambda>b. b\<lparr>hb_enabled := False\<rparr>) (q_bindings q1),
                 q_events := filter (\<lambda>r. \<not> is_herdr r) (q_events q1), q_panes := []\<rparr>)"

definition clear_notification_capture :: "queue \<Rightarrow> queue" where
  "clear_notification_capture q = (set_herdr_capture_enabled False q)\<lparr>q_events := []\<rparr>"

section \<open>The invariant\<close>

definition herdr_count :: "string \<Rightarrow> pending_event list \<Rightarrow> nat" where
  "herdr_count session rows = length (filter (\<lambda>r. is_herdr r \<and> pe_session_id r = session) rows)"

definition events_ok :: "pending_event list \<Rightarrow> bool" where
  "events_ok rows \<longleftrightarrow> distinct (map pe_event_id rows) \<and> list_all (\<lambda>r. pe_source r = ''codex'' \<or> pe_source r = ''herdr'') rows \<and>
     length rows \<le> 500 \<and> length (filter is_herdr rows) \<le> 200 \<and> (\<forall>s. herdr_count s rows \<le> 50)"

lemma events_ok_code [code]:
  "events_ok rows \<longleftrightarrow> distinct (map pe_event_id rows) \<and> list_all (\<lambda>r. pe_source r = ''codex'' \<or> pe_source r = ''herdr'') rows \<and>
     length rows \<le> 500 \<and> length (filter is_herdr rows) \<le> 200 \<and>
     list_all (\<lambda>r. herdr_count (pe_session_id r) rows \<le> 50) rows"
proof -
  have "herdr_count s rows \<le> 50" if "\<forall>r \<in> set rows. herdr_count (pe_session_id r) rows \<le> 50" for s
  proof (cases "\<exists>r \<in> set rows. pe_session_id r = s")
    case False
    then have "filter (\<lambda>r. is_herdr r \<and> pe_session_id r = s) rows = []"
      by (auto simp: filter_empty_conv)
    then show ?thesis by (simp add: herdr_count_def)
  qed (use that in auto)
  then show ?thesis
    by (auto simp: events_ok_def list_all_iff)
qed

lemma newest_first_set [simp]: "set (newest_first rows) = set rows" "length (newest_first rows) = length rows"
  by (simp_all add: newest_first_def)

lemma newest_first_distinct [simp]: "distinct (map pe_event_id (newest_first rows)) = distinct (map pe_event_id rows)"
  by (metis distinct_map distinct_sort newest_first_def newest_first_set(1) distinct_rev)

lemma delete_ids_set: "set (delete_ids ids rows) \<subseteq> set rows"
  by (auto simp: delete_ids_def)

lemma id_unique: "distinct (map f rows) \<Longrightarrow> r \<in> set rows \<Longrightarrow> s \<in> set rows \<Longrightarrow> f r = f s \<Longrightarrow> r = s"
  by (auto simp: distinct_map inj_on_def)

text \<open>What is left after dropping all but the first \<open>n\<close> of an ordering of the rows that satisfy \<open>P\<close>.\<close>

lemma delete_rest_length:
  assumes d: "distinct (map pe_event_id rows)" and s: "set ord = set (filter P rows)" "distinct (map pe_event_id ord)"
  shows "length (filter P (delete_ids (map pe_event_id (drop n ord)) rows)) \<le> n"
proof -
  let ?k = "filter P (delete_ids (map pe_event_id (drop n ord)) rows)"
  have "set ?k \<subseteq> set (take n ord)"
  proof
    fix r assume "r \<in> set ?k"
    then have r: "r \<in> set ord" "pe_event_id r \<notin> pe_event_id ` set (drop n ord)"
      using s by (auto simp: delete_ids_def)
    then show "r \<in> set (take n ord)"
      by (metis append_take_drop_id image_eqI in_set_conv_decomp set_append Un_iff)
  qed
  then have "card (set ?k) \<le> card (set (take n ord))"
    by (rule card_mono[rotated]) simp
  also have "\<dots> \<le> n"
    by (metis card_length le_trans length_take min.cobounded2)
  finally have "card (set ?k) \<le> n" .
  moreover have "distinct ?k"
    using d by (simp add: delete_ids_def distinct_map)
  ultimately show ?thesis
    by (metis distinct_card)
qed

lemma delete_rest_keeps:
  assumes "distinct (map pe_event_id rows)" "r \<in> set rows" "set ord \<subseteq> set rows" "r \<notin> set (drop n ord)"
  shows "r \<in> set (delete_ids (map pe_event_id (drop n ord)) rows)"
proof -
  have "pe_event_id r \<notin> pe_event_id ` set (drop n ord)"
  proof
    assume "pe_event_id r \<in> pe_event_id ` set (drop n ord)"
    then obtain x where x: "x \<in> set (drop n ord)" "pe_event_id r = pe_event_id x"
      by blast
    then have "r = x"
      using assms(1-3) by (intro id_unique[OF assms(1)]) (auto dest: in_set_dropD)
    then show False
      using assms(4) x by simp
  qed
  then show ?thesis
    using assms(2) by (simp add: delete_ids_def)
qed

lemma keep_newest_set: "set (keep_newest n P rows) \<subseteq> set rows"
  by (simp add: keep_newest_def delete_ids_set)

lemma keep_ranked_set: "set (keep_ranked n rows) \<subseteq> set rows"
  by (simp add: keep_ranked_def delete_ids_set)

lemma delete_expired_set: "set (delete_expired now rows) \<subseteq> set rows"
  by (auto simp: delete_expired_def)

text \<open>Each statement only filters rows, so every bound on a filtered length is kept.\<close>

lemma filter_filter_le: "length (filter P (filter Q rows)) \<le> length (filter P rows)"
  by (induction rows) auto

lemma keep_newest_mono: "length (filter Q (keep_newest n P rows)) \<le> length (filter Q rows)"
  by (simp only: keep_newest_def delete_ids_def filter_filter_le)

lemma keep_ranked_mono: "length (filter Q (keep_ranked n rows)) \<le> length (filter Q rows)"
  by (simp only: keep_ranked_def delete_ids_def filter_filter_le)

lemma delete_expired_mono: "length (filter Q (delete_expired now rows)) \<le> length (filter Q rows)"
  by (simp only: delete_expired_def filter_filter_le)

lemma statements_distinct [simp]:
  assumes "distinct (map pe_event_id rows)"
  shows "distinct (map pe_event_id (delete_ids ids rows))" "distinct (map pe_event_id (delete_expired now rows))"
    "distinct (map pe_event_id (keep_newest n P rows))" "distinct (map pe_event_id (keep_ranked n rows))"
  using assms by (simp_all add: delete_ids_def delete_expired_def keep_newest_def keep_ranked_def distinct_map_filter)

lemma keep_newest_bound:
  assumes "distinct (map pe_event_id rows)"
  shows "length (filter P (keep_newest n P rows)) \<le> n"
  unfolding keep_newest_def
  by (rule delete_rest_length) (use assms in \<open>simp_all add: distinct_map_filter\<close>)

lemma distinct_map_sort_key: "distinct (map f (sort_key g xs)) = distinct (map f xs)"
  by (metis distinct_map distinct_sort set_sort)

lemma keep_ranked_bound:
  assumes "distinct (map pe_event_id rows)"
  shows "length (keep_ranked n rows) \<le> n"
  using delete_rest_length[OF assms, of "sort_key source_rank (newest_first rows)" "\<lambda>_. True" n] assms
  by (simp add: keep_ranked_def distinct_map_sort_key)

lemma insert_distinct: "distinct (map pe_event_id rows) \<Longrightarrow> distinct (map pe_event_id (insert_or_ignore r rows))"
  by (auto simp: insert_or_ignore_def)

lemma trim_queue_ok:
  assumes d: "distinct (map pe_event_id rows)"
    and src: "list_all (\<lambda>r. pe_source r = ''codex'' \<or> pe_source r = ''herdr'') rows"
    and other: "\<And>s. s \<noteq> session \<Longrightarrow> herdr_count s rows \<le> 50"
  shows "events_ok (trim_queue session now rows)"
proof -
  let ?r1 = "delete_expired now rows"
  let ?r2 = "keep_newest 50 (\<lambda>r. is_herdr r \<and> pe_session_id r = session) ?r1"
  let ?r3 = "keep_newest 200 is_herdr ?r2"
  let ?r4 = "keep_ranked 500 ?r3"
  have d3: "distinct (map pe_event_id ?r3)" and d4: "distinct (map pe_event_id ?r4)"
    using d by simp_all
  have "set ?r4 \<subseteq> set rows"
    using keep_ranked_set keep_newest_set delete_expired_set by blast
  then have "list_all (\<lambda>r. pe_source r = ''codex'' \<or> pe_source r = ''herdr'') ?r4"
    using src by (auto simp: list_all_iff)
  moreover have "length ?r4 \<le> 500"
    by (rule keep_ranked_bound[OF d3])
  moreover have "length (filter is_herdr ?r4) \<le> 200"
    using keep_ranked_mono keep_newest_bound d by (meson le_trans statements_distinct)
  moreover have "herdr_count s ?r4 \<le> 50" for s
  proof (cases "s = session")
    case True
    have "herdr_count session ?r4 \<le> herdr_count session ?r2"
      unfolding herdr_count_def by (meson keep_ranked_mono keep_newest_mono le_trans)
    also have "\<dots> \<le> 50"
      unfolding herdr_count_def using d by (intro keep_newest_bound) simp
    finally show ?thesis by (simp add: True)
  next
    case False
    have "herdr_count s ?r4 \<le> herdr_count s rows"
      unfolding herdr_count_def by (meson keep_ranked_mono keep_newest_mono delete_expired_mono le_trans)
    then show ?thesis
      using other[OF False] by linarith
  qed
  ultimately show ?thesis
    using d4 by (simp add: events_ok_def trim_queue_def)
qed

lemma classify_source: "classify body now = (src, s, p, x) \<Longrightarrow> src = ''codex'' \<or> src = ''herdr''"
  by (auto simp: classify_def split: sum.splits if_splits option.splits)

lemma classify_codex_session: "classify body now = (src, s, p, x) \<Longrightarrow> src \<noteq> ''herdr'' \<Longrightarrow> s = [] \<and> p = []"
  by (auto simp: classify_def split: sum.splits if_splits option.splits)

lemma new_row_source: "pe_source (new_row b i body now) = ''codex'' \<or> pe_source (new_row b i body now) = ''herdr''"
  by (auto simp: new_row_def Let_def split: prod.splits dest: classify_source)

lemma herdr_count_insert:
  "s \<noteq> pe_session_id r \<Longrightarrow> herdr_count s (insert_or_ignore r rows) = herdr_count s rows"
  by (auto simp: herdr_count_def insert_or_ignore_def)

lemma enqueue_ok:
  assumes "events_ok (q_events q)"
  shows "events_ok (q_events (enqueue_event event_id body now q))"
proof -
  let ?r = "new_row (q_backend q) event_id body now"
  have "events_ok (trim_queue (pe_session_id ?r) (unix now) (insert_or_ignore ?r (q_events q)))"
  proof (rule trim_queue_ok)
    show "distinct (map pe_event_id (insert_or_ignore ?r (q_events q)))"
      using assms by (intro insert_distinct) (simp add: events_ok_def)
    show "list_all (\<lambda>r. pe_source r = ''codex'' \<or> pe_source r = ''herdr'') (insert_or_ignore ?r (q_events q))"
      using assms new_row_source by (simp add: events_ok_def insert_or_ignore_def)
    show "herdr_count s (insert_or_ignore ?r (q_events q)) \<le> 50" if "s \<noteq> pe_session_id ?r" for s
      using assms herdr_count_insert[OF that] by (simp add: events_ok_def)
  qed
  then show ?thesis
    by (simp add: enqueue_event_def Let_def)
qed

text \<open>A row outside \<open>P\<close> is never deleted by a cap on \<open>P\<close>.\<close>

lemma keep_newest_filter:
  assumes "distinct (map pe_event_id rows)" "\<And>r. Q r \<Longrightarrow> \<not> P r"
  shows "filter Q (keep_newest n P rows) = filter Q rows"
proof -
  have "pe_event_id r \<notin> pe_event_id ` set (drop n (newest_first (filter P rows)))" if "r \<in> set rows" "Q r" for r
  proof
    assume "pe_event_id r \<in> pe_event_id ` set (drop n (newest_first (filter P rows)))"
    then obtain x where "x \<in> set (newest_first (filter P rows))" "pe_event_id r = pe_event_id x"
      using in_set_dropD by fastforce
    then have "r = x" "P x"
      using id_unique[OF assms(1) that(1)] by simp_all
    then show False
      using assms(2) that(2) by blast
  qed
  then show ?thesis
    by (auto simp: keep_newest_def delete_ids_def intro!: filter_cong)
qed

lemma sorted_drop_rank:
  fixes f :: "'a \<Rightarrow> int"
  shows "sorted (map f xs) \<Longrightarrow> length (filter (\<lambda>x. f x \<le> c) xs) \<le> n \<Longrightarrow> r \<in> set (drop n xs) \<Longrightarrow> c < f r"
proof (induction xs arbitrary: n)
  case (Cons x xs)
  show ?case
  proof (cases n)
    case 0
    then show ?thesis
      using Cons.prems by (auto simp: filter_empty_conv split: if_splits)
  next
    case (Suc m)
    show ?thesis
    proof (cases "f x \<le> c")
      case True
      then show ?thesis using Cons Suc by auto
    next
      case False
      moreover have "f x \<le> f r"
        using Cons.prems Suc by (auto dest: in_set_dropD)
      ultimately show ?thesis by linarith
    qed
  qed
qed simp

lemma keep_ranked_filter:
  assumes d: "distinct (map pe_event_id rows)" and n: "length (filter (\<lambda>r. pe_source r = ''codex'') rows) \<le> n"
  shows "filter (\<lambda>r. pe_source r = ''codex'') (keep_ranked n rows) = filter (\<lambda>r. pe_source r = ''codex'') rows"
proof -
  let ?ord = "sort_key source_rank (newest_first rows)"
  have perm: "mset ?ord = mset rows"
    by (simp add: newest_first_def)
  have "length (filter (\<lambda>r. source_rank r \<le> 0) ?ord) = length (filter (\<lambda>r. source_rank r \<le> 0) rows)"
    using perm by (metis mset_filter size_mset)
  also have "\<dots> \<le> n"
    using n by (simp add: source_rank_def cong: filter_cong)
  finally have late: "0 < source_rank r" if "r \<in> set (drop n ?ord)" for r
    using that by (intro sorted_drop_rank[of source_rank ?ord 0 n r]) simp_all
  have "r \<in> set (delete_ids (map pe_event_id (drop n ?ord)) rows)" if "r \<in> set rows" "pe_source r = ''codex''" for r
    using d that(1) late[of r] that(2) by (intro delete_rest_keeps) (auto simp: source_rank_def)
  then have "pe_event_id r \<notin> pe_event_id ` set (drop n ?ord)" if "r \<in> set rows" "pe_source r = ''codex''" for r
    using that by (auto simp: delete_ids_def)
  then show ?thesis
    by (auto simp: keep_ranked_def delete_ids_def intro!: filter_cong)
qed

lemma trim_keeps_codex:
  assumes d: "distinct (map pe_event_id rows)" and n: "length (filter (\<lambda>r. pe_source r = ''codex'') rows) \<le> 500"
  shows "filter (\<lambda>r. pe_source r = ''codex'') (trim_queue session now rows)
       = filter (\<lambda>r. pe_source r = ''codex'') (delete_expired now rows)"
proof -
  let ?c = "\<lambda>r. pe_source r = ''codex''"
  let ?r1 = "delete_expired now rows"
  let ?r2 = "keep_newest 50 (\<lambda>r. is_herdr r \<and> pe_session_id r = session) ?r1"
  let ?r3 = "keep_newest 200 is_herdr ?r2"
  have "filter ?c ?r2 = filter ?c ?r1"
    using d by (intro keep_newest_filter) (auto simp: is_herdr_def)
  moreover have "filter ?c ?r3 = filter ?c ?r2"
    using d by (intro keep_newest_filter) (auto simp: is_herdr_def)
  moreover have "length (filter ?c ?r3) \<le> 500"
    using calculation delete_expired_mono[of ?c now rows] n by simp
  ultimately show ?thesis
    unfolding trim_queue_def using d keep_ranked_filter[of ?r3 500] by simp
qed

lemma enqueue_herdr_keeps_codex:
  assumes "events_ok (q_events q)" "pe_source (new_row (q_backend q) event_id body now) = ''herdr''"
  shows "filter (\<lambda>r. pe_source r = ''codex'') (q_events (enqueue_event event_id body now q))
       = filter (\<lambda>r. pe_source r = ''codex'') (delete_expired (unix now) (q_events q))"
proof -
  let ?r = "new_row (q_backend q) event_id body now"
  let ?c = "\<lambda>r. pe_source r = ''codex''"
  have ins: "filter ?c (insert_or_ignore ?r (q_events q)) = filter ?c (q_events q)"
    using assms(2) by (simp add: insert_or_ignore_def)
  have "length (filter ?c (q_events q)) \<le> 500"
    using assms(1) unfolding events_ok_def by (meson le_trans length_filter_le)
  then have "filter ?c (trim_queue (pe_session_id ?r) (unix now) (insert_or_ignore ?r (q_events q)))
      = filter ?c (delete_expired (unix now) (insert_or_ignore ?r (q_events q)))"
    using assms(1) ins by (intro trim_keeps_codex insert_distinct) (simp_all add: events_ok_def)
  also have "\<dots> = filter ?c (delete_expired (unix now) (q_events q))"
    using assms(2) by (simp add: insert_or_ignore_def delete_expired_def)
  finally show ?thesis
    by (simp add: enqueue_event_def Let_def)
qed

text \<open>An identifier that is queued already is not stored twice, and a new one is appended.\<close>

lemma enqueue_duplicate:
  "event_id \<in> pe_event_id ` set (q_events q) \<Longrightarrow>
     q_events (enqueue_event event_id body now q) =
       trim_queue (pe_session_id (new_row (q_backend q) event_id body now)) (unix now) (q_events q)"
  by (simp add: enqueue_event_def insert_or_ignore_def new_row_def Let_def split: prod.splits)

lemma new_row_id [simp]: "pe_event_id (new_row b i body now) = i" "pe_body (new_row b i body now) = body"
  "pe_attempts (new_row b i body now) = 0"
  by (simp_all add: new_row_def Let_def split: prod.splits)

section \<open>Dequeueing\<close>

lemma dequeue_order_set [simp]: "set (dequeue_order s rows) = set rows"
  by (simp add: dequeue_order_def)

lemma sort_key_head: "sort_key f xs = x # ys \<Longrightarrow> y \<in> set xs \<Longrightarrow> f x \<le> f y"
  by (metis list.set_intros(1) list.simps(9) set_ConsD set_sort sorted_sort_key sorted_simps(2) image_eqI
      list.set_map order_refl)

lemma dequeue_order_head:
  assumes "dequeue_order s rows = r # rest"
  shows "r \<in> set rows"
    "x \<in> set rows \<Longrightarrow> pe_source x \<noteq> s \<Longrightarrow> pe_source r \<noteq> s"
    "x \<in> set rows \<Longrightarrow> (pe_source x = s \<longleftrightarrow> pe_source r = s) \<Longrightarrow> pe_created_at r \<le> pe_created_at x"
proof -
  let ?f = "\<lambda>r. if pe_source r = s then 1 else 0 :: int"
  let ?o = "sort_key pe_created_at rows"
  show "r \<in> set rows"
    using assms dequeue_order_set[of s rows] by (metis list.set_intros(1))
  have f: "sort_key ?f ?o = r # rest"
    using assms by (simp add: dequeue_order_def)
  show "pe_source r \<noteq> s" if "x \<in> set rows" "pe_source x \<noteq> s"
    using sort_key_head[OF f, of x] that by (auto split: if_splits)
  show "pe_created_at r \<le> pe_created_at x" if "x \<in> set rows" "pe_source x = s \<longleftrightarrow> pe_source r = s"
  proof -
    let ?s = "filter (\<lambda>y. ?f y = ?f r)"
    have ys: "?s ?o = r # ?s rest"
      using sort_key_stable[of ?f "?f r" ?o] unfolding f by simp
    have "sorted (map pe_created_at (filter (\<lambda>y. ?f y = ?f r) ?o))"
      by (rule sorted_filter) simp
    moreover have "x \<in> set (filter (\<lambda>y. ?f y = ?f r) ?o)"
      using that by auto
    ultimately show ?thesis
      unfolding ys by auto
  qed
qed

lemma next_event_some:
  assumes "next_event now backend q = (Inr e, q')"
  shows "\<exists>r \<in> set (q_events q).
      qe_event_id e = pe_event_id r \<and> qe_body e = pe_body r \<and> qe_attempts e = pe_attempts r
      \<and> due (unix now) backend r \<and> q_last_source q' = pe_source r
      \<and> (\<forall>x \<in> set (q_events q). due (unix now) backend x \<longrightarrow>
            (pe_source x \<noteq> q_last_source q \<longrightarrow> pe_source r \<noteq> q_last_source q) \<and>
            ((pe_source x = q_last_source q \<longleftrightarrow> pe_source r = q_last_source q) \<longrightarrow> pe_created_at r \<le> pe_created_at x))"
    "q_events q' = delete_expired (unix now) (q_events q)"
proof -
  let ?rows = "filter (due (unix now) backend) (delete_expired (unix now) (q_events q))"
  obtain r rest where r: "dequeue_order (q_last_source q) ?rows = r # rest"
    using assms by (auto simp: next_event_def Let_def split: list.splits)
  then have e: "qe_event_id e = pe_event_id r" "qe_body e = pe_body r" "qe_attempts e = pe_attempts r"
      "q_last_source q' = pe_source r" "q_events q' = delete_expired (unix now) (q_events q)"
    using assms by (auto simp: next_event_def Let_def)
  have live: "x \<in> set ?rows" if "x \<in> set (q_events q)" "due (unix now) backend x" for x
    using that by (auto simp: delete_expired_def due_def)
  show "q_events q' = delete_expired (unix now) (q_events q)" by (rule e(5))
  have m: "r \<in> set (q_events q)" "due (unix now) backend r"
    using dequeue_order_head(1)[OF r] by (auto simp: delete_expired_def)
  show "\<exists>r \<in> set (q_events q).
      qe_event_id e = pe_event_id r \<and> qe_body e = pe_body r \<and> qe_attempts e = pe_attempts r
      \<and> due (unix now) backend r \<and> q_last_source q' = pe_source r
      \<and> (\<forall>x \<in> set (q_events q). due (unix now) backend x \<longrightarrow>
            (pe_source x \<noteq> q_last_source q \<longrightarrow> pe_source r \<noteq> q_last_source q) \<and>
            ((pe_source x = q_last_source q \<longleftrightarrow> pe_source r = q_last_source q) \<longrightarrow> pe_created_at r \<le> pe_created_at x))"
    using m e(1-4) dequeue_order_head(2,3)[OF r live] by blast
qed

lemma next_event_none:
  assumes "next_event now backend q = (Inl err, q')"
  shows "err = ErrNoRows" "\<not> (\<exists>r \<in> set (q_events q). due (unix now) backend r)"
    "q_events q' = delete_expired (unix now) (q_events q)"
proof -
  let ?rows = "filter (due (unix now) backend) (delete_expired (unix now) (q_events q))"
  have n: "dequeue_order (q_last_source q) ?rows = []" and rest: "err = ErrNoRows"
      "q_events q' = delete_expired (unix now) (q_events q)"
    using assms by (auto simp: next_event_def Let_def split: list.splits)
  have "set ?rows = {}"
    using arg_cong[OF n, of set] by simp
  then show "\<not> (\<exists>r \<in> set (q_events q). due (unix now) backend r)"
    by (auto simp: delete_expired_def due_def)
qed (use assms in \<open>auto simp: next_event_def Let_def split: list.splits\<close>)

lemma next_event_others: "next_event now backend q = (res, q') \<Longrightarrow>
    q_bindings q' = q_bindings q \<and> q_panes q' = q_panes q \<and> q_backend q' = q_backend q \<and> q_adapter q' = q_adapter q"
  by (auto simp: next_event_def Let_def split: list.splits)

section \<open>Every operation keeps the invariant\<close>

lemma events_ok_filter: "events_ok rows \<Longrightarrow> events_ok (filter P rows)"
proof -
  assume ok: "events_ok rows"
  have "length (filter Q (filter P rows)) \<le> n" if "length (filter Q rows) \<le> n" for Q n
    using that filter_filter_le[of Q P rows] by linarith
  moreover have "length (filter P rows) \<le> 500"
    using ok unfolding events_ok_def by (meson le_trans length_filter_le)
  ultimately show ?thesis
    using ok by (auto simp: events_ok_def herdr_count_def distinct_map_filter list_all_iff)
qed

lemma events_ok_map:
  assumes "events_ok rows" "\<And>r. pe_event_id (f r) = pe_event_id r" "\<And>r. pe_source (f r) = pe_source r"
    "\<And>r. pe_session_id (f r) = pe_session_id r"
  shows "events_ok (map f rows)"
proof -
  have "is_herdr (f r) = is_herdr r" for r
    using assms by (simp add: is_herdr_def)
  then show ?thesis
    using assms by (simp add: events_ok_def herdr_count_def comp_def list_all_length filter_map)
qed

lemma next_event_ok: "events_ok (q_events q) \<Longrightarrow> events_ok (q_events (snd (next_event now backend q)))"
  by (auto simp: next_event_def Let_def delete_expired_def events_ok_filter split: list.splits)

lemma complete_ok: "events_ok (q_events q) \<Longrightarrow> events_ok (q_events (complete i q))"
  by (simp add: complete_def events_ok_filter)

lemma retry_ok: "events_ok (q_events q) \<Longrightarrow> events_ok (q_events (retry i n t q))"
  by (auto simp: retry_def intro!: events_ok_map)

lemma configure_backend_ok:
  "events_ok (q_events q) \<Longrightarrow> configure_backend f e q = Inr q' \<Longrightarrow> events_ok (q_events q')"
  by (auto simp: configure_backend_def Let_def split: sum.splits intro!: events_ok_map)

lemma set_capture_ok: "events_ok (q_events q) \<Longrightarrow> events_ok (q_events (set_herdr_capture_enabled b q))"
  by (auto simp: set_herdr_capture_enabled_def Let_def intro!: events_ok_filter)

lemma clear_ok: "events_ok (q_events (clear_notification_capture q))"
  by (simp add: clear_notification_capture_def events_ok_def herdr_count_def)

section \<open>The store the upload worker relies on\<close>

text \<open>
  The daemon's upload worker only knows these laws: the store hands out an identifier it holds,
  forgets an identifier exactly when it is told to, and postponing an event does not lose it.
\<close>

lemma distinct_filter_neq: "distinct xs \<Longrightarrow> x \<in> set xs \<Longrightarrow> length (filter (\<lambda>y. y \<noteq> x) xs) + 1 = length xs"
  by (induction xs) (auto intro!: arg_cong[of _ _ length] filter_True)

locale event_store =
  fixes inv :: "'q \<Rightarrow> bool"
    and ids :: "'q \<Rightarrow> string list"
    and hand_out :: "gotime \<Rightarrow> string \<Rightarrow> 'q \<Rightarrow> queued_event result \<times> 'q"
    and forget :: "string \<Rightarrow> 'q \<Rightarrow> 'q"
    and postpone :: "string \<Rightarrow> int \<Rightarrow> gotime \<Rightarrow> 'q \<Rightarrow> 'q"
  assumes inv_distinct: "inv q \<Longrightarrow> distinct (ids q)"
    and hand_out_inv: "inv q \<Longrightarrow> inv (snd (hand_out now b q))"
    and hand_out_member: "inv q \<Longrightarrow> hand_out now b q = (Inr e, q') \<Longrightarrow> qe_event_id e \<in> set (ids q')"
    and hand_out_subset: "set (ids (snd (hand_out now b q))) \<subseteq> set (ids q)"
    and forget_inv: "inv q \<Longrightarrow> inv (forget i q)"
    and forget_ids: "ids (forget i q) = filter (\<lambda>j. j \<noteq> i) (ids q)"
    and postpone_inv: "inv q \<Longrightarrow> inv (postpone i n t q)"
    and postpone_ids: "ids (postpone i n t q) = ids q"
begin

lemma forget_handed_out:
  assumes "inv q" "hand_out now b q = (Inr e, q')"
  shows "length (ids (forget (qe_event_id e) q')) + 1 = length (ids q')"
    "set (ids (forget (qe_event_id e) q')) = set (ids q') - {qe_event_id e}"
proof -
  have d: "distinct (ids q')" and m: "qe_event_id e \<in> set (ids q')"
    using assms hand_out_inv[OF assms(1), of now b] inv_distinct hand_out_member by auto
  show "set (ids (forget (qe_event_id e) q')) = set (ids q') - {qe_event_id e}"
    by (auto simp: forget_ids)
  show "length (ids (forget (qe_event_id e) q')) + 1 = length (ids q')"
    using distinct_filter_neq[OF d m] by (simp add: forget_ids)
qed

lemma postponed_kept: "inv q \<Longrightarrow> hand_out now b q = (Inr e, q') \<Longrightarrow> qe_event_id e \<in> set (ids (postpone (qe_event_id e) n t q'))"
  by (simp add: postpone_ids hand_out_member)

end

definition event_ids :: "queue \<Rightarrow> string list" where
  "event_ids q = map pe_event_id (q_events q)"

definition queue_ok :: "queue \<Rightarrow> bool" where
  "queue_ok q \<longleftrightarrow> events_ok (q_events q)"

interpretation store: event_store queue_ok event_ids next_for_backend complete retry
proof (unfold_locales, goal_cases)
  case (3 q now b e q')
  then obtain r where r: "r \<in> set (q_events q)" "qe_event_id e = pe_event_id r" "due (unix now) (trim_right (CHR ''/'') b) r"
      "q_events q' = delete_expired (unix now) (q_events q)"
    using next_event_some unfolding next_for_backend_def by blast
  then show ?case
    by (auto simp: event_ids_def delete_expired_def due_def)
next
  case (4 now b q)
  then show ?case
    by (auto simp: next_for_backend_def next_event_def event_ids_def delete_expired_def Let_def split: list.splits)
next
  case (6 i q)
  then show ?case
    by (simp add: event_ids_def complete_def filter_map comp_def)
next
  case (8 i n t q)
  then show ?case
    by (simp add: event_ids_def retry_def)
next
  case (1 q)
  then show ?case by (simp add: queue_ok_def event_ids_def events_ok_def)
next
  case (2 q now b)
  then show ?case by (simp add: queue_ok_def next_for_backend_def next_event_ok)
qed (simp_all add: queue_ok_def complete_ok retry_ok)

section \<open>Backends and capture\<close>

lemma configure_backend_rows:
  assumes "configure_backend f endpoint q = Inr q'" "f endpoint = Inr text"
  shows "q_backend q' = Some (trim_right (CHR ''/'') text)"
    "map pe_event_id (q_events q') = map pe_event_id (q_events q)"
    "i < length (q_events q) \<Longrightarrow> pe_backend (q_events q ! i) \<noteq> [] \<Longrightarrow> q_events q' ! i = q_events q ! i"
    "i < length (q_events q) \<Longrightarrow> pe_backend (q_events q ! i) = [] \<Longrightarrow> pe_backend (q_events q' ! i) =
       (case q_backend q of Some b \<Rightarrow> b | None \<Rightarrow> trim_right (CHR ''/'') text)"
  using assms by (auto simp: configure_backend_def Let_def comp_def)

lemma new_row_backend [simp]: "pe_backend (new_row b i body now) = (case b of Some e \<Rightarrow> e | None \<Rightarrow> [])"
  by (simp add: new_row_def Let_def split: prod.splits)

definition capture_off :: "queue \<Rightarrow> bool" where
  "capture_off q \<longleftrightarrow> list_all (\<lambda>r. \<not> is_herdr r) (q_events q) \<and> q_panes q = [] \<and> list_all (\<lambda>b. \<not> hb_enabled b) (q_bindings q)"

lemma disable_capture: "capture_off (set_herdr_capture_enabled False q)"
  by (auto simp: capture_off_def set_herdr_capture_enabled_def list_all_iff)

section \<open>Properties\<close>

definition herdr_row :: "string \<Rightarrow> string \<Rightarrow> int \<Rightarrow> pending_event" where
  "herdr_row i s t = \<lparr>pe_event_id = i, pe_body = [], pe_attempts = 0, pe_next_attempt_at = t, pe_created_at = t,
     pe_expires_at = t + 1800, pe_source = ''herdr'', pe_session_id = s, pe_pane_id = ''p'', pe_backend = ''https://b''\<rparr>"

definition codex_row :: "string \<Rightarrow> int \<Rightarrow> pending_event" where
  "codex_row i t = (herdr_row i [] t)\<lparr>pe_source := ''codex'', pe_pane_id := [], pe_expires_at := t + 604800\<rparr>"

definition sample_queue :: queue where
  "sample_queue = empty_queue\<lparr>q_events := [codex_row ''c1'' 100, herdr_row ''h1'' ''s'' 50, codex_row ''c2'' 120],
     q_backend := Some ''https://b'', q_last_source := ''codex''\<rparr>"

lemma sample_queue_ok: "events_ok (q_events sample_queue)"
  by (simp add: events_ok_def sample_queue_def codex_row_def herdr_row_def herdr_count_def is_herdr_def)

text \<open>C11: Enqueueing keeps the bounds of the queue, whatever the body is: at most 500 events, at most 200 of
  Herdr, at most 50 of one Herdr session, and no event identifier twice.\<close>

theorem enqueue_keeps_bounds:
  assumes "events_ok (q_events q)"
  shows "events_ok (q_events (enqueue_event event_id body now q))"
  using assms by (rule enqueue_ok)

definition at_time :: "int \<Rightarrow> gotime" where
  "at_time s = \<lparr>nanos = s * second, zone = 0\<rparr>"

theorem enqueue_keeps_bounds_witness:
  "events_ok (q_events (enqueue_event ''new'' ''not an event'' (at_time 130) sample_queue)) \<and>
   map pe_event_id (q_events (enqueue_event ''new'' ''not an event'' (at_time 130) sample_queue)) = [''c1'', ''h1'', ''c2'', ''new'']"
proof -
  have "map pe_event_id (q_events (enqueue_event ''new'' ''not an event'' (at_time 130) sample_queue)) = [''c1'', ''h1'', ''c2'', ''new'']"
    by code_simp
  then show ?thesis
    using enqueue_keeps_bounds[OF sample_queue_ok] by blast
qed

text \<open>C6: A Herdr event never displaces a Codex event: after it was enqueued the Codex rows are exactly the
  ones that were there and have not expired, in the same order.\<close>

theorem herdr_never_evicts_codex:
  assumes "events_ok (q_events q)" "fst (classify body now) = ''herdr''"
  shows "filter (\<lambda>r. pe_source r = ''codex'') (q_events (enqueue_event event_id body now q))
       = filter (\<lambda>r. pe_source r = ''codex'') (delete_expired (unix now) (q_events q))"
  using assms by (intro enqueue_herdr_keeps_codex) (auto simp: new_row_def Let_def split: prod.splits)

definition sample_herdr_event :: host_event where
  "sample_herdr_event = \<lparr>ev_schema_version = 2, ev_event_type = ''attention_required'', ev_thread_id = [], ev_turn_id = [],
     ev_request_id = [], ev_occurred_at = at_time 120, ev_source = ''herdr'',
     ev_target = Some \<lparr>ht_session_id = ''s'', ht_pane_id = ''p'', ht_codex_thread_id = [], ht_test_installation_id = []\<rparr>,
     ev_herdr_metadata = None\<rparr>"

definition sample_herdr_body :: string where
  "sample_herdr_body = (case marshal_host_event sample_herdr_event of Inr s \<Rightarrow> s | Inl _ \<Rightarrow> [])"

lemma sample_herdr_classified: "fst (classify sample_herdr_body now) = ''herdr''"
proof -
  have "marshal_host_event sample_herdr_event = Inr sample_herdr_body"
    by code_simp
  moreover have "host_event_wf sample_herdr_event"
    by (simp add: host_event_wf_def sample_herdr_event_def int64_def target_wf_def key_utf8 byte_def)
  ultimately have "unmarshal_host_event sample_herdr_body = Inr sample_herdr_event"
    by (rule host_codec.decode_encode[rotated])
  moreover have "event_source sample_herdr_event = SourceHerdr" "host_event_valid sample_herdr_event"
    by code_simp+
  ultimately show ?thesis
    by (simp add: classify_def sample_herdr_event_def)
qed

theorem herdr_never_evicts_codex_witness:
  "map pe_event_id (filter (\<lambda>r. pe_source r = ''codex'')
     (q_events (enqueue_event ''new'' sample_herdr_body (at_time 130) sample_queue))) = [''c1'', ''c2'']"
proof -
  have "filter (\<lambda>r. pe_source r = ''codex'') (delete_expired (unix (at_time 130)) (q_events sample_queue)) =
      [codex_row ''c1'' 100, codex_row ''c2'' 120]"
    by code_simp
  then show ?thesis
    using herdr_never_evicts_codex[OF sample_queue_ok sample_herdr_classified, of "''new''" "at_time 130"]
    by (simp add: codex_row_def herdr_row_def)
qed

text \<open>C12: The dequeue is bound to its backend, never hands out an event that is not due or has expired, prefers
  a source other than the last one (so a burst of one source cannot starve the other), and among the rows
  of the preferred class takes an oldest one.\<close>

theorem next_event_fair:
  assumes "next_for_backend now backend q = (Inr e, q')"
  shows "\<exists>r \<in> set (q_events q).
      qe_event_id e = pe_event_id r \<and> qe_body e = pe_body r \<and> qe_attempts e = pe_attempts r
      \<and> due (unix now) (trim_right (CHR ''/'') backend) r \<and> q_last_source q' = pe_source r
      \<and> (\<forall>x \<in> set (q_events q). due (unix now) (trim_right (CHR ''/'') backend) x \<longrightarrow>
            (pe_source x \<noteq> q_last_source q \<longrightarrow> pe_source r \<noteq> q_last_source q) \<and>
            ((pe_source x = q_last_source q \<longleftrightarrow> pe_source r = q_last_source q) \<longrightarrow> pe_created_at r \<le> pe_created_at x))"
  using assms unfolding next_for_backend_def by (rule next_event_some)

definition sample_next :: "queued_event result \<times> queue" where
  "sample_next = next_for_backend (at_time 130) ''https://b/'' sample_queue"

lemma sample_next_eq: "sample_next =
    (Inr \<lparr>qe_event_id = ''h1'', qe_body = [], qe_attempts = 0, qe_next_attempt = 50\<rparr>, sample_queue\<lparr>q_last_source := ''herdr''\<rparr>)"
  by code_simp

theorem next_event_fair_witness:
  "\<exists>r \<in> set (q_events sample_queue). pe_event_id r = ''h1'' \<and> due 130 ''https://b'' r"
proof -
  have t: "trim_right (CHR ''/'') ''https://b/'' = ''https://b''" "unix (at_time 130) = 130"
    by code_simp+
  show ?thesis
    using next_event_fair[OF sample_next_eq[unfolded sample_next_def]] unfolding t by auto
qed

text \<open>An error of the dequeue is \<open>sql.ErrNoRows\<close> and means that nothing is due: no live event of the
  backend is ever overlooked.\<close>

theorem next_event_complete:
  assumes "next_for_backend now backend q = (Inl err, q')"
  shows "err = ErrNoRows \<and> list_all (\<lambda>r. \<not> due (unix now) (trim_right (CHR ''/'') backend) r) (q_events q)"
  using assms next_event_none[of now "trim_right (CHR ''/'') backend" q err q']
  by (auto simp: next_for_backend_def list_all_iff)

theorem next_event_complete_witness:
  "\<exists>q'. next_for_backend (at_time 130) ''https://other'' sample_queue = (Inl ErrNoRows, q') \<and>
     list_all (\<lambda>r. \<not> due 130 ''https://other'' r) (q_events sample_queue)"
proof -
  have t: "trim_right (CHR ''/'') ''https://other'' = ''https://other''" "unix (at_time 130) = 130"
    by code_simp+
  have n: "next_for_backend (at_time 130) ''https://other'' sample_queue = (Inl ErrNoRows, sample_queue)"
    by code_simp
  show ?thesis
    using next_event_complete[OF n] n unfolding t by blast
qed

text \<open>Configuring a backend never moves an event that is assigned already, leaves no event unassigned when
  the endpoint is not empty, and every event enqueued afterwards belongs to the new endpoint.\<close>

theorem configure_backend_assigns:
  assumes "configure_backend f endpoint q = Inr q'" "f endpoint = Inr text" "i < length (q_events q)"
  shows "length (q_events q') = length (q_events q) \<and>
    (if pe_backend (q_events q ! i) \<noteq> [] then q_events q' ! i = q_events q ! i
     else pe_backend (q_events q' ! i) = (case q_backend q of Some b \<Rightarrow> b | None \<Rightarrow> trim_right (CHR ''/'') text)) \<and>
    pe_backend (new_row (q_backend q') event_id body now) = trim_right (CHR ''/'') text"
  using configure_backend_rows(1)[OF assms(1,2)] configure_backend_rows(3,4)[OF assms(1,2,3)]
    arg_cong[OF configure_backend_rows(2)[OF assms(1,2)], of length]
  by auto

theorem configure_backend_assigns_witness:
  "\<exists>q'. configure_backend Inr ''https://new/'' (sample_queue\<lparr>q_events := [codex_row ''c1'' 100]\<rparr>) = Inr q' \<and>
     q_events q' = [codex_row ''c1'' 100]"
proof -
  let ?q = "sample_queue\<lparr>q_events := [codex_row ''c1'' 100]\<rparr>"
  obtain q' where q': "configure_backend Inr ''https://new/'' ?q = Inr q'"
    by (simp add: configure_backend_def Let_def)
  have "pe_backend (codex_row ''c1'' 100) \<noteq> []"
    by (simp add: codex_row_def herdr_row_def)
  then show ?thesis
    using q' configure_backend_assigns[OF q', of "''https://new/''" 0]
    by (cases "q_events q'") auto
qed

text \<open>Disabling the capture of Herdr removes every unsent Herdr event and every observed pane and disables
  every binding, and it touches no Codex event.\<close>

theorem capture_disabled_discards:
  "capture_off (set_herdr_capture_enabled False q) \<and>
   filter (\<lambda>r. \<not> is_herdr r) (q_events (set_herdr_capture_enabled False q)) = filter (\<lambda>r. \<not> is_herdr r) (q_events q) \<and>
   map hb_session_id (q_bindings (set_herdr_capture_enabled False q)) = map hb_session_id (q_bindings q)"
  using disable_capture[of q] by (auto simp: set_herdr_capture_enabled_def Let_def comp_def)

end
