(* ===== verification/Paths.thy ===== *)
theory Paths
  imports Queue
begin

text \<open>
  Package \<open>path/filepath\<close> on Unix as the agent uses it: \<open>Clean\<close>, \<open>Join\<close>, \<open>Dir\<close>, \<open>Rel\<close> and \<open>IsAbs\<close>.
  A path is cleaned by walking its components with a stack.
\<close>

definition is_abs :: "string \<Rightarrow> bool" where
  "is_abs p \<longleftrightarrow> has_prefix p ''/''"

text \<open>One component; the stack holds the components kept so far, the last one first.\<close>

fun clean_step :: "bool \<Rightarrow> string list \<Rightarrow> string \<Rightarrow> string list" where
  "clean_step rooted stack w =
     (if w = [] \<or> w = ''.'' then stack
      else if w = ''..'' then
        (case stack of
           [] \<Rightarrow> if rooted then [] else [''..'']
         | u # rest \<Rightarrow> if u = ''..'' then ''..'' # stack else rest)
      else w # stack)"

definition clean_parts :: "string \<Rightarrow> string list" where
  "clean_parts p = rev (foldl (clean_step (is_abs p)) [] (split_on (CHR ''/'') p))"

definition path_text :: "bool \<Rightarrow> string list \<Rightarrow> string" where
  "path_text rooted ws =
     (if rooted then CHR ''/'' # join_with ''/'' ws else if ws = [] then ''.'' else join_with ''/'' ws)"

definition clean_path :: "string \<Rightarrow> string" where
  "clean_path p = path_text (is_abs p) (clean_parts p)"

definition join_path :: "string list \<Rightarrow> string" where
  "join_path ws =
     (let ws' = filter (\<lambda>w. w \<noteq> []) ws in if ws' = [] then [] else clean_path (join_with ''/'' ws'))"

text \<open>The path up to its last slash, cleaned.\<close>

definition dir_path :: "string \<Rightarrow> string" where
  "dir_path p = clean_path (rev (dropWhile (\<lambda>c. c \<noteq> CHR ''/'') (rev p)))"

fun strip_common :: "string list \<Rightarrow> string list \<Rightarrow> string list \<times> string list" where
  "strip_common (b # bs) (t # ts) = (if b = t then strip_common bs ts else (b # bs, t # ts))"
| "strip_common bs ts = (bs, ts)"

definition rel_path :: "string \<Rightarrow> string \<Rightarrow> string result" where
  "rel_path base target =
     (if is_abs base \<noteq> is_abs target then fail ''Rel: can't make target relative to base''
      else (let (bs, ts) = strip_common (clean_parts base) (clean_parts target)
            in if bs \<noteq> [] \<and> hd bs = ''..'' then fail ''Rel: can't make target relative to base''
               else Inr (path_text False (map (\<lambda>_. ''..'') bs @ ts))))"

section \<open>Cleaned components\<close>

text \<open>A component list a cleaned path can have: proper names, and dot-dot only in front of a relative path.\<close>

definition name_ok :: "string \<Rightarrow> bool" where
  "name_ok w \<longleftrightarrow> w \<noteq> [] \<and> w \<noteq> ''.'' \<and> w \<noteq> ''..'' \<and> CHR ''/'' \<notin> set w"

definition parts_ok :: "bool \<Rightarrow> string list \<Rightarrow> bool" where
  "parts_ok rooted ws \<longleftrightarrow>
     (\<exists>k names. ws = replicate k ''..'' @ names \<and> list_all name_ok names \<and> (rooted \<longrightarrow> k = 0))"

lemma clean_step_ok:
  assumes "parts_ok rooted (rev stack)" "CHR ''/'' \<notin> set w"
  shows "parts_ok rooted (rev (clean_step rooted stack w))"
proof -
  obtain k names where s: "rev stack = replicate k ''..'' @ names" "list_all name_ok names" "rooted \<longrightarrow> k = 0"
    using assms(1) by (auto simp: parts_ok_def)
  then have st: "stack = rev names @ replicate k ''..''"
    by (metis rev_append rev_replicate rev_rev_ident)
  consider "w = [] \<or> w = ''.''" | "w = ''..''" | "name_ok w"
    using assms(2) by (auto simp: name_ok_def)
  then show ?thesis
  proof cases
    case 1
    then show ?thesis using assms(1) by auto
  next
    case 2
    show ?thesis
    proof (cases names rule: rev_cases)
      case Nil
      have "stack = replicate k ''..''" using st Nil by simp
      then show ?thesis
        using 2 s(3) unfolding parts_ok_def
        by (cases k; cases rooted)
          (auto simp: replicate_append_same intro: exI[of _ "Suc 0"] exI[of _ "Suc (Suc (k - 1))"]
            intro!: exI[of _ "[]"])
    next
      case (snoc ns n)
      then have "n \<noteq> ''..''" "list_all name_ok ns"
        using s(2) by (auto simp: name_ok_def)
      then show ?thesis
        using 2 s(3) snoc st unfolding parts_ok_def by (intro exI[of _ k] exI[of _ ns]) auto
    qed
  next
    case 3
    then have "clean_step rooted stack w = w # stack"
      by (auto simp: name_ok_def)
    then show ?thesis
      using 3 s unfolding parts_ok_def by (intro exI[of _ k] exI[of _ "names @ [w]"]) auto
  qed
qed

lemma clean_fold_ok:
  "parts_ok rooted (rev stack) \<Longrightarrow> list_all (\<lambda>w. CHR ''/'' \<notin> set w) ws \<Longrightarrow>
     parts_ok rooted (rev (foldl (clean_step rooted) stack ws))"
  by (induction ws arbitrary: stack) (auto simp: clean_step_ok simp del: clean_step.simps)

lemma clean_parts_ok: "parts_ok (is_abs p) (clean_parts p)"
proof -
  have "parts_ok r []" for r
    by (auto simp: parts_ok_def)
  then show ?thesis
    unfolding clean_parts_def
    by (intro clean_fold_ok) (auto simp: list_all_iff split_on_no_sep)
qed

text \<open>Walking over cleaned components changes nothing.\<close>

lemma clean_fold_names:
  "list_all name_ok ws \<Longrightarrow> foldl (clean_step rooted) stack ws = rev ws @ stack"
  by (induction ws arbitrary: stack) (auto simp: name_ok_def)

lemma clean_fold_dots:
  "foldl (clean_step False) (replicate j ''..'') (replicate k ''..'') = replicate (j + k) ''..''"
proof (induction k arbitrary: j)
  case (Suc k)
  have "clean_step False (replicate j ''..'') ''..'' = replicate (Suc j) ''..''"
    by (cases j) auto
  then show ?case
    using Suc[of "Suc j"] by (simp del: clean_step.simps replicate.simps(2) add: replicate.simps(2)[of k])
qed simp

lemma clean_fold_parts: "parts_ok rooted ws \<Longrightarrow> foldl (clean_step rooted) [] ws = rev ws"
proof -
  assume "parts_ok rooted ws"
  then obtain k names where ws: "ws = replicate k ''..'' @ names" "list_all name_ok names" "rooted \<longrightarrow> k = 0"
    by (auto simp: parts_ok_def)
  show ?thesis
  proof (cases rooted)
    case True
    then show ?thesis using ws clean_fold_names[of names True "[]"] by simp
  next
    case False
    then show ?thesis
      using ws clean_fold_names[of names False "replicate k ''..''"] clean_fold_dots[of 0 k] by simp
  qed
qed

lemma split_on_word: "c \<notin> set w \<Longrightarrow> split_on c w = [w]"
  by (induction w) auto

lemma split_on_sep: "c \<notin> set w \<Longrightarrow> split_on c (w @ c # s) = w # split_on c s"
  by (induction w) auto

lemma split_join:
  "ws \<noteq> [] \<Longrightarrow> list_all (\<lambda>w. c \<notin> set w) ws \<Longrightarrow> split_on c (join_with [c] ws) = ws"
  by (induction "[c]" ws rule: join_with.induct) (auto simp: split_on_word split_on_sep)

lemma parts_member: "parts_ok rooted ws \<Longrightarrow> w \<in> set ws \<Longrightarrow> w = ''..'' \<or> name_ok w"
  by (auto simp: parts_ok_def list_all_iff)

lemma parts_no_slash: "parts_ok rooted ws \<Longrightarrow> list_all (\<lambda>w. CHR ''/'' \<notin> set w) ws"
  unfolding list_all_iff by (intro ballI, drule (1) parts_member) (auto simp: name_ok_def)

lemma parts_nonempty: "parts_ok rooted ws \<Longrightarrow> w \<in> set ws \<Longrightarrow> w \<noteq> []"
  by (drule (1) parts_member) (auto simp: name_ok_def)

lemma path_text_parts:
  assumes "parts_ok rooted ws"
  shows "is_abs (path_text rooted ws) = rooted" "clean_parts (path_text rooted ws) = ws"
proof -
  have hd: "ws \<noteq> [] \<Longrightarrow> \<exists>c cs. join_with ''/'' ws = c # cs \<and> c \<noteq> CHR ''/''"
    using parts_nonempty[OF assms, of "hd ws"] parts_no_slash[OF assms]
    by (cases ws rule: join_with.cases[of "(''/'', ws)" for ws, simplified]; cases "hd ws") auto
  show a: "is_abs (path_text rooted ws) = rooted"
    using hd by (cases "ws = []") (auto simp: is_abs_def path_text_def has_prefix_def)
  have "split_on (CHR ''/'') (path_text rooted ws) =
      (if rooted then [] # (if ws = [] then [[]] else ws) else if ws = [] then [''.''] else ws)"
    using split_join[OF _ parts_no_slash[OF assms]] by (auto simp: path_text_def)
  then show "clean_parts (path_text rooted ws) = ws"
    using clean_fold_parts[OF assms] by (auto simp: clean_parts_def a)
qed

lemma clean_path_parts [simp]: "is_abs (clean_path p) = is_abs p" "clean_parts (clean_path p) = clean_parts p"
  unfolding clean_path_def using path_text_parts[OF clean_parts_ok] by simp_all

lemma clean_path_idem [simp]: "clean_path (clean_path p) = clean_path p"
  by (simp only: clean_path_def[of "clean_path p"] clean_path_parts) (simp only: clean_path_def)

section \<open>Cleaning does not lengthen a path\<close>

definition parts_weight :: "string list \<Rightarrow> nat" where
  "parts_weight ws = sum_list (map (\<lambda>w. length w + 1) ws)"

lemma parts_weight_simps [simp]:
  "parts_weight [] = 0" "parts_weight (w # ws) = length w + 1 + parts_weight ws" "parts_weight (rev ws) = parts_weight ws"
  by (simp_all add: parts_weight_def rev_map[symmetric])

lemma split_weight: "parts_weight (split_on c s) = length s + 1"
  by (induction s) (auto split: list.splits)

lemma join_weight: "ws \<noteq> [] \<Longrightarrow> length (join_with ''/'' ws) + 1 = parts_weight ws"
  by (induction "''/''" ws rule: join_with.induct) auto

lemma clean_step_weight: "parts_weight (clean_step r st w) \<le> parts_weight st + length w + 1"
  by (auto split: list.splits)

lemma clean_fold_weight: "parts_weight (foldl (clean_step r) st ws) \<le> parts_weight st + parts_weight ws"
proof (induction ws arbitrary: st)
  case (Cons w ws)
  show ?case
    using Cons[of "clean_step r st w"] clean_step_weight[of r st w] by (simp del: clean_step.simps)
qed simp

lemma abs_path_shape: "is_abs p \<Longrightarrow> \<exists>q. p = CHR ''/'' # q"
  by (auto simp: is_abs_def has_prefix_iff)

lemma clean_path_length: "is_abs p \<Longrightarrow> length (clean_path p) \<le> length p"
proof -
  assume a: "is_abs p"
  then obtain q where p: "p = CHR ''/'' # q"
    using abs_path_shape by blast
  have "parts_weight (clean_parts p) \<le> length p"
    using a clean_fold_weight[of True "[]" "split_on (CHR ''/'') q"] split_weight[of "CHR ''/''" q]
    by (simp add: clean_parts_def p)
  then show ?thesis
    using a join_weight[of "clean_parts p"] by (cases "clean_parts p = []") (auto simp: clean_path_def path_text_def p)
qed

lemma clean_step_chars: "\<Union> (set ` set (clean_step r st w)) \<subseteq> \<Union> (set ` set st) \<union> set w"
  by (auto split: list.splits)

lemma clean_fold_chars: "\<Union> (set ` set (foldl (clean_step r) st ws)) \<subseteq> \<Union> (set ` set st) \<union> \<Union> (set ` set ws)"
proof (induction ws arbitrary: st)
  case (Cons w ws)
  show ?case
    using Cons[of "clean_step r st w"] clean_step_chars[of r st w] by (simp del: clean_step.simps) blast
qed simp

lemma split_chars: "\<Union> (set ` set (split_on c s)) \<subseteq> set s"
proof (induction s)
  case (Cons d ds)
  obtain w ws where "split_on c ds = w # ws"
    by (metis list.exhaust split_on_nonempty)
  with Cons show ?case by auto
qed simp

lemma join_chars: "set (join_with sep ws) \<subseteq> set sep \<union> \<Union> (set ` set ws)"
  by (induction sep ws rule: join_with.induct) auto

lemma clean_path_chars: "is_abs p \<Longrightarrow> set (clean_path p) \<subseteq> set p"
proof -
  assume a: "is_abs p"
  then have slash: "CHR ''/'' \<in> set p"
    using abs_path_shape by fastforce
  have "\<Union> (set ` set (clean_parts p)) \<subseteq> set p"
    using clean_fold_chars[of "is_abs p" "[]" "split_on (CHR ''/'') p"] split_chars[of "CHR ''/''" p]
    by (simp add: clean_parts_def)
  then have "set (join_with ''/'' (clean_parts p)) \<subseteq> set p"
    using join_chars[of "''/''" "clean_parts p"] slash by (intro subset_trans[OF join_chars]) simp
  then show ?thesis
    using slash a by (simp add: clean_path_def path_text_def)
qed

lemma clean_path_abs [simp]: "is_abs (clean_path p) = is_abs p"
proof (cases "is_abs p")
  case False
  have "\<not> is_abs (join_with ''/'' ws)" if "ws \<noteq> []" "hd ws \<noteq> []" "CHR ''/'' \<notin> set (hd ws)" for ws
    using that by (cases ws; cases "tl ws"; cases "hd ws") (auto simp: is_abs_def has_prefix_iff Cons_eq_append_conv)
  moreover have "clean_parts p = [] \<or> hd (clean_parts p) \<noteq> [] \<and> CHR ''/'' \<notin> set (hd (clean_parts p))"
    using parts_nonempty[OF clean_parts_ok[of p]] parts_no_slash[OF clean_parts_ok[of p]] by (cases "clean_parts p") auto
  moreover have "\<not> is_abs ''.''"
    by code_simp
  ultimately show ?thesis
    using False by (auto simp: clean_path_def path_text_def)
qed (simp add: clean_path_def path_text_def is_abs_def has_prefix_iff)

end
