(* ===== verification/Flags.thy ===== *)
theory Flags
  imports Paths
begin

text \<open>
  What the commands of \<open>cmd/novascale-agent\<close> share: the package \<open>flag\<close> of the standard library with string and boolean
  flags, \<open>filepath.Abs\<close> and \<open>filepath.Base\<close>, \<open>fmt.Println\<close>, and \<open>shellQuote\<close> and \<open>shellCommand\<close> of \<open>main.go\<close>, which
  make the hook command that Codex hands to a shell. What the flag package prints about an error is not modelled.
\<close>

section \<open>Flags\<close>

datatype flag_value = StringFlag string | BoolFlag bool

type_synonym flag_set = "(string \<times> flag_value) list"

text \<open>\<open>strconv.ParseBool\<close>\<close>

definition parse_bool :: "string \<Rightarrow> bool result" where
  "parse_bool s =
     (if s \<in> {''1'', ''t'', ''T'', ''true'', ''TRUE'', ''True''} then Inr True
      else if s \<in> {''0'', ''f'', ''F'', ''false'', ''FALSE'', ''False''} then Inr False
      else fail ''parse error'')"

definition set_flag :: "string \<Rightarrow> flag_value \<Rightarrow> flag_set \<Rightarrow> flag_set" where
  "set_flag name v flags = map (\<lambda>(n, w). (n, if n = name then v else w)) flags"

definition string_flag :: "string \<Rightarrow> flag_set \<Rightarrow> string" where
  "string_flag name flags = (case map_of flags name of Some (StringFlag s) \<Rightarrow> s | _ \<Rightarrow> [])"

definition bool_flag :: "string \<Rightarrow> flag_set \<Rightarrow> bool" where
  "bool_flag name flags = (case map_of flags name of Some (BoolFlag b) \<Rightarrow> b | _ \<Rightarrow> False)"

text \<open>The name of an argument that is a flag, without its dashes; \<open>Inr None\<close> when the flags end before it.\<close>

definition flag_name :: "string \<Rightarrow> string option result" where
  "flag_name s =
     (if length s < 2 \<or> hd s \<noteq> CHR ''-'' then Inr None
      else (let name = (if s ! 1 = CHR ''-'' then drop 2 s else drop 1 s)
            in if s = ''--'' then Inr None
               else if name = [] \<or> hd name = CHR ''-'' \<or> hd name = CHR ''='' then fail ''bad flag syntax''
               else Inr (Some name)))"

text \<open>\<open>FlagSet.Parse\<close>: the flags with their values and the arguments after them.\<close>

fun parse_flags :: "flag_set \<Rightarrow> string list \<Rightarrow> (flag_set \<times> string list) result" where
  "parse_flags flags [] = Inr (flags, [])"
| "parse_flags flags (s # args) =
     (case flag_name s of
        Inl e \<Rightarrow> Inl e
      | Inr None \<Rightarrow> Inr (flags, if s = ''--'' then args else s # args)
      | Inr (Some text) \<Rightarrow>
          (let (name, value, has_value) = cut (CHR ''='') text
           in case map_of flags name of
                None \<Rightarrow> (if name \<in> {''help'', ''h''} then fail ''flag: help requested'' else fail ''flag provided but not defined'')
              | Some (BoolFlag _) \<Rightarrow>
                  (case (if has_value then parse_bool value else Inr True) of
                     Inl e \<Rightarrow> Inl e
                   | Inr b \<Rightarrow> parse_flags (set_flag name (BoolFlag b) flags) args)
              | Some (StringFlag _) \<Rightarrow>
                  if has_value then parse_flags (set_flag name (StringFlag value) flags) args
                  else (case args of
                      [] \<Rightarrow> fail ''flag needs an argument''
                    | v # rest \<Rightarrow> parse_flags (set_flag name (StringFlag v) flags) rest)))"

section \<open>Paths and output\<close>

definition abs_path :: "string result \<Rightarrow> string \<Rightarrow> string result" where
  "abs_path workdir p =
     (if is_abs p then Inr (clean_path p)
      else case workdir of Inl e \<Rightarrow> Inl e | Inr wd \<Rightarrow> Inr (join_path [wd, p]))"

definition base_path :: "string \<Rightarrow> string" where
  "base_path p =
     (if p = [] then ''.''
      else (let s = trim_right (CHR ''/'') p; b = rev (takeWhile (\<lambda>c. c \<noteq> CHR ''/'') (rev s))
            in if b = [] then ''/'' else b))"

definition println :: "string list \<Rightarrow> string" where
  "println ws = join_with '' '' ws @ [CHR 10]"

section \<open>Shell commands\<close>

abbreviation apostrophe :: char where "apostrophe \<equiv> CHR 39"

definition shell_quote :: "string \<Rightarrow> string" where
  "shell_quote v =
     apostrophe # concat (map (\<lambda>c. if c = apostrophe then [apostrophe, CHR 92, apostrophe, apostrophe] else [c]) v) @ [apostrophe]"

definition plain_rune :: "int \<Rightarrow> bool" where
  "plain_rune r \<longleftrightarrow> 97 \<le> r \<and> r \<le> 122 \<or> 65 \<le> r \<and> r \<le> 90 \<or> 48 \<le> r \<and> r \<le> 57 \<or> r \<in> {95, 46, 47, 45}"

definition shell_command :: "string \<Rightarrow> string" where
  "shell_command v = (if list_all plain_rune (runes v) then v else shell_quote v)"

definition hook_command :: "string \<Rightarrow> string" where
  "hook_command binary = shell_command binary @ '' hook''"

text \<open>
  How a POSIX shell splits a simple command into words: single quotes keep everything, a backslash outside them keeps
  the next character, spaces separate words. Any other character that is special outside of quotes gives \<open>None\<close>:
  the command would do something else than running a program. \<open>word\<close> is the word read so far, if one has begun.
\<close>

definition plain_char :: "char \<Rightarrow> bool" where
  "plain_char c \<longleftrightarrow> plain_rune (byte c)"

fun shell_words :: "bool \<Rightarrow> string option \<Rightarrow> string \<Rightarrow> string list option" where
  "shell_words quoted word [] = (if quoted then None else Some (case word of None \<Rightarrow> [] | Some w \<Rightarrow> [w]))"
| "shell_words True word (c # cs) =
     (if c = apostrophe then shell_words False word cs
      else shell_words True (Some ((case word of None \<Rightarrow> [] | Some w \<Rightarrow> w) @ [c])) cs)"
| "shell_words False word (c # cs) =
     (let w = (case word of None \<Rightarrow> [] | Some w \<Rightarrow> w)
      in if c = apostrophe then shell_words True (Some w) cs
         else if c = CHR 92 then (case cs of [] \<Rightarrow> None | d # ds \<Rightarrow> shell_words False (Some (w @ [d])) ds)
         else if c = CHR '' '' then
           map_option (\<lambda>ws. (case word of None \<Rightarrow> ws | Some w \<Rightarrow> w # ws)) (shell_words False None cs)
         else if plain_char c then shell_words False (Some (w @ [c])) cs
         else None)"

lemma quoted_words:
  "shell_words True (Some w) (concat (map (\<lambda>c. if c = apostrophe then [apostrophe, CHR 92, apostrophe, apostrophe] else [c]) v)
      @ apostrophe # cs) = shell_words False (Some (w @ v)) cs"
  by (induction v arbitrary: w) auto

lemma plain_char_special: "plain_char c \<Longrightarrow> c \<noteq> apostrophe \<and> c \<noteq> CHR 92 \<and> c \<noteq> CHR '' ''"
  by (auto simp: plain_char_def plain_rune_def byte_def)

lemma plain_words:
  "list_all plain_char v \<Longrightarrow> v \<noteq> [] \<Longrightarrow>
     shell_words False word (v @ cs) = shell_words False (Some ((case word of None \<Rightarrow> [] | Some w \<Rightarrow> w) @ v)) cs"
proof (induction v arbitrary: word)
  case (Cons c v)
  have step: "shell_words False word ((c # v) @ cs) = shell_words False (Some ((case word of None \<Rightarrow> [] | Some w \<Rightarrow> w) @ [c])) (v @ cs)"
    using plain_char_special[of c] Cons.prems(1) by (simp add: Let_def)
  show ?case
    unfolding step using Cons by (cases "v = []") simp_all
qed simp

lemma plain_runes:
  assumes "list_all plain_rune (runes v)"
  shows "list_all plain_char v"
proof -
  have r: "0 \<le> r \<and> r < 128 \<and> plain_rune r" if "r \<in> set (runes v)" for r
    using assms that by (auto simp: list_all_iff plain_rune_def)
  have "valid_utf8 v"
    using r[of rune_error] by (auto simp: valid_utf8_def runes_def bad_unit_def image_iff) force
  then have "v = encode_runes (runes v)"
    by (simp add: encode_valid)
  also have "\<dots> = concat (map (\<lambda>r. [chr r]) (runes v))"
  proof -
    have "encode_rune x = [chr x]" if "x \<in> set (runes v)" for x
      using r[OF that] by (simp add: encode_rune_def scalar_def)
    then show ?thesis
      unfolding encode_runes_def by (metis (mono_tags, lifting) map_eq_conv)
  qed
  finally have "v = map chr (runes v)"
    by simp
  then have "set v = chr ` set (runes v)"
    by (metis list.set_map)
  then show ?thesis
    using r by (fastforce simp: list_all_iff plain_char_def)
qed

text \<open>A shell runs the hook command as the agent's path and the word \<open>hook\<close>.\<close>

lemma shell_command_words:
  assumes "v \<noteq> []"
  shows "shell_words False None (shell_command v @ cs) = shell_words False (Some v) cs"
proof (cases "list_all plain_rune (runes v)")
  case True
  then show ?thesis
    using plain_words[OF plain_runes[OF True] assms] by (simp add: shell_command_def)
next
  case False
  then show ?thesis
    using quoted_words[of "[]" v cs] by (simp add: shell_command_def shell_quote_def)
qed

text \<open>C31: The command that \<open>hooks install\<close> writes into Codex's file is safe: whatever characters the path of the agent
  has, a POSIX shell splits the command into exactly two words, the path and \<open>hook\<close>, and expands nothing.\<close>

theorem hook_command_words:
  assumes "binary \<noteq> []"
  shows "shell_words False None (hook_command binary) = Some [binary, ''hook'']"
proof -
  have "shell_words False (Some binary) '' hook'' = Some [binary, ''hook'']"
    by (simp add: plain_char_def plain_rune_def byte_def)
  then show ?thesis
    using shell_command_words[OF assms] by (simp add: hook_command_def)
qed

theorem hook_command_words_witness:
  "shell_words False None (hook_command (''/a b'' @ [apostrophe] @ ''$(c)'')) = Some [''/a b'' @ [apostrophe] @ ''$(c)'', ''hook'']"
  by (rule hook_command_words) simp

end
