(* ===== verification/Herdr_Api.thy ===== *)
theory Herdr_Api
  imports Paths
begin

text \<open>
  \<open>internal/agent/herdr_api.go\<close> and the session names of \<open>herdr_bindings.go\<close>: reading the agents of a
  Herdr server over its socket, the signals of the Herdr plugin, and the names of sockets. The server's
  replies, the file status of the socket, the environment and SHA-256 are parameters.
\<close>

definition HerdrCapability :: string where "HerdrCapability = ''herdr-v2''"
definition HerdrBindingsCapability :: string where "HerdrBindingsCapability = ''herdr-bindings-v1''"
definition HerdrHostCaptureCapability :: string where "HerdrHostCaptureCapability = ''herdr-host-capture-v1''"
definition HerdrPluginID :: string where "HerdrPluginID = ''novascale.notifications''"
definition MaxHookInput :: nat where "MaxHookInput = 64 * 1024"

section \<open>Agents\<close>

record agent_session =
  as_agent :: string
  as_kind :: string
  as_value :: string

record herdr_agent =
  ha_terminal_id :: string
  ha_pane_id :: string
  ha_agent :: string
  ha_status :: string
  ha_sequence :: int
  ha_completion_sequence :: "int option"
  ha_completion_supported :: bool
  ha_workspace_id :: string
  ha_title :: string
  ha_display_agent :: string
  ha_state_labels :: "string gomap"
  ha_agent_session :: "agent_session option"

definition agent_metadata :: "herdr_agent \<Rightarrow> herdr_metadata option" where
  "agent_metadata a = normalized
     \<lparr>hm_session_name = [], hm_workspace_id = ha_workspace_id a, hm_agent_status = ha_status a, hm_agent = ha_agent a,
      hm_title = ha_title a, hm_display_agent = ha_display_agent a, hm_state_labels = ha_state_labels a\<rparr>"

definition hex_char :: "char \<Rightarrow> bool" where
  "hex_char c \<longleftrightarrow> is_digit c \<or> 97 \<le> byte c \<and> byte c \<le> 102 \<or> 65 \<le> byte c \<and> byte c \<le> 70"

definition thread_char :: "nat \<times> char \<Rightarrow> bool" where
  "thread_char e \<longleftrightarrow> (if fst e \<in> {8, 13, 18, 23} then snd e = CHR ''-'' else hex_char (snd e))"

text \<open>Every byte of an accepted value is ASCII, so the byte index of \<open>range\<close> is the position.\<close>

definition codex_thread_id :: "herdr_agent \<Rightarrow> string" where
  "codex_thread_id a =
     (case ha_agent_session a of
        None \<Rightarrow> []
      | Some s \<Rightarrow>
          if ha_agent a \<noteq> ''codex'' \<or> as_agent s \<noteq> ''codex'' \<or> as_kind s \<noteq> ''id'' then []
          else if length (as_value s) \<noteq> 36 then []
          else if list_all thread_char (zip [0..<36] (as_value s)) then as_value s else [])"

definition valid_herdr_status :: "string \<Rightarrow> bool" where
  "valid_herdr_status s \<longleftrightarrow> s = ''working'' \<or> s = ''blocked'' \<or> s = ''idle'' \<or> s = ''done'' \<or> s = ''unknown''"

section \<open>Sockets\<close>

definition herdr_binding_key :: "(string \<Rightarrow> string) \<Rightarrow> string \<Rightarrow> string" where
  "herdr_binding_key sha256_hex socket = sha256_hex (clean_path socket)"

record environment =
  env_xdg_config_home :: string
  env_home :: "string option"

definition herdr_base :: "environment \<Rightarrow> string result" where
  "herdr_base env =
     (if env_xdg_config_home env \<noteq> [] then Inr (env_xdg_config_home env)
      else case env_home env of None \<Rightarrow> fail ''$HOME is not defined'' | Some h \<Rightarrow> Inr (join_path [h, ''.config'']))"

definition bad_socket_text :: "string \<Rightarrow> bool" where
  "bad_socket_text p \<longleftrightarrow> \<not> is_abs p \<or> 4096 < length p \<or> contains_any p [chr 0, chr 13, chr 10]"

definition resolve_herdr_socket :: "environment \<Rightarrow> string \<Rightarrow> string \<Rightarrow> string result" where
  "resolve_herdr_socket env session explicit =
     (if explicit \<noteq> [] then
        (if bad_socket_text explicit then fail ''invalid Herdr socket path'' else Inr (clean_path explicit))
      else if session \<noteq> [] \<and> session \<noteq> ''default'' \<and>
              (64 < length session \<or> session = ''.'' \<or> session = ''..'' \<or> \<not> list_all session_name_char (runes session))
        then fail ''invalid Herdr session name''
      else case herdr_base env of
          Inl e \<Rightarrow> Inl e
        | Inr base \<Rightarrow>
            if session = [] \<or> session = ''default'' then Inr (join_path [base, ''herdr'', ''herdr.sock''])
            else Inr (join_path [base, ''herdr'', ''sessions'', session, ''herdr.sock'']))"

definition herdr_binding_session_name :: "environment \<Rightarrow> string \<Rightarrow> string" where
  "herdr_binding_session_name env socket =
     (case resolve_herdr_socket env ''default'' [] of
        Inl _ \<Rightarrow> []
      | Inr default_socket \<Rightarrow>
          if clean_path socket = default_socket then ''default''
          else case rel_path (join_path [dir_path default_socket, ''sessions'']) (clean_path socket) of
              Inl _ \<Rightarrow> []
            | Inr relative \<Rightarrow>
                (case split_on (CHR ''/'') relative of
                   [name, leaf] \<Rightarrow>
                     if leaf \<noteq> ''herdr.sock'' \<or> \<not> valid_herdr_session_name name then []
                     else (case resolve_herdr_socket env name [] of
                             Inr canonical \<Rightarrow> if canonical \<noteq> clean_path socket then [] else name
                           | Inl _ \<Rightarrow> [])
                 | _ \<Rightarrow> []))"

section \<open>Requests\<close>

definition dec_raw :: "json \<Rightarrow> json option \<Rightarrow> json option \<times> bool" where
  "dec_raw j old = (Some j, True)"

fun dec_uint :: "json \<Rightarrow> int \<Rightarrow> int \<times> bool" where
  "dec_uint (JNum lit) old = (case parse_uint 64 lit of Some n \<Rightarrow> (n, True) | None \<Rightarrow> (old, False))"
| "dec_uint JNull old = (old, True)"
| "dec_uint _ old = (old, False)"

fun dec_elements :: "(json \<Rightarrow> 'a \<Rightarrow> 'a \<times> bool) \<Rightarrow> 'a \<Rightarrow> json list \<Rightarrow> 'a list \<times> bool" where
  "dec_elements d zero [] = ([], True)"
| "dec_elements d zero (j # js) =
     (let (x, ok) = d j zero; (xs, ok') = dec_elements d zero js in (x # xs, ok \<and> ok'))"

fun dec_slice :: "(json \<Rightarrow> 'a \<Rightarrow> 'a \<times> bool) \<Rightarrow> 'a \<Rightarrow> json \<Rightarrow> 'a list \<Rightarrow> 'a list \<times> bool" where
  "dec_slice d zero (JArr js) old = dec_elements d zero js"
| "dec_slice d zero JNull old = ([], True)"
| "dec_slice d zero _ old = (old, False)"

record herdr_reply =
  hr_id :: string
  hr_result :: "json option"
  hr_error :: "string option"

definition reply_member :: "string \<Rightarrow> json \<Rightarrow> herdr_reply \<Rightarrow> herdr_reply \<times> bool" where
  "reply_member k v r =
     (if is_field ''id'' k then store (dec_string v) hr_id hr_id_update r
      else if is_field ''result'' k then store (dec_raw v) hr_result hr_result_update r
      else if is_field ''error'' k then
        store (dec_pointer (dec_struct (\<lambda>k v c. if is_field ''code'' k then dec_string v c else (c, True))) [] v)
          hr_error hr_error_update r
      else (r, True))"

text \<open>
  One request: \<open>reply\<close> is what the server sent before it closed the connection, \<open>None\<close> when it could
  not be reached. The first JSON value of the first megabyte counts.
\<close>

definition herdr_request :: "string option \<Rightarrow> (json \<Rightarrow> 'a \<Rightarrow> 'a \<times> bool) \<Rightarrow> 'a \<Rightarrow> 'a result" where
  "herdr_request reply dec zero =
     (case reply of
        None \<Rightarrow> fail ''Herdr socket unavailable''
      | Some text \<Rightarrow>
          (case parse_prefix (take (1024 * 1024) text) of
             None \<Rightarrow> fail ''Herdr request rejected''
           | Some (j, _) \<Rightarrow>
               (case dec_struct reply_member j \<lparr>hr_id = [], hr_result = None, hr_error = None\<rparr> of
                  (r, ok) \<Rightarrow>
                    if \<not> ok \<or> hr_id r \<noteq> ''novascale-notifications'' \<or> hr_error r \<noteq> None then fail ''Herdr request rejected''
                    else (case hr_result r of
                        None \<Rightarrow> fail ''Herdr request rejected''
                      | Some res \<Rightarrow>
                          (case dec res zero of (x, ok') \<Rightarrow> if ok' then Inr x else fail ''invalid Herdr response'')))))"

definition session_member :: "string \<Rightarrow> json \<Rightarrow> agent_session \<Rightarrow> agent_session \<times> bool" where
  "session_member k v s =
     (if is_field ''agent'' k then store (dec_string v) as_agent as_agent_update s
      else if is_field ''kind'' k then store (dec_string v) as_kind as_kind_update s
      else if is_field ''value'' k then store (dec_string v) as_value as_value_update s
      else (s, True))"

definition agent_member :: "string \<Rightarrow> json \<Rightarrow> herdr_agent \<Rightarrow> herdr_agent \<times> bool" where
  "agent_member k v a =
     (if is_field ''terminal_id'' k then store (dec_string v) ha_terminal_id ha_terminal_id_update a
      else if is_field ''pane_id'' k then store (dec_string v) ha_pane_id ha_pane_id_update a
      else if is_field ''agent'' k then store (dec_string v) ha_agent ha_agent_update a
      else if is_field ''agent_status'' k then store (dec_string v) ha_status ha_status_update a
      else if is_field ''state_change_seq'' k then store (dec_uint v) ha_sequence ha_sequence_update a
      else if is_field ''completion_seq'' k
        then store (dec_pointer dec_uint 0 v) ha_completion_sequence ha_completion_sequence_update a
      else if is_field ''workspace_id'' k then store (dec_string v) ha_workspace_id ha_workspace_id_update a
      else if is_field ''title'' k then store (dec_string v) ha_title ha_title_update a
      else if is_field ''display_agent'' k then store (dec_string v) ha_display_agent ha_display_agent_update a
      else if is_field ''state_labels'' k then store (dec_string_map v) ha_state_labels ha_state_labels_update a
      else if is_field ''agent_session'' k then
        store (dec_pointer (dec_struct session_member) \<lparr>as_agent = [], as_kind = [], as_value = []\<rparr> v)
          ha_agent_session ha_agent_session_update a
      else (a, True))"

definition zero_agent :: herdr_agent where
  "zero_agent = \<lparr>ha_terminal_id = [], ha_pane_id = [], ha_agent = [], ha_status = [], ha_sequence = 0,
     ha_completion_sequence = None, ha_completion_supported = False, ha_workspace_id = [], ha_title = [],
     ha_display_agent = [], ha_state_labels = [], ha_agent_session = None\<rparr>"

definition agents_member :: "string \<Rightarrow> json \<Rightarrow> herdr_agent list \<Rightarrow> herdr_agent list \<times> bool" where
  "agents_member k v as =
     (if is_field ''agents'' k then dec_slice (dec_struct agent_member) zero_agent v as else (as, True))"

definition version_member :: "string \<Rightarrow> json \<Rightarrow> string \<Rightarrow> string \<times> bool" where
  "version_member k v s = (if is_field ''version'' k then dec_string v s else (s, True))"

definition herdr_supports_completion_evidence :: "string \<Rightarrow> bool" where
  "herdr_supports_completion_evidence version =
     (case split_on (CHR ''.'') (fst (cut (CHR ''+'') version)) of
        [a, b, c] \<Rightarrow>
          (case (parse_uint 32 a, parse_uint 32 b, parse_uint 32 c) of
             (Some x, Some y, Some z) \<Rightarrow> 0 < x \<or> 9 < y \<or> y = 9 \<and> 2 \<le> z
           | _ \<Rightarrow> False)
      | _ \<Rightarrow> False)"

record socket_stat =
  st_is_socket :: bool
  st_uid :: int
  st_dev :: int
  st_ino :: int
  st_mtime :: int

definition same_socket :: "socket_stat \<Rightarrow> socket_stat \<Rightarrow> bool" where
  "same_socket a b \<longleftrightarrow> st_dev a = st_dev b \<and> st_ino a = st_ino b \<and> st_mtime a = st_mtime b"

definition agent_ok :: "herdr_agent \<Rightarrow> bool" where
  "agent_ok a \<longleftrightarrow> valid_id (ha_pane_id a) \<and> valid_id (ha_terminal_id a) \<and> valid_herdr_status (ha_status a) \<and>
     ha_sequence a \<le> 2 ^ 63 - 1"

definition completion_ok :: "herdr_agent \<Rightarrow> bool" where
  "completion_ok a \<longleftrightarrow> (case ha_completion_sequence a of None \<Rightarrow> True | Some c \<Rightarrow> c \<le> ha_sequence a)"

fun check_agents :: "bool \<Rightarrow> herdr_agent list \<Rightarrow> herdr_agent list result" where
  "check_agents evidence [] = Inr []"
| "check_agents evidence (a # as) =
     (if \<not> agent_ok a then fail ''invalid Herdr agent metadata''
      else if \<not> completion_ok a then fail ''invalid Herdr completion sequence''
      else case check_agents evidence as of
          Inl e \<Rightarrow> Inl e
        | Inr bs \<Rightarrow> Inr (a\<lparr>ha_completion_supported := evidence\<rparr> # bs))"

definition read_herdr_agents ::
  "int \<Rightarrow> socket_stat option \<Rightarrow> string option \<Rightarrow> string option \<Rightarrow> socket_stat option \<Rightarrow> (herdr_agent list \<times> string) result" where
  "read_herdr_agents uid stat0 ping list stat1 =
     (case stat0 of
        None \<Rightarrow> fail ''Herdr socket unavailable''
      | Some st \<Rightarrow>
          if \<not> st_is_socket st then fail ''Herdr socket unavailable''
          else if st_uid st \<noteq> uid then fail ''Herdr socket belongs to another user''
          else case herdr_request ping (dec_struct version_member) [] of
              Inl e \<Rightarrow> Inl e
            | Inr version \<Rightarrow>
                (case herdr_request list (dec_struct agents_member) [] of
                   Inl e \<Rightarrow> Inl e
                 | Inr raw \<Rightarrow>
                     (case stat1 of
                        None \<Rightarrow> fail ''Herdr socket unavailable''
                      | Some st' \<Rightarrow>
                          if \<not> same_socket st st' then fail ''Herdr socket unavailable''
                          else if 512 < length raw then fail ''Herdr agent metadata exceeds limit''
                          else (case check_agents (herdr_supports_completion_evidence version) raw of
                              Inl e \<Rightarrow> Inl e
                            | Inr as \<Rightarrow>
                                Inr (as, format_int (st_dev st) @ '':'' @ format_int (st_ino st) @ '':'' @ format_int (st_mtime st))))))"

section \<open>Signals of the plugin\<close>

record hook_envelope =
  hv_event :: string
  hv_type :: string
  hv_pane_id :: string
  hv_status :: string

definition envelope_data_member :: "string \<Rightarrow> json \<Rightarrow> hook_envelope \<Rightarrow> hook_envelope \<times> bool" where
  "envelope_data_member k v e =
     (if is_field ''type'' k then store (dec_string v) hv_type hv_type_update e
      else if is_field ''pane_id'' k then store (dec_string v) hv_pane_id hv_pane_id_update e
      else if is_field ''agent_status'' k then store (dec_string v) hv_status hv_status_update e
      else (e, True))"

definition envelope_member :: "string \<Rightarrow> json \<Rightarrow> hook_envelope \<Rightarrow> hook_envelope \<times> bool" where
  "envelope_member k v e =
     (if is_field ''event'' k then store (dec_string v) hv_event hv_event_update e
      else if is_field ''data'' k then dec_struct envelope_data_member v e
      else (e, True))"

definition normalize_herdr_hook :: "(string \<Rightarrow> string) \<Rightarrow> string \<Rightarrow> string \<Rightarrow> string \<Rightarrow> herdr_dirty_event result" where
  "normalize_herdr_hook sha256_hex trigger payload socket =
     (if MaxHookInput < length payload \<or> bad_socket_text socket then fail ''invalid Herdr socket''
      else let path = clean_path socket in
        if trigger = ''startup'' then
          Inr \<lparr>de_type = HerdrDirtyEventType, de_binding_key = herdr_binding_key sha256_hex path, de_pane_id = [],
               de_socket_path = path, de_baseline = True\<rparr>
        else if trigger \<noteq> ''pane.agent_status_changed'' then fail ''invalid Herdr hook''
        else case unmarshal (dec_struct envelope_member) payload \<lparr>hv_event = [], hv_type = [], hv_pane_id = [], hv_status = []\<rparr> of
            Inl _ \<Rightarrow> fail ''invalid Herdr hook''
          | Inr e \<Rightarrow>
              if hv_event e \<noteq> ''pane_agent_status_changed'' \<or> hv_type e \<noteq> ''pane_agent_status_changed'' \<or>
                 \<not> valid_id (hv_pane_id e) \<or> \<not> valid_herdr_status (hv_status e) \<or> \<not> is_abs path
              then fail ''invalid Herdr hook''
              else Inr \<lparr>de_type = HerdrDirtyEventType, de_binding_key = herdr_binding_key sha256_hex path,
                        de_pane_id = hv_pane_id e, de_socket_path = path, de_baseline = False\<rparr>)"

end
