(* ===== verification/Ipc.thy ===== *)
theory Ipc
  imports Herdr_Api
begin

text \<open>
  \<open>internal/agent/hook.go\<close> and the messages of \<open>internal/agent/ipc.go\<close>: the reduction of a Codex hook
  payload to identifiers, the request lines of the daemon's socket and what the clients make of the
  daemon's reply. Dialling and deadlines are not modelled; \<open>None\<close> as a reply is a failed connection.
\<close>

definition MaxIPCMessage :: nat where "MaxIPCMessage = 16 * 1024"

section \<open>The hook payload\<close>

record codex_hook_input =
  ci_session_id :: string
  ci_turn_id :: string
  ci_hook_event_name :: string
  ci_request_id :: string
  ci_tool_use_id :: string

definition hook_input_member :: "string \<Rightarrow> json \<Rightarrow> codex_hook_input \<Rightarrow> codex_hook_input \<times> bool" where
  "hook_input_member k v i =
     (if is_field ''session_id'' k then store (dec_string v) ci_session_id ci_session_id_update i
      else if is_field ''turn_id'' k then store (dec_string v) ci_turn_id ci_turn_id_update i
      else if is_field ''hook_event_name'' k then store (dec_string v) ci_hook_event_name ci_hook_event_name_update i
      else if is_field ''request_id'' k then store (dec_string v) ci_request_id ci_request_id_update i
      else if is_field ''tool_use_id'' k then store (dec_string v) ci_tool_use_id ci_tool_use_id_update i
      else (i, True))"

definition zero_hook_input :: codex_hook_input where
  "zero_hook_input = \<lparr>ci_session_id = [], ci_turn_id = [], ci_hook_event_name = [], ci_request_id = [], ci_tool_use_id = []\<rparr>"

text \<open>
  \<open>NormalizeHook\<close> up to the size check: one value is decoded from a reader limited to
  \<open>MaxHookInput + 1\<close> bytes, and only white space may follow it.
\<close>

definition read_hook_input :: "string \<Rightarrow> codex_hook_input result" where
  "read_hook_input input =
     (case parse_prefix (take (MaxHookInput + 1) input) of
        None \<Rightarrow> fail ''invalid hook JSON''
      | Some (j, rest) \<Rightarrow>
          (let (i, ok) = dec_struct hook_input_member j zero_hook_input
           in if \<not> ok then fail ''invalid hook JSON''
              else if skip_ws rest \<noteq> [] then fail ''hook input contains trailing JSON''
              else if MaxHookInput < length input then fail ''hook input exceeds size limit''
              else Inr i))"

definition hook_input_event :: "gotime \<Rightarrow> codex_hook_input \<Rightarrow> hook_event result" where
  "hook_input_event now i =
     (if ci_session_id i = [] \<or> ci_turn_id i = [] then fail ''hook is missing session_id or turn_id''
      else
        (let event = \<lparr>he_protocol_version = Version, he_event_type = [], he_thread_id = ci_session_id i,
               he_turn_id = ci_turn_id i,
               he_request_id = (if ci_request_id i \<noteq> [] then ci_request_id i else ci_tool_use_id i),
               he_occurred_at = utc now\<rparr>
         in if ci_hook_event_name i = ''PermissionRequest'' then Inr (event\<lparr>he_event_type := EventApprovalRequired\<rparr>)
            else if ci_hook_event_name i = ''Stop'' then Inr (event\<lparr>he_event_type := EventTurnStopped\<rparr>)
            else fail ''unsupported hook event''))"

definition normalize_hook :: "string \<Rightarrow> gotime \<Rightarrow> hook_event result" where
  "normalize_hook input now = (case read_hook_input input of Inl e \<Rightarrow> Inl e | Inr i \<Rightarrow> hook_input_event now i)"

text \<open>\<open>WriteNeutralVerdict\<close>: the only answer the hook ever gives Codex.\<close>

definition neutral_verdict :: string where
  "neutral_verdict = ''{}'' @ [CHR 10]"

section \<open>Replies\<close>

definition ipc_response_json :: "ipc_response \<Rightarrow> json" where
  "ipc_response_json r = JObj ([(''accepted'', JBool (ir_accepted r))] @ opt_member ''error'' (ir_error r))"

definition ipc_response_member :: "string \<Rightarrow> json \<Rightarrow> ipc_response \<Rightarrow> ipc_response \<times> bool" where
  "ipc_response_member k v r =
     (if is_field ''accepted'' k then store (dec_bool v) ir_accepted ir_accepted_update r
      else if is_field ''error'' k then store (dec_string v) ir_error ir_error_update r
      else (r, True))"

definition info_response_json :: "daemon_info_response \<Rightarrow> json" where
  "info_response_json r = JObj
     (opt_member ''version'' (dr_version r) @
      (if dr_capabilities r = [] then [] else [(''capabilities'', JArr (map JStr (dr_capabilities r)))]) @
      (if dr_queue_depth r = 0 then [] else [(''queueDepth'', JNum (format_int (dr_queue_depth r)))]) @
      opt_member ''registrationState'' (dr_registration_state r) @
      opt_member ''error'' (dr_error r))"

definition info_response_member :: "string \<Rightarrow> json \<Rightarrow> daemon_info_response \<Rightarrow> daemon_info_response \<times> bool" where
  "info_response_member k v r =
     (if is_field ''version'' k then store (dec_string v) dr_version dr_version_update r
      else if is_field ''capabilities'' k then store (dec_slice dec_string [] v) dr_capabilities dr_capabilities_update r
      else if is_field ''queueDepth'' k then store (dec_int v) dr_queue_depth dr_queue_depth_update r
      else if is_field ''registrationState'' k then store (dec_string v) dr_registration_state dr_registration_state_update r
      else if is_field ''error'' k then store (dec_string v) dr_error dr_error_update r
      else (r, True))"

definition zero_info_response :: daemon_info_response where
  "zero_info_response = \<lparr>dr_version = [], dr_capabilities = [], dr_queue_depth = 0, dr_registration_state = [], dr_error = []\<rparr>"

text \<open>\<open>json.NewEncoder(connection).Encode\<close> and \<open>json.NewDecoder(connection).Decode\<close>\<close>

definition encode_line :: "json \<Rightarrow> string" where
  "encode_line j = json_print j @ [CHR 10]"

definition decode_line :: "(json \<Rightarrow> 'a \<Rightarrow> 'a \<times> bool) \<Rightarrow> string \<Rightarrow> 'a \<Rightarrow> 'a result" where
  "decode_line d s zero =
     (case parse_prefix s of
        None \<Rightarrow> fail ''unexpected EOF''
      | Some (j, _) \<Rightarrow> (let (x, ok) = d j zero in if ok then Inr x else fail ''cannot unmarshal''))"

section \<open>Clients\<close>

text \<open>\<open>sendHookIPC\<close>, given the daemon's reply to the encoded event.\<close>

definition send_hook_ipc :: "string result \<Rightarrow> (string \<Rightarrow> string option) \<Rightarrow> unit result" where
  "send_hook_ipc line daemon =
     (case line of
        Inl e \<Rightarrow> Inl e
      | Inr request \<Rightarrow>
          (case daemon request of
             None \<Rightarrow> fail ''dial unix''
           | Some reply \<Rightarrow>
               (case decode_line (dec_struct ipc_response_member) reply \<lparr>ir_accepted = False, ir_error = []\<rparr> of
                  Inl e \<Rightarrow> Inl e
                | Inr r \<Rightarrow> if ir_accepted r then Inr () else fail ''daemon rejected hook event'')))"

definition send_ipc :: "hook_event \<Rightarrow> (string \<Rightarrow> string option) \<Rightarrow> unit result" where
  "send_ipc event daemon = send_hook_ipc (encode_hook_event event) daemon"

definition send_herdr_ipc :: "herdr_dirty_event \<Rightarrow> (string \<Rightarrow> string option) \<Rightarrow> unit result" where
  "send_herdr_ipc event daemon = send_hook_ipc (encode_dirty_event event) daemon"

definition info_request_line :: string where
  "info_request_line = encode_line (JObj [(''type'', JStr DaemonInfoRequestType)])"

definition read_daemon_info :: "(string \<Rightarrow> string option) \<Rightarrow> daemon_info_response result" where
  "read_daemon_info daemon =
     (case daemon info_request_line of
        None \<Rightarrow> fail ''dial unix''
      | Some reply \<Rightarrow>
          (case decode_line (dec_struct info_response_member) reply zero_info_response of
             Inl e \<Rightarrow> Inl e
           | Inr r \<Rightarrow>
               if dr_error r \<noteq> [] then Inl (ErrMsg (dr_error r))
               else if dr_version r = [] then fail ''daemon did not report a version''
               else Inr r))"

section \<open>The socket\<close>

text \<open>\<open>ListenIPC\<close> looks at what is at the socket path and replaces only a socket. The result is whether a
  stale socket was removed before listening.\<close>

datatype path_entry = NoEntry | SocketEntry | OtherEntry | LstatFails string

definition listen_ipc :: "path_entry \<Rightarrow> bool result" where
  "listen_ipc entry =
     (case entry of
        NoEntry \<Rightarrow> Inr False
      | SocketEntry \<Rightarrow> Inr True
      | OtherEntry \<Rightarrow> fail ''refusing to replace non-socket IPC path''
      | LstatFails e \<Rightarrow> fail e)"

section \<open>Decoding what was encoded\<close>

lemma decode_line_print:
  "json_ok v \<Longrightarrow> decode_line d (encode_line v) zero = (let (x, ok) = d v zero in if ok then Inr x else fail ''cannot unmarshal'')"
  using parse_prefix_layout[of v "\<lambda>_. []" "'':''" "[CHR 10]" 0]
  by (simp add: decode_line_def encode_line_def json_print_def layout_ok_def all_ws_def skip_ws_def is_ws_def ends_value_def)

lemma ipc_response_fields:
  "ipc_response_member ''accepted'' v r = store (dec_bool v) ir_accepted ir_accepted_update r"
  "ipc_response_member ''error'' v r = store (dec_string v) ir_error ir_error_update r"
  by (simp_all add: ipc_response_member_def is_field_ascii ascii_def byte_def fold_rune_def)

lemma dec_ipc_response:
  "dec_struct ipc_response_member (ipc_response_json r) \<lparr>ir_accepted = False, ir_error = []\<rparr> = (r, True)"
  by (cases r) (simp add: ipc_response_json_def dec_members_append dec_opt_member ipc_response_fields store_def)

lemma ipc_response_ok: "valid_utf8 (ir_error r) \<Longrightarrow> json_ok (ipc_response_json r)"
  by (simp add: ipc_response_json_def opt_member_ok key_utf8 byte_def)

definition ipc_response_line :: "ipc_response \<Rightarrow> string result" where
  "ipc_response_line r = Inr (encode_line (ipc_response_json r))"

definition read_ipc_response :: "string \<Rightarrow> ipc_response result" where
  "read_ipc_response reply = decode_line (dec_struct ipc_response_member) reply \<lparr>ir_accepted = False, ir_error = []\<rparr>"

interpretation response_codec: codec ipc_response_line read_ipc_response "\<lambda>r. valid_utf8 (ir_error r)"
  by unfold_locales
    (auto simp: ipc_response_line_def read_ipc_response_def decode_line_print ipc_response_ok dec_ipc_response)

end
