(* ===== verification/Url.thy ===== *)
theory Url
  imports Paths
begin

text \<open>
  Packages \<open>net/url\<close> and \<open>net\<close> as \<open>parseNotificationEndpoint\<close> in \<open>internal/agent/register.go\<close> uses
  them: \<open>Parse\<close>, \<open>String\<close>, \<open>Hostname\<close>, \<open>ParseIP\<close> and \<open>IsLoopback\<close>, with the stricter host rules of the
  Go release the module names. User information is only recognised, since an endpoint with it is refused.
\<close>

section \<open>Escaping\<close>

definition is_alpha :: "char \<Rightarrow> bool" where
  "is_alpha c \<longleftrightarrow> 97 \<le> byte c \<and> byte c \<le> 122 \<or> 65 \<le> byte c \<and> byte c \<le> 90"

definition unreserved :: "char \<Rightarrow> bool" where
  "unreserved c \<longleftrightarrow> is_alpha c \<or> is_digit c \<or> c \<in> set ''-_.~''"

definition host_char :: "char \<Rightarrow> bool" where
  "host_char c \<longleftrightarrow> unreserved c \<or> c \<in> set ''!$&()*+,;=:[]<>'' \<or> byte c = 39 \<or> byte c = 34"

text \<open>The bytes \<open>escape(path, encodePath)\<close> leaves alone.\<close>

definition path_char :: "char \<Rightarrow> bool" where
  "path_char c \<longleftrightarrow> unreserved c \<or> c \<in> set ''$&+,/:;=@''"

datatype url_mode = HostMode | ZoneMode | PathMode

fun unescape :: "url_mode \<Rightarrow> string \<Rightarrow> string option" where
  "unescape mode [] = Some []"
| "unescape mode (c # cs) =
     (if c = CHR ''%'' then
        (case cs of
           h # l # rest \<Rightarrow>
             (case (hex_value h, hex_value l) of
                (Some x, Some y) \<Rightarrow>
                  let v = chr (16 * x + y) in
                  if mode = HostMode \<and> x < 8 \<and> [h, l] \<noteq> ''25'' then None
                  else if mode = ZoneMode \<and> [h, l] \<noteq> ''25'' \<and> v \<noteq> CHR '' '' \<and> \<not> host_char v then None
                  else map_option (Cons v) (unescape mode rest)
              | _ \<Rightarrow> None)
         | _ \<Rightarrow> None)
      else if mode \<noteq> PathMode \<and> byte c < 128 \<and> \<not> host_char c then None
      else map_option (Cons c) (unescape mode cs))"

definition upper_hex :: "int \<Rightarrow> char" where
  "upper_hex d = (if d < 10 then chr (48 + d) else chr (55 + d))"

definition escape_with :: "(char \<Rightarrow> bool) \<Rightarrow> string \<Rightarrow> string" where
  "escape_with keep s = concat (map (\<lambda>c. if keep c then [c] else [CHR ''%'', upper_hex (byte c div 16), upper_hex (byte c mod 16)]) s)"

section \<open>Addresses\<close>

definition parse_octet :: "string \<Rightarrow> int option" where
  "parse_octet s =
     (if s \<noteq> [] \<and> length s \<le> 3 \<and> list_all is_digit s \<and> (length s = 1 \<or> hd s \<noteq> CHR ''0'') \<and> digits_value s \<le> 255
      then Some (digits_value s) else None)"

definition parse_ipv4 :: "string \<Rightarrow> int list option" where
  "parse_ipv4 s =
     (case map parse_octet (split_on (CHR ''.'') s) of
        [Some a, Some b, Some c, Some d] \<Rightarrow> Some [a, b, c, d]
      | _ \<Rightarrow> None)"

definition parse_group :: "string \<Rightarrow> int option" where
  "parse_group s =
     (if s \<noteq> [] \<and> length s \<le> 4 \<and> list_all (\<lambda>c. hex_value c \<noteq> None) s
      then Some (foldl (\<lambda>v c. 16 * v + (case hex_value c of Some d \<Rightarrow> d | None \<Rightarrow> 0)) 0 s) else None)"

text \<open>The 16-bit groups between colons; only the last one may be an embedded IPv4 address.\<close>

fun parse_groups :: "string list \<Rightarrow> int list option" where
  "parse_groups [] = Some []"
| "parse_groups [s] =
     (case parse_group s of
        Some g \<Rightarrow> Some [g]
      | None \<Rightarrow> (case parse_ipv4 s of Some [a, b, c, d] \<Rightarrow> Some [256 * a + b, 256 * c + d] | _ \<Rightarrow> None))"
| "parse_groups (s # t # ss) =
     (case (parse_group s, parse_groups (t # ss)) of (Some g, Some gs) \<Rightarrow> Some (g # gs) | _ \<Rightarrow> None)"

fun cut_double_colon :: "string \<Rightarrow> (string \<times> string) option" where
  "cut_double_colon (c # d # cs) =
     (if c = CHR '':'' \<and> d = CHR '':'' then Some ([], cs)
      else map_option (\<lambda>(a, b). (c # a, b)) (cut_double_colon (d # cs)))"
| "cut_double_colon _ = None"

definition groups_of :: "string \<Rightarrow> int list option" where
  "groups_of s = (if s = [] then Some [] else parse_groups (split_on (CHR '':'') s))"

definition parse_ipv6 :: "string \<Rightarrow> int list option" where
  "parse_ipv6 s =
     (case cut_double_colon s of
        None \<Rightarrow> (case groups_of s of Some gs \<Rightarrow> if length gs = 8 then Some gs else None | None \<Rightarrow> None)
      | Some (l, r) \<Rightarrow>
          (case (groups_of l, groups_of r) of
             (Some gl, Some gr) \<Rightarrow>
               if length gl + length gr < 8 \<and> (CHR ''.'' \<notin> set l)
               then Some (gl @ replicate (8 - length gl - length gr) 0 @ gr) else None
           | _ \<Rightarrow> None))"

text \<open>\<open>net.ParseIP(s)\<close> is not nil and \<open>IsLoopback\<close>.\<close>

definition loopback_address :: "string \<Rightarrow> bool" where
  "loopback_address s =
     (case parse_ipv4 s of
        Some v \<Rightarrow> hd v = 127
      | None \<Rightarrow>
          (case parse_ipv6 s of
             Some gs \<Rightarrow> gs = [0, 0, 0, 0, 0, 0, 0, 1] \<or> (take 6 gs = [0, 0, 0, 0, 0, 65535] \<and> (gs ! 6) div 256 = 127)
           | None \<Rightarrow> False))"

section \<open>Parsing\<close>

record url =
  u_scheme :: string
  u_opaque :: string
  u_has_user :: bool
  u_host :: string
  u_path :: string
  u_raw_path :: string
  u_force_query :: bool
  u_raw_query :: string
  u_fragment :: string

definition has_control :: "string \<Rightarrow> bool" where
  "has_control s \<longleftrightarrow> list_ex (\<lambda>c. byte c < 32 \<or> byte c = 127) s"

text \<open>The scheme and the rest; \<open>None\<close> for a colon in front.\<close>

fun scan_scheme :: "string \<Rightarrow> string \<Rightarrow> (string \<times> string) option" where
  "scan_scheme pre [] = None"
| "scan_scheme pre (c # cs) =
     (if is_alpha c then scan_scheme (pre @ [c]) cs
      else if is_digit c \<or> c \<in> set ''+-.'' then (if pre = [] then None else scan_scheme (pre @ [c]) cs)
      else if c = CHR '':'' then Some (pre, cs)
      else None)"

definition get_scheme :: "string \<Rightarrow> (string \<times> string) option" where
  "get_scheme raw =
     (case scan_scheme [] raw of
        None \<Rightarrow> Some ([], raw)
      | Some (s, rest) \<Rightarrow> if s = [] then None else Some (map lower s, rest))"

definition valid_optional_port :: "string \<Rightarrow> bool" where
  "valid_optional_port s \<longleftrightarrow> s = [] \<or> hd s = CHR '':'' \<and> list_all is_digit (tl s)"

definition find_sub :: "string \<Rightarrow> string \<Rightarrow> nat option" where
  "find_sub p s = find (\<lambda>i. has_prefix (drop i s) p) [0..<length s]"

definition parse_bracket_host :: "string \<Rightarrow> string option" where
  "parse_bracket_host host =
     (let rev_tail = dropWhile (\<lambda>c. c \<noteq> CHR '']'') (rev host);
          port = rev (takeWhile (\<lambda>c. c \<noteq> CHR '']'') (rev host));
          name = drop 1 (rev (drop 1 rev_tail))
      in if rev_tail = [] \<or> \<not> valid_optional_port port then None
         else (case (case find_sub ''%25'' name of
                       None \<Rightarrow> unescape HostMode name
                     | Some z \<Rightarrow>
                         (case (unescape HostMode (take z name), unescape ZoneMode (drop z name)) of
                            (Some a, Some b) \<Rightarrow> Some (a @ b)
                          | _ \<Rightarrow> None)) of
                 None \<Rightarrow> None
               | Some n \<Rightarrow>
                   (case cut (CHR ''%'') n of
                      (addr, zid, found) \<Rightarrow>
                        if parse_ipv6 addr = None \<or> found \<and> zid = [] then None
                        else Some (CHR ''['' # n @ CHR '']'' # port))))"

definition parse_host :: "string \<Rightarrow> string option" where
  "parse_host host =
     (if CHR ''['' \<in> set host then
        (if hd host = CHR ''['' \<and> CHR ''['' \<notin> set (tl host) then parse_bracket_host host else None)
      else if \<not> valid_optional_port (dropWhile (\<lambda>c. c \<noteq> CHR '':'') host) then None
      else unescape HostMode host)"

definition set_path :: "string \<Rightarrow> url \<Rightarrow> url option" where
  "set_path p u =
     (case unescape PathMode p of
        None \<Rightarrow> None
      | Some path \<Rightarrow> Some (u\<lparr>u_path := path, u_raw_path := (if p = escape_with path_char path then [] else p)\<rparr>))"

definition split_query :: "string \<Rightarrow> string \<times> bool \<times> string" where
  "split_query rest =
     (if has_suffix rest ''?'' \<and> length (filter (\<lambda>c. c = CHR ''?'') rest) = 1 then (butlast rest, True, [])
      else (case cut (CHR ''?'') rest of (pre, query, _) \<Rightarrow> (pre, False, query)))"

definition parse_reference :: "string \<Rightarrow> url option" where
  "parse_reference raw =
     (if has_control raw then None
      else case get_scheme raw of
          None \<Rightarrow> None
        | Some (scheme, tail) \<Rightarrow>
            (let (rest, force, query) = split_query tail;
                 u = \<lparr>u_scheme = scheme, u_opaque = [], u_has_user = False, u_host = [], u_path = [], u_raw_path = [],
                      u_force_query = force, u_raw_query = query, u_fragment = []\<rparr>
             in if raw = ''*'' then Some (u\<lparr>u_path := ''*''\<rparr>)
                else if \<not> has_prefix rest ''/'' \<and> scheme \<noteq> [] then Some (u\<lparr>u_opaque := rest\<rparr>)
                else if \<not> has_prefix rest ''/'' \<and> CHR '':'' \<in> set (fst (cut (CHR ''/'') rest)) then None
                else if has_prefix rest ''//'' \<and> (scheme \<noteq> [] \<or> \<not> has_prefix rest ''///'') then
                  (let authority = takeWhile (\<lambda>c. c \<noteq> CHR ''/'') (drop 2 rest);
                       path = dropWhile (\<lambda>c. c \<noteq> CHR ''/'') (drop 2 rest)
                   in if CHR ''@'' \<in> set authority then set_path path (u\<lparr>u_has_user := True\<rparr>)
                      else case parse_host authority of
                          None \<Rightarrow> None
                        | Some h \<Rightarrow> set_path path (u\<lparr>u_host := h\<rparr>))
                else set_path rest u))"

definition url_parse :: "string \<Rightarrow> url option" where
  "url_parse raw =
     (case cut (CHR ''#'') raw of
        (pre, frag, _) \<Rightarrow>
          (case parse_reference pre of
             None \<Rightarrow> None
           | Some u \<Rightarrow>
               if frag = [] then Some u
               else (case unescape PathMode frag of None \<Rightarrow> None | Some f \<Rightarrow> Some (u\<lparr>u_fragment := f\<rparr>))))"

section \<open>Printing\<close>

definition valid_path_encoding :: "string \<Rightarrow> bool" where
  "valid_path_encoding s \<longleftrightarrow> list_all (\<lambda>c. path_char c \<or> c \<in> set ''!()*[]%'' \<or> byte c = 39) s"

definition escaped_path :: "url \<Rightarrow> string" where
  "escaped_path u =
     (if u_raw_path u \<noteq> [] \<and> valid_path_encoding (u_raw_path u) \<and> unescape PathMode (u_raw_path u) = Some (u_path u)
      then u_raw_path u
      else if u_path u = ''*'' then ''*'' else escape_with path_char (u_path u))"

text \<open>\<open>String\<close> for a URL with a host and neither user nor fragment, the only ones the agent prints.\<close>

definition url_text :: "url \<Rightarrow> string" where
  "url_text u =
     (if u_scheme u \<noteq> [] then u_scheme u @ '':'' else []) @ ''//'' @ escape_with host_char (u_host u) @
     (let p = escaped_path u in if p \<noteq> [] \<and> hd p \<noteq> CHR ''/'' then CHR ''/'' # p else p) @
     (if u_force_query u \<or> u_raw_query u \<noteq> [] then CHR ''?'' # u_raw_query u else [])"

definition hostname :: "url \<Rightarrow> string" where
  "hostname u =
     (let h = u_host u;
          port = CHR '':'' # rev (takeWhile (\<lambda>c. c \<noteq> CHR '':'') (rev h));
          h1 = (if CHR '':'' \<in> set h \<and> valid_optional_port port then take (length h - length port) h else h)
      in if has_prefix h1 ''['' \<and> has_suffix h1 '']'' then tl (butlast h1) else h1)"

section \<open>The endpoint\<close>

definition parse_notification_endpoint :: "string \<Rightarrow> url result" where
  "parse_notification_endpoint raw =
     (case url_parse raw of
        None \<Rightarrow> fail ''invalid notification endpoint''
      | Some u \<Rightarrow>
          if u_host u = [] \<or> u_has_user u \<or> u_fragment u \<noteq> [] then fail ''invalid notification endpoint''
          else if map lower (u_scheme u) = ''https'' then Inr u
          else if map lower (u_scheme u) = ''http'' \<and>
            (let host = trim_suffix (hostname u) ''.''
             in map fold_rune (runes host) = map byte ''localhost'' \<or> loopback_address host) then Inr u
          else fail ''notification endpoint must use HTTPS outside loopback development'')"

definition endpoint_text :: "string \<Rightarrow> string result" where
  "endpoint_text raw = (case parse_notification_endpoint raw of Inl e \<Rightarrow> Inl e | Inr u \<Rightarrow> Inr (url_text u))"

text \<open>\<open>base.Path = strings.TrimRight(base.Path, "/") + suffix; base.String()\<close>\<close>

definition endpoint_at :: "url \<Rightarrow> string \<Rightarrow> string" where
  "endpoint_at u suffix = url_text (u\<lparr>u_path := trim_right (CHR ''/'') (u_path u) @ suffix\<rparr>)"

definition secure_endpoint :: "url \<Rightarrow> bool" where
  "secure_endpoint u \<longleftrightarrow> u_host u \<noteq> [] \<and> \<not> u_has_user u \<and> u_fragment u = [] \<and>
     (map lower (u_scheme u) = ''https'' \<or>
      map lower (u_scheme u) = ''http'' \<and>
        (map fold_rune (runes (trim_suffix (hostname u) ''.'')) = map byte ''localhost'' \<or>
         loopback_address (trim_suffix (hostname u) ''.'')))"

lemma endpoint_secure: "parse_notification_endpoint raw = Inr u \<Longrightarrow> secure_endpoint u"
  by (auto simp: parse_notification_endpoint_def secure_endpoint_def Let_def split: option.splits if_splits)

end
