(* ===== verification/Config.thy ===== *)
theory Config
  imports Url Herdr_Api
begin

text \<open>
  \<open>internal/agent/config.go\<close>: the agent's paths and its configuration file. A file system is a map from
  paths to permission bits and contents; creating directories and I/O failures are not modelled, and the
  rename at the end of \<open>SaveConfig\<close> is one step.
\<close>

section \<open>Paths\<close>

record agent_paths =
  ap_config_dir :: string
  ap_state_dir :: string
  ap_config_file :: string
  ap_key_file :: string
  ap_legacy_setup_token_file :: string
  ap_enrollment_lock :: string
  ap_database :: string
  ap_socket :: string

definition default_paths :: "string option \<Rightarrow> string \<Rightarrow> string \<Rightarrow> agent_paths result" where
  "default_paths home xdg_config xdg_state =
     (case home of
        None \<Rightarrow> fail ''$HOME is not defined''
      | Some h \<Rightarrow>
          (let config_base = (if xdg_config = [] then join_path [h, ''.config''] else xdg_config);
               state_base = (if xdg_state = [] then join_path [h, ''.local'', ''state''] else xdg_state);
               config_dir = join_path [config_base, ''novascale-agent''];
               state_dir = join_path [state_base, ''novascale-agent'']
           in Inr \<lparr>ap_config_dir = config_dir, ap_state_dir = state_dir,
                   ap_config_file = join_path [config_dir, ''config.json''],
                   ap_key_file = join_path [config_dir, ''host-key''],
                   ap_legacy_setup_token_file = join_path [config_dir, ''pending-setup-token''],
                   ap_enrollment_lock = join_path [config_dir, ''enrollment.lock''],
                   ap_database = join_path [state_dir, ''agent.db''],
                   ap_socket = join_path [state_dir, ''agent.sock'']\<rparr>))"

section \<open>The configuration\<close>

definition RegistrationPending :: string where "RegistrationPending = ''pending''"
definition RegistrationActive :: string where "RegistrationActive = ''active''"
definition RegistrationNeedsSetupToken :: string where "RegistrationNeedsSetupToken = ''needs_setup_token''"
definition RegistrationIdentityConflict :: string where "RegistrationIdentityConflict = ''identity_conflict''"

lemmas registration_defs = RegistrationPending_def RegistrationActive_def RegistrationNeedsSetupToken_def
  RegistrationIdentityConflict_def

record config =
  cf_version :: int
  cf_host_id :: string
  cf_endpoint :: string
  cf_registration_state :: string

definition config_json :: "config \<Rightarrow> json" where
  "config_json c = JObj
     [(''version'', JNum (format_int (cf_version c))), (''hostId'', JStr (cf_host_id c)),
      (''endpoint'', JStr (cf_endpoint c)), (''registrationState'', JStr (cf_registration_state c))]"

definition config_member :: "string \<Rightarrow> json \<Rightarrow> config \<Rightarrow> config \<times> bool" where
  "config_member k v c =
     (if is_field ''version'' k then store (dec_int v) cf_version cf_version_update c
      else if is_field ''hostId'' k then store (dec_string v) cf_host_id cf_host_id_update c
      else if is_field ''endpoint'' k then store (dec_string v) cf_endpoint cf_endpoint_update c
      else if is_field ''registrationState'' k then store (dec_string v) cf_registration_state cf_registration_state_update c
      else (c, True))"

definition zero_config :: config where
  "zero_config = \<lparr>cf_version = 0, cf_host_id = [], cf_endpoint = [], cf_registration_state = []\<rparr>"

definition validate_config :: "config \<Rightarrow> unit result" where
  "validate_config c =
     (if cf_version c \<noteq> 1 \<or> cf_host_id c = [] \<or> cf_endpoint c = [] then fail ''invalid agent configuration''
      else if cf_registration_state c \<noteq> RegistrationPending \<and> cf_registration_state c \<noteq> RegistrationActive \<and>
              cf_registration_state c \<noteq> RegistrationNeedsSetupToken \<and>
              cf_registration_state c \<noteq> RegistrationIdentityConflict
        then fail ''invalid agent registration state''
      else case parse_notification_endpoint (cf_endpoint c) of
          Inl _ \<Rightarrow> fail ''invalid notification endpoint in agent configuration''
        | Inr _ \<Rightarrow> Inr ())"

definition config_ok :: "config \<Rightarrow> bool" where
  "config_ok c \<longleftrightarrow> validate_config c = Inr ()"

definition parse_config :: "string \<Rightarrow> config result" where
  "parse_config data =
     (case unmarshal (dec_struct config_member) data zero_config of
        Inl e \<Rightarrow> Inl e
      | Inr c \<Rightarrow> (case validate_config c of Inl e \<Rightarrow> Inl e | Inr _ \<Rightarrow> Inr c))"

definition config_text :: "config \<Rightarrow> string result" where
  "config_text c =
     (case validate_config c of Inl e \<Rightarrow> Inl e | Inr _ \<Rightarrow> Inr (json_print_indent (config_json c) @ [CHR 10]))"

section \<open>Files\<close>

record disk_file =
  fi_mode :: int
  fi_content :: string

type_synonym file_system = "string \<Rightarrow> disk_file option"

definition load_config :: "string \<Rightarrow> file_system \<Rightarrow> config result" where
  "load_config path fs = (case fs path of None \<Rightarrow> Inl ErrNotExist | Some f \<Rightarrow> parse_config (fi_content f))"

definition write_file :: "string \<Rightarrow> int \<Rightarrow> string \<Rightarrow> file_system \<Rightarrow> file_system" where
  "write_file path mode text fs = fs(path \<mapsto> \<lparr>fi_mode = mode, fi_content = text\<rparr>)"

definition rename_file :: "string \<Rightarrow> string \<Rightarrow> file_system \<Rightarrow> file_system" where
  "rename_file src dst fs = (fs(dst := fs src))(src := None)"

text \<open>\<open>SaveConfig\<close>: the temporary file is written, restricted to the owner (384 is octal 600) and renamed.\<close>

definition save_config :: "string \<Rightarrow> config \<Rightarrow> file_system \<Rightarrow> file_system result" where
  "save_config path c fs =
     (case config_text c of
        Inl e \<Rightarrow> Inl e
      | Inr text \<Rightarrow>
          (let temporary = path @ ''.tmp''
           in Inr (rename_file temporary path (write_file temporary 384 text fs))))"

section \<open>The round trip\<close>

definition config_wf :: "config \<Rightarrow> bool" where
  "config_wf c \<longleftrightarrow> valid_utf8 (cf_host_id c) \<and> valid_utf8 (cf_endpoint c)"

lemma validate_shape:
  "validate_config c = Inr u \<Longrightarrow> cf_version c = 1 \<and> cf_host_id c \<noteq> [] \<and> cf_registration_state c \<in>
     {RegistrationPending, RegistrationActive, RegistrationNeedsSetupToken, RegistrationIdentityConflict} \<and>
     (\<exists>e. parse_notification_endpoint (cf_endpoint c) = Inr e)"
  by (auto simp: validate_config_def split: if_splits sum.splits)

lemma config_fields:
  "config_member ''version'' v c = store (dec_int v) cf_version cf_version_update c"
  "config_member ''hostId'' v c = store (dec_string v) cf_host_id cf_host_id_update c"
  "config_member ''endpoint'' v c = store (dec_string v) cf_endpoint cf_endpoint_update c"
  "config_member ''registrationState'' v c = store (dec_string v) cf_registration_state cf_registration_state_update c"
  by (simp_all add: config_member_def is_field_ascii ascii_def byte_def fold_rune_def)

lemma config_json_ok:
  assumes "validate_config c = Inr u" "config_wf c"
  shows "json_ok (config_json c)"
  using validate_shape[OF assms(1)] assms(2)
  by (auto simp: config_json_def config_wf_def key_utf8 byte_def registration_defs)

lemma dec_config_json:
  assumes "validate_config c = Inr u"
  shows "dec_struct config_member (config_json c) zero_config = (c, True)"
proof -
  have "parse_int64 (format_int (cf_version c)) = Some (cf_version c)"
    using validate_shape[OF assms] by (intro parse_int64_format) simp_all
  then show ?thesis
    by (cases c) (simp add: config_json_def zero_config_def config_fields store_int)
qed

lemma parse_config_text:
  assumes "config_wf c" "config_text c = Inr text"
  shows "parse_config text = Inr c"
proof -
  obtain u where u: "validate_config c = Inr u" and t: "text = json_print_indent (config_json c) @ [CHR 10]"
    using assms(2) by (auto simp: config_text_def split: sum.splits)
  then show ?thesis
    using json_parse_print_indent[OF config_json_ok[OF u assms(1)]] dec_config_json[OF u]
    by (simp add: parse_config_def unmarshal_def)
qed

interpretation config_codec: codec config_text parse_config config_wf
  by unfold_locales (rule parse_config_text)

lemma save_config_files:
  assumes "save_config path c fs = Inr fs'"
  shows "\<exists>text. config_text c = Inr text \<and> fs' path = Some \<lparr>fi_mode = 384, fi_content = text\<rparr> \<and>
    fs' (path @ ''.tmp'') = None \<and> (\<forall>p. p \<noteq> path \<and> p \<noteq> path @ ''.tmp'' \<longrightarrow> fs' p = fs p)"
proof -
  obtain data where t: "config_text c = Inr data"
    using assms by (cases "config_text c") (simp_all add: save_config_def)
  define tmp where "tmp = path @ ''.tmp''"
  have ne: "tmp \<noteq> path"
    by (simp add: tmp_def)
  have "fs' = rename_file tmp path (write_file tmp 384 data fs)"
    using assms t by (simp add: save_config_def tmp_def Let_def)
  then show ?thesis
    using t ne unfolding tmp_def [symmetric] by (simp add: rename_file_def write_file_def)
qed

section \<open>Properties\<close>

text \<open>A configuration that \<open>SaveConfig\<close> wrote is read back by \<open>LoadConfig\<close>; the file is readable by the
  owner only, no temporary file is left, and no other file changes.\<close>

theorem config_save_load:
  assumes "save_config path c fs = Inr fs'" "config_wf c"
  shows "load_config path fs' = Inr c \<and> map_option fi_mode (fs' path) = Some 384 \<and> fs' (path @ ''.tmp'') = None \<and>
    (p \<noteq> path \<and> p \<noteq> path @ ''.tmp'' \<longrightarrow> fs' p = fs p)"
proof -
  obtain data where d: "config_text c = Inr data" "fs' path = Some \<lparr>fi_mode = 384, fi_content = data\<rparr>"
      "fs' (path @ ''.tmp'') = None" "\<forall>p. p \<noteq> path \<and> p \<noteq> path @ ''.tmp'' \<longrightarrow> fs' p = fs p"
    using save_config_files[OF assms(1)] by blast
  have "load_config path fs' = Inr c"
    using d(2) config_codec.decode_encode[OF assms(2) d(1)] by (simp add: load_config_def)
  then show ?thesis
    using d(2-4) by simp
qed

definition sample_config :: config where
  "sample_config = \<lparr>cf_version = 1, cf_host_id = ''host'', cf_endpoint = ''https://b.example'', cf_registration_state = ''active''\<rparr>"

theorem config_save_load_witness:
  "\<exists>fs'. save_config ''/c/config.json'' sample_config (\<lambda>_. None) = Inr fs' \<and> load_config ''/c/config.json'' fs' = Inr sample_config"
proof -
  have "is_ok (config_text sample_config)" by code_simp
  then obtain fs' where s: "save_config ''/c/config.json'' sample_config (\<lambda>_. None) = Inr fs'"
    by (auto simp: is_ok_iff save_config_def Let_def)
  have "config_wf sample_config" by code_simp
  then show ?thesis
    using config_save_load[OF s] s by blast
qed

text \<open>\<open>LoadConfig\<close> never returns an insecure configuration: a configuration it returns has an endpoint with
  HTTPS, or with HTTP on a loopback host, and one of the four registration states.\<close>

theorem loaded_config_secure:
  assumes "load_config path fs = Inr c"
  shows "\<exists>u. parse_notification_endpoint (cf_endpoint c) = Inr u \<and> secure_endpoint u \<and> cf_version c = 1 \<and>
    cf_host_id c \<noteq> [] \<and> cf_registration_state c \<in>
      {RegistrationPending, RegistrationActive, RegistrationNeedsSetupToken, RegistrationIdentityConflict}"
proof -
  have "\<exists>u. validate_config c = Inr u"
    using assms by (auto simp: load_config_def parse_config_def split: option.splits sum.splits)
  then show ?thesis
    using validate_shape endpoint_secure by blast
qed

definition sample_files :: file_system where
  "sample_files p = (if p = ''/c/config.json''
     then Some \<lparr>fi_mode = 384, fi_content = (case config_text sample_config of Inr t \<Rightarrow> t | Inl _ \<Rightarrow> [])\<rparr> else None)"

theorem loaded_config_secure_witness:
  "\<exists>u. parse_notification_endpoint ''https://b.example'' = Inr u \<and> secure_endpoint u"
proof -
  have "load_config ''/c/config.json'' sample_files = Inr sample_config"
    by code_simp
  from loaded_config_secure[OF this] show ?thesis
    by (auto simp: sample_config_def)
qed

end
