(* ===== verification/Herdr_State.thy ===== *)
theory Herdr_State
  imports Herdr_Api
begin

text \<open>
  \<open>internal/agent/herdr_state.go\<close>: the bindings of Herdr sockets to opaque session identifiers and
  \<open>ReconcileHerdr\<close>, the transaction that compares a snapshot of a server's agents with the stored
  panes and enqueues an event for each relevant transition. A transaction that fails leaves the database
  as it was, so it is a function to \<open>queue result\<close>. The identifiers of \<open>NewUUID\<close> are a parameter:
  \<open>uuid n\<close> is the result of the \<open>n\<close>-th call of the transaction.
\<close>

section \<open>Bindings\<close>

definition find_binding :: "string \<Rightarrow> queue \<Rightarrow> herdr_binding option" where
  "find_binding key q = find (\<lambda>b. hb_binding_key b = key) (q_bindings q)"

definition get_binding :: "string \<Rightarrow> queue \<Rightarrow> herdr_binding result" where
  "get_binding key q = (case find_binding key q of Some b \<Rightarrow> Inr b | None \<Rightarrow> Inl ErrNoRows)"

definition capture_enabled :: "queue \<Rightarrow> bool result" where
  "capture_enabled q = (case q_adapter q of Some b \<Rightarrow> Inr b | None \<Rightarrow> Inl ErrNoRows)"

definition bind_herdr :: "(string \<Rightarrow> string) \<Rightarrow> string result \<Rightarrow> string \<Rightarrow> gotime \<Rightarrow> queue \<Rightarrow> herdr_binding result \<times> queue" where
  "bind_herdr sha256_hex uuid socket now q =
     (let key = herdr_binding_key sha256_hex socket
      in case find_binding key q of
           Some b \<Rightarrow>
             if q_adapter q = Some True then
               (Inr (b\<lparr>hb_enabled := True\<rparr>),
                q\<lparr>q_bindings := map (\<lambda>c. if hb_binding_key c = key
                     then c\<lparr>hb_updated_at := unix now, hb_enabled := True\<rparr> else c) (q_bindings q)\<rparr>)
             else (Inl ErrNoRows, q)
         | None \<Rightarrow>
             (case uuid of
                Inl e \<Rightarrow> (Inl e, q)
              | Inr sid \<Rightarrow>
                  if length (q_bindings q) < 128 \<and> q_adapter q = Some True then
                    (if sid \<in> hb_session_id ` set (q_bindings q)
                     then (fail ''UNIQUE constraint failed: herdr_bindings.session_id'', q)
                     else (let b = \<lparr>hb_binding_key = key, hb_session_id = sid, hb_socket_path = socket,
                                    hb_incarnation = [], hb_updated_at = unix now, hb_enabled = True\<rparr>
                           in (Inr b, q\<lparr>q_bindings := q_bindings q @ [b]\<rparr>)))
                  else (Inl ErrNoRows, q)))"

text \<open>\<open>ORDER BY updated_at DESC LIMIT 128\<close>; rows with the same time are listed in rowid order.\<close>

definition herdr_bindings :: "queue \<Rightarrow> herdr_binding list" where
  "herdr_bindings q = take 128 (sort_key (\<lambda>b. - hb_updated_at b) (filter hb_enabled (q_bindings q)))"

section \<open>Observations\<close>

definition find_pane :: "string \<Rightarrow> string \<Rightarrow> herdr_pane list \<Rightarrow> herdr_pane option" where
  "find_pane key pane rows = find (\<lambda>p. hp_binding_key p = key \<and> hp_pane_id p = pane) rows"

text \<open>\<open>INSERT ... ON CONFLICT(binding_key, pane_id) DO UPDATE\<close>\<close>

definition put_pane :: "herdr_pane \<Rightarrow> herdr_pane list \<Rightarrow> herdr_pane list" where
  "put_pane p rows =
     (if find_pane (hp_binding_key p) (hp_pane_id p) rows = None then rows @ [p]
      else map (\<lambda>o1. if hp_binding_key o1 = hp_binding_key p \<and> hp_pane_id o1 = hp_pane_id p then p else o1) rows)"

text \<open>What the stored row of the pane says, with the zero values Go scans into when there is none.\<close>

definition pane_state :: "herdr_pane option \<Rightarrow> string \<times> int \<times> string" where
  "pane_state row = (case row of None \<Rightarrow> ([], 0, []) | Some p \<Rightarrow> (hp_terminal_id p, hp_sequence p, hp_status p))"

definition initial_observation :: "herdr_pane option \<Rightarrow> herdr_agent \<Rightarrow> bool" where
  "initial_observation row a \<longleftrightarrow>
     (case row of None \<Rightarrow> True | Some p \<Rightarrow> hp_terminal_id p \<noteq> ha_terminal_id a \<or> ha_sequence a < hp_sequence p)"

definition completed_work :: "string \<Rightarrow> herdr_agent \<Rightarrow> bool" where
  "completed_work status a \<longleftrightarrow>
     (if ha_completion_supported a then ha_completion_sequence a = Some (ha_sequence a) else status = ''working'')"

text \<open>The type of the event a transition sends, empty for none.\<close>

definition type_to_send :: "bool \<Rightarrow> herdr_pane option \<Rightarrow> herdr_agent \<Rightarrow> event_type" where
  "type_to_send baseline row a =
     (let (terminal, sequence, status) = pane_state row
      in if \<not> baseline \<and> \<not> initial_observation row a \<and> ha_agent a \<noteq> [] \<and> sequence < ha_sequence a then
           (if completed_work status a \<and> (ha_status a = ''idle'' \<or> ha_status a = ''done'') then EventProgressUpdated
            else if ha_status a = ''blocked'' \<and> status \<noteq> ''blocked'' then EventAttentionRequired
            else [])
         else [])"

definition agent_event :: "environment \<Rightarrow> herdr_binding \<Rightarrow> gotime \<Rightarrow> event_type \<Rightarrow> herdr_agent \<Rightarrow> host_event option" where
  "agent_event env binding now event a =
     Option.bind (agent_metadata a) (\<lambda>m.
     Option.bind (normalized (m\<lparr>hm_session_name := herdr_binding_session_name env (hb_socket_path binding)\<rparr>)) (\<lambda>n.
       Some \<lparr>ev_schema_version = HerdrVersion, ev_event_type = event, ev_thread_id = [], ev_turn_id = [], ev_request_id = [],
             ev_occurred_at = utc now, ev_source = SourceHerdr,
             ev_target = Some \<lparr>ht_session_id = hb_session_id binding, ht_pane_id = ha_pane_id a,
                               ht_codex_thread_id = codex_thread_id a, ht_test_installation_id = []\<rparr>,
             ev_herdr_metadata = Some n\<rparr>))"

definition drop_pane_events :: "string \<Rightarrow> string \<Rightarrow> pending_event list \<Rightarrow> pending_event list" where
  "drop_pane_events session pane = filter (\<lambda>r. \<not> (is_herdr r \<and> pe_session_id r = session \<and> pe_pane_id r = pane))"

definition drop_session_events :: "string \<Rightarrow> pending_event list \<Rightarrow> pending_event list" where
  "drop_session_events session = filter (\<lambda>r. \<not> (is_herdr r \<and> pe_session_id r = session))"

definition observed_pane :: "string \<Rightarrow> gotime \<Rightarrow> herdr_agent \<Rightarrow> herdr_pane" where
  "observed_pane key now a =
     \<lparr>hp_binding_key = key, hp_pane_id = ha_pane_id a, hp_terminal_id = ha_terminal_id a, hp_sequence = ha_sequence a,
      hp_status = ha_status a, hp_observed_at = unix now\<rparr>"

text \<open>The body of the loop over the agents; the counter is the number of identifiers drawn so far.\<close>

definition send_transition ::
  "environment \<Rightarrow> (nat \<Rightarrow> string result) \<Rightarrow> herdr_binding \<Rightarrow> gotime \<Rightarrow> event_type \<Rightarrow> herdr_agent \<Rightarrow> queue \<times> nat \<Rightarrow> (queue \<times> nat) result" where
  "send_transition env uuid binding now event a s =
     (if event = [] then Inr s
      else case agent_event env binding now event a of
          None \<Rightarrow> fail ''metadata does not fit''
        | Some e \<Rightarrow>
            (case marshal_host_event e of
               Inl err \<Rightarrow> Inl err
             | Inr body \<Rightarrow>
                 (case uuid (snd s) of
                    Inl err \<Rightarrow> Inl err
                  | Inr i \<Rightarrow> Inr (enqueue_event i body now (fst s), Suc (snd s)))))"

definition reconcile_agent ::
  "environment \<Rightarrow> (nat \<Rightarrow> string result) \<Rightarrow> herdr_binding \<Rightarrow> bool \<Rightarrow> gotime \<Rightarrow> herdr_agent \<Rightarrow> queue \<times> nat \<Rightarrow> (queue \<times> nat) result" where
  "reconcile_agent env uuid binding baseline now a s =
     (let q = fst s;
          row = find_pane (hb_binding_key binding) (ha_pane_id a) (q_panes q);
          initial = initial_observation row a;
          events = (if initial \<and> fst (pane_state row) \<noteq> []
                    then drop_pane_events (hb_session_id binding) (ha_pane_id a) (q_events q) else q_events q);
          q1 = q\<lparr>q_events := events, q_panes := put_pane (observed_pane (hb_binding_key binding) now a) (q_panes q)\<rparr>
      in send_transition env uuid binding now (type_to_send baseline row a) a (q1, snd s))"

fun reconcile_agents ::
  "environment \<Rightarrow> (nat \<Rightarrow> string result) \<Rightarrow> herdr_binding \<Rightarrow> bool \<Rightarrow> gotime \<Rightarrow> herdr_agent list \<Rightarrow> queue \<times> nat \<Rightarrow> (queue \<times> nat) result" where
  "reconcile_agents env uuid binding baseline now [] s = Inr s"
| "reconcile_agents env uuid binding baseline now (a # as) s =
     (case reconcile_agent env uuid binding baseline now a s of
        Inl e \<Rightarrow> Inl e
      | Inr s' \<Rightarrow> reconcile_agents env uuid binding baseline now as s')"

definition removed_panes :: "string \<Rightarrow> herdr_agent list \<Rightarrow> herdr_pane list \<Rightarrow> string list" where
  "removed_panes key agents rows =
     map hp_pane_id (filter (\<lambda>p. hp_binding_key p = key \<and> hp_pane_id p \<notin> ha_pane_id ` set agents) rows)"

definition remove_pane :: "herdr_binding \<Rightarrow> string \<Rightarrow> queue \<Rightarrow> queue" where
  "remove_pane binding pane q = q
     \<lparr>q_panes := filter (\<lambda>p. \<not> (hp_binding_key p = hb_binding_key binding \<and> hp_pane_id p = pane)) (q_panes q),
      q_events := drop_pane_events (hb_session_id binding) pane (q_events q)\<rparr>"

definition begin_incarnation :: "herdr_binding \<Rightarrow> string \<Rightarrow> string \<Rightarrow> gotime \<Rightarrow> queue \<Rightarrow> queue" where
  "begin_incarnation binding previous incarnation now q =
     (let q1 = (if incarnation \<noteq> previous then
                  q\<lparr>q_panes := filter (\<lambda>p. hp_binding_key p \<noteq> hb_binding_key binding) (q_panes q),
                    q_events := (if previous \<noteq> [] then drop_session_events (hb_session_id binding) (q_events q)
                                 else q_events q)\<rparr>
                else q)
      in q1\<lparr>q_bindings := map (\<lambda>c. if hb_binding_key c = hb_binding_key binding
              then c\<lparr>hb_incarnation := incarnation, hb_updated_at := unix now\<rparr> else c) (q_bindings q1)\<rparr>)"

definition reconcile_herdr ::
  "environment \<Rightarrow> (nat \<Rightarrow> string result) \<Rightarrow> herdr_binding \<Rightarrow> herdr_agent list \<Rightarrow> string \<Rightarrow> bool \<Rightarrow> gotime \<Rightarrow> queue \<Rightarrow> queue result" where
  "reconcile_herdr env uuid binding agents incarnation baseline now q =
     (case find_binding (hb_binding_key binding) q of
        None \<Rightarrow> Inl ErrNoRows
      | Some stored \<Rightarrow>
          if hb_enabled stored \<and> q_adapter q = None then fail ''converting NULL to bool is unsupported''
          else if \<not> hb_enabled stored \<or> q_adapter q \<noteq> Some True then Inr q
          else (let previous = hb_incarnation stored;
                    baseline' = (baseline \<or> incarnation \<noteq> previous);
                    q1 = begin_incarnation binding previous incarnation now q
                in case reconcile_agents env uuid binding baseline' now agents (q1, 0) of
                     Inl e \<Rightarrow> Inl e
                   | Inr (q2, _) \<Rightarrow>
                       Inr (foldl (\<lambda>q pane. remove_pane binding pane q) q2
                              (removed_panes (hb_binding_key binding) agents (q_panes q2)))))"

end
