(* ===== verification/Base64.thy ===== *)
theory Base64
  imports Prelude
begin

text \<open>
  \<open>base64.RawURLEncoding\<close>: the URL-safe alphabet without padding. The decoder skips line breaks and
  ignores the unused low bits of the last character, as Go's non-strict decoder does.
\<close>

definition b64_char :: "int \<Rightarrow> char" where
  "b64_char v =
     (if v < 26 then chr (65 + v) else if v < 52 then chr (71 + v) else if v < 62 then chr (v - 4)
      else if v = 62 then CHR ''-'' else CHR ''_'')"

definition b64_value :: "char \<Rightarrow> int option" where
  "b64_value c =
     (let b = byte c
      in if 65 \<le> b \<and> b \<le> 90 then Some (b - 65) else if 97 \<le> b \<and> b \<le> 122 then Some (b - 71)
         else if 48 \<le> b \<and> b \<le> 57 then Some (b + 4) else if c = CHR ''-'' then Some 62
         else if c = CHR ''_'' then Some 63 else None)"

fun b64_encode :: "string \<Rightarrow> string" where
  "b64_encode [] = []"
| "b64_encode [a] = [b64_char (byte a div 4), b64_char (byte a mod 4 * 16)]"
| "b64_encode [a, b] =
     [b64_char (byte a div 4), b64_char (byte a mod 4 * 16 + byte b div 16), b64_char (byte b mod 16 * 4)]"
| "b64_encode (a # b # c # s) =
     b64_char (byte a div 4) # b64_char (byte a mod 4 * 16 + byte b div 16)
     # b64_char (byte b mod 16 * 4 + byte c div 64) # b64_char (byte c mod 64) # b64_encode s"

fun b64_bytes :: "int list \<Rightarrow> string option" where
  "b64_bytes [] = Some []"
| "b64_bytes [w] = None"
| "b64_bytes [w, x] = Some [chr (w * 4 + x div 16)]"
| "b64_bytes [w, x, y] = Some [chr (w * 4 + x div 16), chr (x mod 16 * 16 + y div 4)]"
| "b64_bytes (w # x # y # z # vs) =
     map_option (\<lambda>s. chr (w * 4 + x div 16) # chr (x mod 16 * 16 + y div 4) # chr (y mod 4 * 64 + z) # s) (b64_bytes vs)"

fun b64_values :: "string \<Rightarrow> int list option" where
  "b64_values [] = Some []"
| "b64_values (c # cs) =
     (case (b64_value c, b64_values cs) of (Some v, Some vs) \<Rightarrow> Some (v # vs) | _ \<Rightarrow> None)"

definition b64_decode :: "string \<Rightarrow> string option" where
  "b64_decode s = Option.bind (b64_values (filter (\<lambda>c. c \<noteq> chr 10 \<and> c \<noteq> chr 13) s)) b64_bytes"

section \<open>Decoding what was encoded\<close>

lemma b64_value_char: "0 \<le> v \<Longrightarrow> v < 64 \<Longrightarrow> b64_value (b64_char v) = Some v"
  by (auto simp: b64_value_def b64_char_def Let_def byte_def [of "CHR ''-''"] byte_def [of "CHR ''_''"])

lemma b64_char_not_newline: "0 \<le> v \<Longrightarrow> v < 64 \<Longrightarrow> b64_char v \<noteq> chr 10 \<and> b64_char v \<noteq> chr 13"
proof -
  have "b64_value (chr 10) = None" "b64_value (chr 13) = None"
    by code_simp+
  then show "0 \<le> v \<Longrightarrow> v < 64 \<Longrightarrow> b64_char v \<noteq> chr 10 \<and> b64_char v \<noteq> chr 13"
    using b64_value_char[of v] by auto
qed

lemma byte_parts:
  "0 \<le> byte a div 4" "byte a div 4 < 64" "0 \<le> byte a mod 4 * 16 + byte b div 16" "byte a mod 4 * 16 + byte b div 16 < 64"
  "0 \<le> byte b mod 16 * 4 + byte c div 64" "byte b mod 16 * 4 + byte c div 64 < 64" "byte a mod 4 * 16 < 64"
  "byte b mod 16 * 4 < 64"
proof -
  have d: "0 \<le> byte b div 16" "byte b div 16 < 16" "0 \<le> byte c div 64" "byte c div 64 < 4"
    using byte_range[of b] byte_range[of c] by linarith+
  have m: "0 \<le> byte a mod 4" "byte a mod 4 < 4" "0 \<le> byte b mod 16" "byte b mod 16 < 16"
    by simp_all
  have a: "0 \<le> byte a div 4" "byte a div 4 < 64"
    using byte_range[of a] by linarith+
  show "0 \<le> byte a div 4" "byte a div 4 < 64" "0 \<le> byte a mod 4 * 16 + byte b div 16" "byte a mod 4 * 16 + byte b div 16 < 64"
    "0 \<le> byte b mod 16 * 4 + byte c div 64" "byte b mod 16 * 4 + byte c div 64 < 64" "byte a mod 4 * 16 < 64"
    "byte b mod 16 * 4 < 64"
    using a d m by simp_all
qed

lemma nibble_join:
  fixes x y k n :: int
  assumes "0 < k" "0 \<le> x" "x < k"
  shows "(y * k + x) div k = y" "(y * k + x) mod k = x"
  using assms by simp_all

lemma byte_join:
  "chr (byte a div 4 * 4 + (byte a mod 4 * 16 + byte b div 16) div 16) = a"
  "chr ((byte a mod 4 * 16 + byte b div 16) mod 16 * 16 + (byte b mod 16 * 4 + byte c div 64) div 4) = b"
  "chr ((byte b mod 16 * 4 + byte c div 64) mod 4 * 64 + byte c mod 64) = c"
  "chr (byte a div 4 * 4 + byte a mod 4 * 16 div 16) = a"
  "chr ((byte a mod 4 * 16 + byte b div 16) mod 16 * 16 + byte b mod 16 * 4 div 4) = b"
proof -
  have s: "0 \<le> byte b div 16" "byte b div 16 < 16" "0 \<le> byte c div 64" "byte c div 64 < 4"
    using byte_range[of b] byte_range[of c] by linarith+
  have q: "(byte a mod 4 * 16 + byte b div 16) div 16 = byte a mod 4" "(byte a mod 4 * 16 + byte b div 16) mod 16 = byte b div 16"
    "(byte b mod 16 * 4 + byte c div 64) div 4 = byte b mod 16" "(byte b mod 16 * 4 + byte c div 64) mod 4 = byte c div 64"
    "byte a mod 4 * 16 div 16 = byte a mod 4" "byte b mod 16 * 4 div 4 = byte b mod 16"
    by (rule nibble_join; (rule s | simp only: zero_less_numeral))+ (simp_all only: nonzero_mult_div_cancel_right zero_neq_numeral not_False_eq_True)
  show
    "chr (byte a div 4 * 4 + (byte a mod 4 * 16 + byte b div 16) div 16) = a"
    "chr ((byte a mod 4 * 16 + byte b div 16) mod 16 * 16 + (byte b mod 16 * 4 + byte c div 64) div 4) = b"
    "chr ((byte b mod 16 * 4 + byte c div 64) mod 4 * 64 + byte c mod 64) = c"
    "chr (byte a div 4 * 4 + byte a mod 4 * 16 div 16) = a"
    "chr ((byte a mod 4 * 16 + byte b div 16) mod 16 * 16 + byte b mod 16 * 4 div 4) = b"
    by (simp_all only: q div_mult_mod_eq chr_byte)
qed

lemmas b64_digit_values = b64_value_char [OF byte_parts(1,2)] b64_value_char [OF byte_parts(3,4)]
  b64_value_char [OF byte_parts(5,6)] b64_value_char [OF _ byte_parts(7)] b64_value_char [OF _ byte_parts(8)]

lemma b64_values_encode: "Option.bind (b64_values (b64_encode s)) b64_bytes = Some s"
proof (induction s rule: b64_encode.induct)
  case (4 a b c s)
  obtain vs where "b64_values (b64_encode s) = Some vs" "b64_bytes vs = Some s"
    using 4 by (cases "b64_values (b64_encode s)") auto
  then show ?case
    by (simp only: b64_encode.simps b64_values.simps b64_digit_values b64_value_char [of "byte c mod 64" for c]
        pos_mod_sign pos_mod_bound zero_less_numeral option.case prod.case bind.bind_lunit b64_bytes.simps option.map byte_join)
next
  case (2 a)
  have "b64_value (b64_char (byte a mod 4 * 16)) = Some (byte a mod 4 * 16)"
    by (intro b64_digit_values) simp
  then show ?case
    by (simp only: b64_encode.simps b64_values.simps b64_digit_values option.case prod.case bind.bind_lunit
        b64_bytes.simps byte_join)
next
  case (3 a b)
  have "b64_value (b64_char (byte b mod 16 * 4)) = Some (byte b mod 16 * 4)"
    by (intro b64_digit_values) simp
  then show ?case
    by (simp only: b64_encode.simps b64_values.simps b64_digit_values option.case prod.case bind.bind_lunit
        b64_bytes.simps byte_join)
qed simp

lemma b64_encode_filter: "filter (\<lambda>c. c \<noteq> chr 10 \<and> c \<noteq> chr 13) (b64_encode s) = b64_encode s"
  by (induction s rule: b64_encode.induct) (simp_all add: b64_char_not_newline byte_parts)

theorem b64_decode_encode [simp]: "b64_decode (b64_encode s) = Some s"
  by (simp only: b64_decode_def b64_encode_filter b64_values_encode)

end
