(* ===== verification/Identity.thy ===== *)
theory Identity
  imports Base64 Codec_Roundtrip "HOL-Library.Word"
begin

text \<open>
  \<open>internal/agent/identity.go\<close> and \<open>internal/signing/signing.go\<close>: random UUIDs, the host key file and
  the signature over timestamp, event and body hash. Random bytes, SHA-256 and Ed25519 are parameters; the
  bytes of a UUID are kept at their width.
\<close>

unbundle bit_operations_syntax

section \<open>Version 4 UUIDs\<close>

definition hex_byte :: "8 word \<Rightarrow> string" where
  "hex_byte w = [hex_digit (uint w div 16), hex_digit (uint w mod 16)]"

definition hex_text :: "8 word list \<Rightarrow> string" where
  "hex_text ws = concat (map hex_byte ws)"

definition uuid_version :: "8 word \<Rightarrow> 8 word" where
  "uuid_version w = (w AND 0x0f) OR 0x40"

definition uuid_variant :: "8 word \<Rightarrow> 8 word" where
  "uuid_variant w = (w AND 0x3f) OR 0x80"

definition uuid_text :: "8 word list \<Rightarrow> string" where
  "uuid_text v0 =
     (let v = v0[6 := uuid_version (v0 ! 6), 8 := uuid_variant (v0 ! 8)]
      in hex_text (take 4 v) @ ''-'' @ hex_text (take 2 (drop 4 v)) @ ''-'' @ hex_text (take 2 (drop 6 v)) @ ''-'' @
         hex_text (take 2 (drop 8 v)) @ ''-'' @ hex_text (take 6 (drop 10 v)))"

text \<open>\<open>random\<close> is what \<open>rand.Read\<close> put into the 16 bytes.\<close>

definition new_uuid :: "8 word list result \<Rightarrow> string result" where
  "new_uuid random = (case random of Inl e \<Rightarrow> Inl e | Inr value \<Rightarrow> Inr (uuid_text value))"

definition all_bytes :: "8 word list" where
  "all_bytes = map word_of_int [0..255]"

lemma byte_word_cases: "w \<in> set all_bytes"
proof -
  have "w = word_of_int (uint w)" "uint w \<in> set [0..255]"
    using uint_lt2p[of w] by auto
  then show ?thesis
    unfolding all_bytes_def by (metis image_eqI list.set_map)
qed

lemma forall_bytes: "list_all P all_bytes \<Longrightarrow> P w"
  using byte_word_cases[of w] by (auto simp: list_all_iff)

lemma version_hex: "\<exists>d. hex_byte (uuid_version w) = [CHR ''4'', d]"
proof -
  have "list_all (\<lambda>w. hd (hex_byte (uuid_version w)) = CHR ''4'' \<and> length (hex_byte (uuid_version w)) = 2) all_bytes"
    by code_simp
  from forall_bytes[OF this, of w] show ?thesis
    by (auto simp: hex_byte_def)
qed

lemma variant_hex: "\<exists>d. hex_byte (uuid_variant w) = [d, hex_digit (uint (uuid_variant w) mod 16)] \<and> d \<in> set ''89ab''"
proof -
  have "list_all (\<lambda>w. hd (hex_byte (uuid_variant w)) \<in> set ''89ab'') all_bytes"
    by code_simp
  from forall_bytes[OF this, of w] show ?thesis
    by (auto simp: hex_byte_def)
qed

definition uuid_char :: "char \<Rightarrow> bool" where
  "uuid_char c \<longleftrightarrow> c = CHR ''-'' \<or> c \<in> set ''0123456789abcdef''"

lemma hex_byte_chars: "list_all uuid_char (hex_byte w)"
proof -
  have "list_all (\<lambda>w. list_all uuid_char (hex_byte w)) all_bytes"
    by code_simp
  then show ?thesis by (rule forall_bytes)
qed

lemma hex_text_chars: "list_all uuid_char (hex_text ws)"
  by (induction ws) (simp_all add: hex_text_def hex_byte_chars)

lemma hex_text_length: "length (hex_text ws) = 2 * length ws"
  by (induction ws) (simp_all add: hex_text_def hex_byte_def)

lemma uuid_text_shape:
  assumes "length v = 16"
  shows "length (uuid_text v) = 36" "list_all uuid_char (uuid_text v)" "uuid_text v ! 14 = CHR ''4''"
    "uuid_text v ! 19 \<in> set ''89ab''" "list_all (\<lambda>i. uuid_text v ! i = CHR ''-'') [8, 13, 18, 23]"
proof -
  obtain a b c d e f g h i j k l m n p q where v: "v = [a, b, c, d, e, f, g, h, i, j, k, l, m, n, p, q]"
    using assms by (auto simp: numeral_eq_Suc length_Suc_conv)
  have u: "uuid_text v = hex_byte a @ hex_byte b @ hex_byte c @ hex_byte d @ ''-'' @ hex_byte e @ hex_byte f @ ''-'' @
      hex_byte (uuid_version g) @ hex_byte h @ ''-'' @ hex_byte (uuid_variant i) @ hex_byte j @ ''-'' @
      hex_byte k @ hex_byte l @ hex_byte m @ hex_byte n @ hex_byte p @ hex_byte q"
    by (simp add: v uuid_text_def hex_text_def Let_def)
  obtain x where x: "hex_byte (uuid_version g) = [CHR ''4'', x]"
    using version_hex by blast
  obtain y z where y: "hex_byte (uuid_variant i) = [y, z]" "y \<in> set ''89ab''"
    using variant_hex by blast
  show "length (uuid_text v) = 36"
    unfolding u by (simp add: hex_byte_def)
  show "list_all uuid_char (uuid_text v)"
    unfolding u by (simp add: hex_byte_chars) (simp add: uuid_char_def)
  show "uuid_text v ! 14 = CHR ''4''"
    unfolding u x by (simp add: hex_byte_def)
  show "uuid_text v ! 19 \<in> set ''89ab''"
    unfolding u x y(1) using y(2) by (simp add: hex_byte_def)
  show "list_all (\<lambda>i. uuid_text v ! i = CHR ''-'') [8, 13, 18, 23]"
    unfolding u x y(1) by (simp add: hex_byte_def)
qed

section \<open>The host key\<close>

definition key_space :: "char \<Rightarrow> bool" where
  "key_space c \<longleftrightarrow> c = CHR '' '' \<or> c = chr 10 \<or> c = chr 13 \<or> c = chr 9"

definition trim_key :: "string \<Rightarrow> string" where
  "trim_key s = rev (dropWhile key_space (rev (dropWhile key_space s)))"

definition private_key_size :: nat where "private_key_size = 64"

definition key_file :: "string \<Rightarrow> string" where
  "key_file private_key = b64_encode private_key @ [CHR 10]"

text \<open>The permission bits and the contents of the key file, \<open>None\<close> when it cannot be read.\<close>

definition load_private_key :: "(int \<times> string) option \<Rightarrow> string result" where
  "load_private_key file =
     (case file of
        None \<Rightarrow> Inl ErrNotExist
      | Some (perm, encoded) \<Rightarrow>
          if perm mod 64 \<noteq> 0 then fail ''host key permissions must not allow group or other access''
          else (case b64_decode (trim_key encoded) of
                  None \<Rightarrow> fail ''invalid host private key''
                | Some key \<Rightarrow> if length key \<noteq> private_key_size then fail ''invalid host private key'' else Inr key))"

section \<open>Signatures\<close>

definition canonical :: "(string \<Rightarrow> string) \<Rightarrow> int \<Rightarrow> string \<Rightarrow> string \<Rightarrow> string" where
  "canonical sha256 timestamp event_id body =
     format_int timestamp @ CHR 10 # event_id @ CHR 10 # b64_encode (sha256 body)"

definition sign_event ::
  "(string \<Rightarrow> string) \<Rightarrow> (string \<Rightarrow> string \<Rightarrow> string) \<Rightarrow> string \<Rightarrow> int \<Rightarrow> string \<Rightarrow> string \<Rightarrow> string" where
  "sign_event sha256 ed_sign key timestamp event_id body = b64_encode (ed_sign key (canonical sha256 timestamp event_id body))"

definition verify_event ::
  "(string \<Rightarrow> string) \<Rightarrow> (string \<Rightarrow> string \<Rightarrow> string \<Rightarrow> bool) \<Rightarrow> string \<Rightarrow> int \<Rightarrow> string \<Rightarrow> string \<Rightarrow> string \<Rightarrow> unit result" where
  "verify_event sha256 ed_verify public_key timestamp event_id body encoded =
     (case b64_decode encoded of
        None \<Rightarrow> fail ''invalid signature encoding''
      | Some signature \<Rightarrow>
          if ed_verify public_key (canonical sha256 timestamp event_id body) signature then Inr ()
          else fail ''invalid signature'')"

lemma newline_no_digit: "\<not> is_digit (CHR 10)" "CHR 10 \<noteq> CHR ''-''"
  by (code_simp, simp)

lemma digits_no_newline: "0 \<le> n \<Longrightarrow> CHR 10 \<notin> set (dec_digits n)"
  using dec_digits_all[of n] newline_no_digit(1) unfolding all_digits_def list_all_iff by blast

lemma format_no_newline: "CHR 10 \<notin> set (format_int n)"
proof (cases "n < 0")
  case True
  then have "format_int n = CHR ''-'' # dec_digits (- n)" "CHR 10 \<notin> set (dec_digits (- n))"
    by (simp_all add: format_int_def digits_no_newline)
  then show ?thesis
    by simp
next
  case False
  then show ?thesis
    using digits_no_newline[of n] by (simp add: format_int_def)
qed

lemma split_first: "a @ c # s = b @ c # t \<Longrightarrow> c \<notin> set a \<Longrightarrow> c \<notin> set b \<Longrightarrow> a = b \<and> s = t"
proof (induction a arbitrary: b)
  case Nil
  then show ?case by (cases b) simp_all
next
  case (Cons x a)
  show ?case
  proof (cases b)
    case Nil
    then show ?thesis using Cons.prems by simp
  next
    case b: (Cons y b')
    then have xy: "x = y" and e: "a @ c # s = b' @ c # t" "c \<notin> set a" "c \<notin> set b'"
      using Cons.prems by simp_all
    have "a = b' \<and> s = t"
      by (rule Cons.IH[OF e])
    then show ?thesis
      unfolding b xy by blast
  qed
qed

lemma b64_encode_inj: "b64_encode s = b64_encode t \<Longrightarrow> s = t"
  by (metis b64_decode_encode option.inject)

lemma canonical_parts:
  assumes "canonical h t i b = canonical h t' i' b'" "CHR 10 \<notin> set i" "CHR 10 \<notin> set i'" "int64 t" "int64 t'"
  shows "t = t' \<and> i = i' \<and> h b = h b'"
proof -
  have "format_int t = format_int t' \<and> i @ CHR 10 # b64_encode (h b) = i' @ CHR 10 # b64_encode (h b')"
    using split_first[OF assms(1)[unfolded canonical_def] format_no_newline format_no_newline] .
  then have "format_int t = format_int t'" "i = i' \<and> b64_encode (h b) = b64_encode (h b')"
    using assms(2,3) split_first[of i "CHR 10" _ i'] by auto
  moreover from this(1) have "t = t'"
    using assms(4,5) parse_int64_format unfolding int64_def by (metis option.inject)
  ultimately show ?thesis
    using b64_encode_inj by blast
qed

lemma b64_char_not_space: "0 \<le> v \<Longrightarrow> v < 64 \<Longrightarrow> \<not> key_space (b64_char v)"
proof -
  have "b64_value (CHR '' '') = None" "b64_value (chr 10) = None" "b64_value (chr 13) = None" "b64_value (chr 9) = None"
    by code_simp+
  then show "0 \<le> v \<Longrightarrow> v < 64 \<Longrightarrow> \<not> key_space (b64_char v)"
    using b64_value_char[of v] by (auto simp: key_space_def)
qed

lemma b64_no_space: "list_all (\<lambda>c. \<not> key_space c) (b64_encode s)"
  by (induction s rule: b64_encode.induct) (simp_all add: b64_char_not_space byte_parts)

lemma drop_spaces_id: "list_all (\<lambda>c. \<not> key_space c) s \<Longrightarrow> dropWhile key_space s = s"
  by (cases s) auto

lemma trim_key_file: "trim_key (key_file key) = b64_encode key"
proof -
  have n: "key_space (CHR 10)"
    by code_simp
  have d: "dropWhile key_space (b64_encode key @ [CHR 10]) = (if b64_encode key = [] then [] else b64_encode key @ [CHR 10])"
    using b64_no_space[of key] n by (cases "b64_encode key") auto
  have "list_all (\<lambda>c. \<not> key_space c) (rev (b64_encode key))"
    using b64_no_space[of key] by (simp add: list_all_iff)
  then show ?thesis
    using n by (auto simp: trim_key_def key_file_def d drop_spaces_id)
qed

section \<open>Properties\<close>

text \<open>Whatever the random bytes are, \<open>NewUUID\<close> gives 36 characters, dashes at their places and lower-case
  hexadecimal digits elsewhere, with version 4 and the RFC variant.\<close>

theorem uuid_shape:
  assumes "length random = 16"
  shows "length (uuid_text random) = 36 \<and> list_all uuid_char (uuid_text random) \<and> uuid_text random ! 14 = CHR ''4'' \<and>
    uuid_text random ! 19 \<in> set ''89ab'' \<and> list_all (\<lambda>i. uuid_text random ! i = CHR ''-'') [8, 13, 18, 23]"
  using uuid_text_shape[OF assms] by blast

theorem uuid_shape_witness:
  "uuid_text (replicate 16 255) ! 14 = CHR ''4'' \<and> length (uuid_text (replicate 16 255)) = 36"
  using uuid_shape[of "replicate 16 255"] by simp

text \<open>A private key that was written to its file is loaded back, and a file any other user can access is
  refused whatever it contains.\<close>

theorem private_key_roundtrip:
  assumes "length key = private_key_size"
  shows "load_private_key (Some (384, key_file key)) = Inr key \<and> load_private_key (Some (384 + 4, contents)) \<noteq> Inr key'"
  using assms by (simp add: load_private_key_def trim_key_file)

theorem private_key_roundtrip_witness:
  "load_private_key (Some (384, key_file (replicate 64 (CHR ''k'')))) = Inr (replicate 64 (CHR ''k''))"
  using private_key_roundtrip[of "replicate 64 (CHR ''k'')"] by (simp add: private_key_size_def)

text \<open>C17: A signature binds the request. Under the law of an unforgeable signature scheme (a signature verifies for
  the signed text and for no other) the signature of a timestamp, an event and a body verifies for exactly those
  timestamps, event identifiers and bodies that are the same ones, up to the hash of the body, and every other request
  is answered \<open>invalid signature\<close>: nothing in the signed text can be shifted from one part to the next. The event
  identifiers are free of newlines, as UUIDs and hexadecimal hashes are, and the timestamps are 64-bit numbers.\<close>

theorem signature_binds:
  assumes "\<And>m m'. ed_verify public_key m' (ed_sign key m) \<longleftrightarrow> m' = m"
    "CHR 10 \<notin> set i" "CHR 10 \<notin> set i'" "int64 t" "int64 t'"
  shows "verify_event h ed_verify public_key t' i' b' (sign_event h ed_sign key t i b) =
    (if t' = t \<and> i' = i \<and> h b' = h b then Inr () else fail ''invalid signature'')"
proof -
  have "canonical h t' i' b' = canonical h t i b \<longleftrightarrow> t' = t \<and> i' = i \<and> h b' = h b"
    using canonical_parts[of h t' i' b' t i b] assms(2-5) by (auto simp: canonical_def)
  then show ?thesis
    by (simp add: verify_event_def sign_event_def assms(1))
qed

definition toy_sign :: "string \<Rightarrow> string \<Rightarrow> string" where "toy_sign key m = key @ m"
definition toy_verify :: "string \<Rightarrow> string \<Rightarrow> string \<Rightarrow> bool" where "toy_verify key m s \<longleftrightarrow> s = key @ m"

theorem signature_binds_witness:
  "verify_event id toy_verify ''k'' 1 ''e'' ''b'' (sign_event id toy_sign ''k'' 1 ''e'' ''b'') = Inr () \<and>
   verify_event id toy_verify ''k'' 1 ''e'' ''c'' (sign_event id toy_sign ''k'' 1 ''e'' ''b'') = fail ''invalid signature''"
proof -
  have "toy_verify ''k'' m' (toy_sign ''k'' m) \<longleftrightarrow> m' = m" for m m'
    by (auto simp: toy_sign_def toy_verify_def)
  then show ?thesis
    using signature_binds[of toy_verify "''k''" toy_sign "''k''" "''e''" "''e''" 1 1 id "''b''" "''b''"]
      signature_binds[of toy_verify "''k''" toy_sign "''k''" "''e''" "''e''" 1 1 id "''c''" "''b''"]
    by (simp add: int64_def)
qed

end
