(* ===== verification/Decode_Wf.thy ===== *)
theory Decode_Wf
  imports Codec_Roundtrip
begin

text \<open>
  What a successful parse guarantees: the strings of the parsed value are valid UTF-8 and its numbers are
  number literals, whatever bytes the text consisted of. So everything the agent decodes can be encoded
  and decoded again, which the components that re-encode decoded values rest on.
\<close>

section \<open>Scanned literals\<close>

lemma hex4_range: "hex4 ds = Some r \<Longrightarrow> 0 \<le> r \<and> r < 65536"
proof -
  have v: "hex_value c = Some x \<Longrightarrow> 0 \<le> x \<and> x < 16" for c x
    by (auto simp: hex_value_def Let_def split: if_splits)
  show "hex4 ds = Some r \<Longrightarrow> 0 \<le> r \<and> r < 65536"
    by (induction ds rule: hex4.induct) (fastforce split: option.splits dest: v)+
qed

lemma unicode_escape_scalar: "unicode_escape ds = Some (r, n) \<Longrightarrow> scalar r"
  by (auto simp: unicode_escape_def Let_def high_surrogate_def low_surrogate_def scalar_def
      split: option.splits if_splits dest: hex4_range)

lemma simple_escape_scalar: "simple_escape e = Some r \<Longrightarrow> scalar r"
  by (auto simp: simple_escape_def scalar_def byte_def split: if_splits)

lemma unquote_scalar: "unquote s = Some (rs, t) \<Longrightarrow> list_all scalar rs"
proof (induction s arbitrary: rs t rule: unquote.induct)
  case (2 c cs)
  have cons: "cons_rune r x = Some (rs, t) \<longleftrightarrow> (\<exists>rs'. x = Some (rs', t) \<and> rs = r # rs')" for r x
    by (cases x) auto
  have d: "decode_rune c cs = (r, n) \<Longrightarrow> scalar r" for r n
    using decode_rune_scalar[of c cs] by simp
  show ?case
    using 2 by (fastforce simp: cons simp del: unquote.simps(1) split: if_splits list.splits option.splits prod.splits
        dest: unicode_escape_scalar simple_escape_scalar d)
qed simp

lemma parse_string_utf8: "parse_string s = Some (w, t) \<Longrightarrow> valid_utf8 w"
  by (auto simp: parse_string_def split: list.splits if_splits dest: unquote_scalar)

lemma digits_split:
  "u = [] \<or> \<not> is_digit (hd u) \<Longrightarrow> list_all is_digit ds \<Longrightarrow> takeWhile is_digit (ds @ u) = ds \<and> dropWhile is_digit (ds @ u) = u"
  by (induction ds; cases u) auto

lemma scan_digits_shape:
  "scan_digits p s = Some (d, r) \<Longrightarrow> \<exists>ds. d = p @ ds \<and> ds \<noteq> [] \<and> list_all is_digit ds"
  by (auto simp: scan_digits_def list_all_iff dest: set_takeWhileD split: if_splits)

lemma scan_digits_again:
  "ds \<noteq> [] \<Longrightarrow> list_all is_digit ds \<Longrightarrow> u = [] \<or> \<not> is_digit (hd u) \<Longrightarrow> scan_digits p (ds @ u) = Some (p @ ds, u)"
  using digits_split[of u ds] by (simp add: scan_digits_def)

lemma scan_int_shape:
  "scan_int s = Some (i, r) \<Longrightarrow> i = ''0'' \<or> (\<exists>c ds. i = c # ds \<and> is_digit c \<and> c \<noteq> CHR ''0'' \<and> list_all is_digit ds)"
  by (auto simp: scan_int_def list_all_iff dest: set_takeWhileD split: list.splits if_splits)

lemma scan_int_again:
  "scan_int s = Some (i, r) \<Longrightarrow> u = [] \<or> \<not> is_digit (hd u) \<Longrightarrow> scan_int (i @ u) = Some (i, u)"
  using scan_int_shape[of s i r] digits_split[of u] by (auto simp: scan_int_def)

lemma scan_frac_shape: "scan_frac s = Some (f, r) \<Longrightarrow> f = [] \<or> (\<exists>ds. f = CHR ''.'' # ds \<and> ds \<noteq> [] \<and> list_all is_digit ds)"
  by (fastforce simp: scan_frac_def dest: scan_digits_shape split: list.splits if_splits)

lemma no_digits: "\<not> is_digit (CHR ''.'')" "\<not> is_digit (CHR ''e'')" "\<not> is_digit (CHR ''E'')" "\<not> is_digit (CHR ''-'')"
  "\<not> is_digit (CHR ''+'')"
  by code_simp+

lemma scan_exp_shape:
  assumes "scan_exp s = Some (e, r)"
  obtains "e = []"
  | c g ds where "e = c # g @ ds" "c = CHR ''e'' \<or> c = CHR ''E''" "g = [] \<or> (\<exists>d. g = [d] \<and> (d = CHR ''+'' \<or> d = CHR ''-''))"
      "ds \<noteq> []" "list_all is_digit ds"
proof (cases "s \<noteq> [] \<and> (hd s = CHR ''e'' \<or> hd s = CHR ''E'')")
  case False
  then have "e = []" using assms by (auto simp: scan_exp_def split: list.splits)
  then show ?thesis using that(1) by blast
next
  case True
  then obtain c d ds where s: "s = c # d # ds" "c = CHR ''e'' \<or> c = CHR ''E''"
    using assms by (cases s; cases "tl s") (auto simp: scan_exp_def)
  then have "scan_exp s = (if d = CHR ''+'' \<or> d = CHR ''-'' then scan_digits [c, d] ds else scan_digits [c] (d # ds))"
    by (simp add: scan_exp_def)
  with assms consider "d = CHR ''+'' \<or> d = CHR ''-''" "scan_digits [c, d] ds = Some (e, r)" | "scan_digits [c] (d # ds) = Some (e, r)"
    by (auto split: if_splits)
  then show ?thesis
  proof cases
    case 1
    then show ?thesis using that(2)[of c "[d]"] s(2) scan_digits_shape[OF 1(2)] by auto
  next
    case 2
    then show ?thesis using that(2)[of c "[]"] s(2) scan_digits_shape[OF 2] by auto
  qed
qed

lemma scan_exp_again: "scan_exp s = Some (e, r) \<Longrightarrow> scan_exp e = Some (e, [])"
proof (erule scan_exp_shape)
  fix c g ds assume e: "e = c # g @ ds" "ds \<noteq> []" "list_all is_digit ds" and c: "c = CHR ''e'' \<or> c = CHR ''E''"
    and g: "g = [] \<or> (\<exists>d. g = [d] \<and> (d = CHR ''+'' \<or> d = CHR ''-''))"
  obtain d ds' where ds: "ds = d # ds'" "is_digit d" using e by (cases ds) auto
  then have "d \<noteq> CHR ''+''" "d \<noteq> CHR ''-''" using no_digits by auto
  with ds have d: "scan_digits p ds = Some (p @ ds, [])" for p
    using scan_digits_again[of ds "[]" p] e by simp
  from g show "scan_exp e = Some (e, [])"
  proof (elim disjE exE conjE)
    assume "g = []"
    then show ?thesis using c d[of "[c]"] \<open>d \<noteq> CHR ''+''\<close> \<open>d \<noteq> CHR ''-''\<close> by (auto simp: scan_exp_def e ds(1))
  next
    fix x assume "g = [x]" "x = CHR ''+''"
    then show ?thesis using c d[of "[c, x]"] by (auto simp: scan_exp_def e)
  next
    fix x assume "g = [x]" "x = CHR ''-''"
    then show ?thesis using c d[of "[c, x]"] by (auto simp: scan_exp_def e)
  qed
qed (simp add: scan_exp_def)

lemma scan_number_ok: "scan_number s = Some (lit, t) \<Longrightarrow> number_ok lit"
proof -
  assume "scan_number s = Some (lit, t)"
  then obtain sg s1 i s2 f s3 e where p: "scan_sign s = (sg, s1)" "scan_int s1 = Some (i, s2)" "scan_frac s2 = Some (f, s3)"
    "scan_exp s3 = Some (e, t)" and lit: "lit = sg @ i @ f @ e"
    by (auto simp: scan_number_def split: prod.splits option.splits)
  have e0: "e = [] \<or> \<not> is_digit (hd e) \<and> hd e \<noteq> CHR ''.''"
    using no_digits by (rule_tac scan_exp_shape[OF p(4)]) auto
  have "scan_frac (f @ e) = Some (f, e)"
    using scan_frac_shape[OF p(3)] e0 scan_digits_again[of _ e "''.''"] by (cases e) (auto simp: scan_frac_def)
  moreover have "f @ e = [] \<or> \<not> is_digit (hd (f @ e))"
    using scan_frac_shape[OF p(3)] e0 no_digits by auto
  then have "scan_int (i @ f @ e) = Some (i, f @ e)"
    using scan_int_again[OF p(2)] by blast
  moreover have "scan_sign (sg @ i @ f @ e) = (sg, i @ f @ e)"
    using scan_int_shape[OF p(2)] p(1) no_digits(4) by (auto simp: scan_sign_def split: list.splits if_splits)
  ultimately show ?thesis
    using scan_exp_again[OF p(4)] by (simp add: number_ok_def scan_number_def lit)
qed

section \<open>Parsed values\<close>

lemma parse_ok:
  "parse_value k s = Some (v, t) \<Longrightarrow> json_ok v"
  "parse_items k s = Some (vs, t) \<Longrightarrow> list_all json_ok vs"
  "parse_members k s = Some (ms, t) \<Longrightarrow> list_all (\<lambda>(k, v). valid_utf8 k \<and> json_ok v) ms"
proof (induction k s and k s and k s arbitrary: v t and vs t and ms t
    rule: parse_value_parse_items_parse_members.induct)
  case (2 k s)
  obtain c cs where s: "skip_ws s = c # cs"
    using 2(3) by (auto split: list.splits)
  show ?case
    using 2(3) 2(1)[OF s] 2(2)[OF s] parse_string_utf8[of "c # cs"] scan_number_ok[of "c # cs"]
    by (fastforce simp: s split: if_splits list.splits)
next
  case (4 k s)
  then obtain v r where v: "parse_value k s = Some (v, r)" "json_ok v"
    by (auto split: option.splits)
  then show ?case
    using 4(2)[OF v(1)] 4(3) by (fastforce split: list.splits if_splits)
next
  case (6 k s)
  then obtain key r where key: "parse_string (skip_ws s) = Some (key, r)"
    by (auto split: option.splits)
  then obtain cs where cs: "skip_ws r = CHR '':'' # cs"
    using 6(3) by (auto split: list.splits if_splits)
  then obtain v r2 where v: "parse_value k cs = Some (v, r2)"
    using 6(3) key by (auto split: option.splits)
  have "valid_utf8 key" "json_ok v"
    using parse_string_utf8[OF key] 6(1)[OF key refl cs _ v] by auto
  then show ?case
    using 6(2)[OF key refl cs _ v refl] 6(3)
    by (fastforce simp: key cs v split: list.splits if_splits)
qed simp_all

lemma parse_prefix_ok: "parse_prefix s = Some (v, t) \<Longrightarrow> json_ok v"
  unfolding parse_prefix_def by (rule parse_ok)

lemma json_parse_ok: "json_parse s = Some v \<Longrightarrow> json_ok v"
  by (auto simp: json_parse_def dest: parse_prefix_ok split: option.splits prod.splits if_splits)

section \<open>Decoded values\<close>

lemma dec_members_inv:
  assumes "\<And>k v x. (k, v) \<in> set ms \<Longrightarrow> P x \<Longrightarrow> P (fst (f k v x))" "P x"
  shows "P (fst (dec_members f ms x))"
  using assms
proof (induction f ms x rule: dec_members.induct)
  case (2 f k v ms x)
  obtain y ok where y: "f k v x = (y, ok)" by fastforce
  have "P y" using 2(2)[of k v x] 2(3) y by simp
  then have "P (fst (dec_members f ms y))"
    using 2(1)[of "(y, ok)" y ok] 2(2) y by simp
  then show ?case using y by (cases "dec_members f ms y") simp
qed simp

lemma dec_struct_inv:
  assumes "json_ok j" "P x" "\<And>k v x. valid_utf8 k \<Longrightarrow> json_ok v \<Longrightarrow> P x \<Longrightarrow> P (fst (f k v x))"
  shows "P (fst (dec_struct f j x))"
proof (cases j)
  case (JObj ms)
  then have "\<forall>(k, v) \<in> set ms. valid_utf8 k \<and> json_ok v"
    using assms(1) by (simp add: list_all_iff)
  then show ?thesis
    using dec_members_inv[of ms P f x] assms(2,3) JObj by fastforce
qed (use assms in simp_all)

lemma fst_store: "fst (store d get upd x) = upd (\<lambda>_. fst (d (get x))) x"
  by (simp add: store_def split: prod.splits)

lemma dec_string_utf8: "json_ok v \<Longrightarrow> valid_utf8 old \<Longrightarrow> valid_utf8 (fst (dec_string v old))"
  by (cases v) simp_all

lemma parse_int64_range: "parse_int64 lit = Some n \<Longrightarrow> int64 n"
  by (auto simp: parse_int64_def int64_def Let_def split: if_splits)

lemma dec_int_range: "int64 old \<Longrightarrow> int64 (fst (dec_int v old))"
  by (cases v) (auto split: option.splits dest: parse_int64_range)

lemma dec_pointer_inv:
  assumes "json_ok j" "pred_option P old" "P zero" "\<And>x. json_ok j \<Longrightarrow> P x \<Longrightarrow> P (fst (d j x))"
  shows "pred_option P (fst (dec_pointer d zero j old))"
  using assms by (cases old) (auto simp: dec_pointer_def split: prod.splits dest: assms(4))

lemma map_put_list_all: "list_all P m \<Longrightarrow> P (k, v) \<Longrightarrow> list_all P (map_put k v m)"
  by (induction k v m rule: map_put.induct) auto

lemma valid_utf8_Nil [simp]: "valid_utf8 []"
  by (rule valid_ascii) (simp add: ascii_def)

definition labels_wf :: "string gomap \<Rightarrow> bool" where
  "labels_wf m \<longleftrightarrow> map_ok m \<and> list_all (\<lambda>(k, v). valid_utf8 k \<and> valid_utf8 v) m"

lemma labels_wf_put: "labels_wf m \<Longrightarrow> valid_utf8 k \<Longrightarrow> valid_utf8 v \<Longrightarrow> labels_wf (map_put k v m)"
  by (simp add: labels_wf_def map_put_list_all)

lemma dec_string_map_wf:
  assumes "json_ok j" "labels_wf m"
  shows "labels_wf (fst (dec_string_map j m))"
proof (cases j)
  case (JObj ms)
  have "labels_wf (fst (let (s, ok) = dec_string v [] in (map_put k s m, ok)))" if "(k, v) \<in> set ms" "labels_wf m" for k v m
  proof -
    have "valid_utf8 k" "json_ok v"
      using that(1) assms(1) JObj by (auto simp: list_all_iff)
    then show ?thesis
      using labels_wf_put[OF that(2)] dec_string_utf8[of v "[]"] by (cases "dec_string v []") simp
  qed
  then show ?thesis
    unfolding JObj dec_string_map.simps using assms(2) by (rule dec_members_inv)
qed (use assms in \<open>simp_all add: labels_wf_def\<close>)

lemma dec_target_wf: "json_ok j \<Longrightarrow> target_wf t \<Longrightarrow> target_wf (fst (dec_struct target_member j t))"
  by (erule (1) dec_struct_inv) (simp add: target_member_def target_wf_def fst_store dec_string_utf8)

lemma dec_metadata_wf: "json_ok j \<Longrightarrow> metadata_wf m \<Longrightarrow> metadata_wf (fst (dec_struct metadata_member j m))"
  by (erule (1) dec_struct_inv)
    (simp add: metadata_member_def metadata_wf_def fst_store dec_string_utf8 dec_string_map_wf[unfolded labels_wf_def])

lemma dec_host_event_wf: "json_ok j \<Longrightarrow> host_event_wf e \<Longrightarrow> host_event_wf (fst (dec_struct host_event_member j e))"
proof (erule (1) dec_struct_inv)
  fix k v e assume v: "json_ok v" and e: "host_event_wf e"
  have "target_wf zero_target" "metadata_wf zero_metadata"
    by (simp_all add: target_wf_def zero_target_def metadata_wf_def zero_metadata_def)
  then show "host_event_wf (fst (host_event_member k v e))"
    using v e by (simp add: host_event_member_def host_event_wf_def fst_store dec_string_utf8 dec_int_range
        dec_pointer_inv dec_target_wf dec_metadata_wf)
qed

lemma dec_hook_event_wf: "json_ok j \<Longrightarrow> hook_event_wf e \<Longrightarrow> hook_event_wf (fst (dec_struct hook_event_member j e))"
  by (erule (1) dec_struct_inv) (simp add: hook_event_member_def hook_event_wf_def fst_store dec_string_utf8 dec_int_range)

lemma dec_dirty_event_wf: "json_ok j \<Longrightarrow> dirty_event_wf e \<Longrightarrow> dirty_event_wf (fst (dec_struct dirty_event_member j e))"
  by (erule (1) dec_struct_inv) (simp add: dirty_event_member_def dirty_event_wf_def fst_store dec_string_utf8)

lemma zero_wf: "host_event_wf zero_host_event" "hook_event_wf zero_hook_event" "dirty_event_wf zero_dirty_event"
  by (simp_all add: host_event_wf_def hook_event_wf_def dirty_event_wf_def zero_host_event_def zero_hook_event_def
      zero_dirty_event_def int64_def)

lemma unmarshal_cases:
  "unmarshal d data zero = Inr x \<Longrightarrow> \<exists>j. json_parse data = Some j \<and> json_ok j \<and> d j zero = (x, True)"
  by (auto simp: unmarshal_def Let_def split: option.splits prod.splits if_splits dest: json_parse_ok)

lemma unmarshal_host_event_wf: "unmarshal_host_event body = Inr e \<Longrightarrow> host_event_wf e"
  unfolding unmarshal_host_event_def by (metis dec_host_event_wf fst_conv unmarshal_cases zero_wf(1))

end
