(* ===== verification/Daemon.thy ===== *)
theory Daemon
  imports Ipc Config Herdr_State Identity Decode_Wf
begin

text \<open>
  \<open>internal/agent/daemon.go\<close>: the connection handler of the daemon's socket. The state is the daemon's
  configuration, its queue, the buffered channel of Herdr signals (128 places) and the wake-up channel of
  the uploader (one place). A request is what the client sent; the handler reads one JSON value from its
  first 16384 bytes. The hash and the next UUID are parameters. The connection's deadline and errors of
  the database are not modelled.
\<close>

section \<open>The daemon\<close>

record daemon =
  dm_config :: config
  dm_version :: string
  dm_queue :: queue
  dm_dirty :: "herdr_dirty_event list"
  dm_wake :: bool

definition herdr_dirty_capacity :: nat where "herdr_dirty_capacity = 128"

text \<open>\<open>Run\<close> before it starts its workers.\<close>

definition start_daemon :: "config \<Rightarrow> string \<Rightarrow> queue \<Rightarrow> daemon result" where
  "start_daemon c version q =
     (case configure_backend endpoint_text (cf_endpoint c) q of
        Inl e \<Rightarrow> Inl e
      | Inr q' \<Rightarrow> Inr \<lparr>dm_config = c, dm_version = version, dm_queue = q', dm_dirty = [], dm_wake = False\<rparr>)"

definition rejected :: "string \<Rightarrow> string" where
  "rejected msg = encode_line (ipc_response_json \<lparr>ir_accepted = False, ir_error = msg\<rparr>)"

definition accepted :: string where
  "accepted = encode_line (ipc_response_json \<lparr>ir_accepted = True, ir_error = []\<rparr>)"

section \<open>The three requests\<close>

definition daemon_capabilities :: "string list" where
  "daemon_capabilities = [''codex-v1'', HerdrCapability, HerdrBindingsCapability, HerdrHostCaptureCapability]"

definition daemon_info :: "daemon \<Rightarrow> daemon_info_response" where
  "daemon_info d = \<lparr>dr_version = dm_version d, dr_capabilities = daemon_capabilities,
     dr_queue_depth = int (depth (dm_queue d)), dr_registration_state = cf_registration_state (dm_config d), dr_error = []\<rparr>"

text \<open>\<open>hex.DecodeString\<close> succeeds on an even number of hexadecimal digits of either case.\<close>

definition hex_decodes :: "string \<Rightarrow> bool" where
  "hex_decodes s \<longleftrightarrow> even (length s) \<and> list_all (\<lambda>c. hex_value c \<noteq> None) s"

text \<open>The checks of a Herdr signal, as the message of the failed one.\<close>

definition check_signal :: "(string \<Rightarrow> string) \<Rightarrow> herdr_dirty_event \<Rightarrow> string option" where
  "check_signal sha256_hex s =
     (if length (de_binding_key s) \<noteq> 64 \<or> \<not> valid_id (de_pane_id s) \<and> \<not> (de_baseline s \<and> de_pane_id s = [])
        then Some ''invalid Herdr signal''
      else if \<not> hex_decodes (de_binding_key s) then Some ''invalid Herdr binding''
      else if de_socket_path s \<noteq> [] \<and>
          (4096 < length (de_socket_path s) \<or> \<not> is_abs (de_socket_path s) \<or>
           contains_any (de_socket_path s) [chr 0, chr 13, chr 10] \<or>
           herdr_binding_key sha256_hex (de_socket_path s) \<noteq> de_binding_key s)
        then Some ''invalid Herdr socket''
      else None)"

definition handle_signal :: "(string \<Rightarrow> string) \<Rightarrow> herdr_dirty_event \<Rightarrow> daemon \<Rightarrow> string \<times> daemon" where
  "handle_signal sha256_hex s d =
     (case check_signal sha256_hex s of
        Some msg \<Rightarrow> (rejected msg, d)
      | None \<Rightarrow>
          if length (dm_dirty d) < herdr_dirty_capacity then (accepted, d\<lparr>dm_dirty := dm_dirty d @ [s]\<rparr>)
          else (rejected ''Herdr signal queue full'', d))"

definition validate_hook_event :: "hook_event \<Rightarrow> bool" where
  "validate_hook_event e \<longleftrightarrow> he_protocol_version e = Version \<and>
     host_event_valid \<lparr>ev_schema_version = he_protocol_version e, ev_event_type = he_event_type e,
       ev_thread_id = he_thread_id e, ev_turn_id = he_turn_id e, ev_request_id = he_request_id e,
       ev_occurred_at = he_occurred_at e, ev_source = [], ev_target = None, ev_herdr_metadata = None\<rparr>"

definition host_event_of :: "hook_event \<Rightarrow> host_event" where
  "host_event_of e = \<lparr>ev_schema_version = Version, ev_event_type = he_event_type e, ev_thread_id = he_thread_id e,
     ev_turn_id = he_turn_id e, ev_request_id = he_request_id e, ev_occurred_at = he_occurred_at e, ev_source = [],
     ev_target = None, ev_herdr_metadata = None\<rparr>"

definition event_key :: "string \<Rightarrow> hook_event \<Rightarrow> string" where
  "event_key host e = join_with [CHR 10] [host, he_event_type e, he_thread_id e, he_turn_id e, he_request_id e]"

definition event_id :: "(string \<Rightarrow> string) \<Rightarrow> string result \<Rightarrow> string \<Rightarrow> hook_event \<Rightarrow> string result" where
  "event_id sha256_hex uuid host e =
     (if he_request_id e = [] then uuid else Inr (sha256_hex (event_key host e)))"

definition handle_hook_event ::
  "(string \<Rightarrow> string) \<Rightarrow> string result \<Rightarrow> gotime \<Rightarrow> hook_event \<Rightarrow> daemon \<Rightarrow> string \<times> daemon" where
  "handle_hook_event sha256_hex uuid now e d =
     (if \<not> validate_hook_event e then (rejected ''unsupported event'', d)
      else case marshal_host_event (host_event_of e) of
          Inl _ \<Rightarrow> (rejected ''encode event'', d)
        | Inr body \<Rightarrow>
            (case event_id sha256_hex uuid (cf_host_id (dm_config d)) e of
               Inl _ \<Rightarrow> (rejected ''create event id'', d)
             | Inr i \<Rightarrow> (accepted, d\<lparr>dm_queue := enqueue_event i body now (dm_queue d), dm_wake := True\<rparr>)))"

section \<open>The connection\<close>

text \<open>The value is decoded three times: as an info request, as a Herdr signal and as a hook event.\<close>

definition handle_value ::
  "(string \<Rightarrow> string) \<Rightarrow> string result \<Rightarrow> gotime \<Rightarrow> json \<Rightarrow> daemon \<Rightarrow> string \<times> daemon" where
  "handle_value sha256_hex uuid now raw d =
     (let (info, info_ok) = dec_struct info_request_member raw \<lparr>dq_type = []\<rparr>;
          (signal, signal_ok) = dec_struct dirty_event_member raw zero_dirty_event;
          (event, event_ok) = dec_struct hook_event_member raw zero_hook_event
      in if info_ok \<and> dq_type info = DaemonInfoRequestType then (encode_line (info_response_json (daemon_info d)), d)
         else if signal_ok \<and> de_type signal = HerdrDirtyEventType then handle_signal sha256_hex signal d
         else if \<not> event_ok then (rejected ''invalid event'', d)
         else handle_hook_event sha256_hex uuid now event d)"

definition handle_connection ::
  "(string \<Rightarrow> string) \<Rightarrow> string result \<Rightarrow> gotime \<Rightarrow> bool \<Rightarrow> string \<Rightarrow> daemon \<Rightarrow> string \<times> daemon" where
  "handle_connection sha256_hex uuid now peer_ok input d =
     (if \<not> peer_ok then (rejected ''unauthorized peer'', d)
      else case parse_prefix (take MaxIPCMessage input) of
          None \<Rightarrow> (rejected ''invalid event'', d)
        | Some (raw, _) \<Rightarrow> handle_value sha256_hex uuid now raw d)"

section \<open>What the handler keeps\<close>

definition daemon_ok :: "(string \<Rightarrow> string) \<Rightarrow> daemon \<Rightarrow> bool" where
  "daemon_ok sha256_hex d \<longleftrightarrow> queue_ok (dm_queue d) \<and> length (dm_dirty d) \<le> herdr_dirty_capacity \<and>
     list_all (\<lambda>s. de_type s = HerdrDirtyEventType \<and> check_signal sha256_hex s = None) (dm_dirty d)"

text \<open>What a request can do to the daemon: nothing, buffer one checked signal, or queue one valid event.\<close>

inductive daemon_step :: "(string \<Rightarrow> string) \<Rightarrow> gotime \<Rightarrow> daemon \<Rightarrow> daemon \<Rightarrow> bool" for sha256_hex now where
  stay: "daemon_step sha256_hex now d d"
| signal: "de_type s = HerdrDirtyEventType \<Longrightarrow> check_signal sha256_hex s = None \<Longrightarrow>
     length (dm_dirty d) < herdr_dirty_capacity \<Longrightarrow> dirty_event_wf s \<Longrightarrow>
     daemon_step sha256_hex now d (d\<lparr>dm_dirty := dm_dirty d @ [s]\<rparr>)"
| event: "host_event_valid e \<Longrightarrow> event_source e = SourceCodex \<Longrightarrow> host_event_wf e \<Longrightarrow> marshal_host_event e = Inr body \<Longrightarrow>
     daemon_step sha256_hex now d (d\<lparr>dm_queue := enqueue_event i body now (dm_queue d), dm_wake := True\<rparr>)"

inductive_cases daemon_step_cases: "daemon_step sha256_hex now d d'"

lemma validated_host_event: "validate_hook_event e \<Longrightarrow> host_event_valid (host_event_of e) \<and> event_source (host_event_of e) = SourceCodex"
  by (auto simp: validate_hook_event_def host_event_of_def event_source_def)

lemma host_event_of_wf: "hook_event_wf e \<Longrightarrow> host_event_wf (host_event_of e)"
  by (simp add: hook_event_wf_def host_event_wf_def host_event_of_def int64_def Version_def)

lemma handle_hook_event_step:
  "hook_event_wf e \<Longrightarrow> handle_hook_event sha256_hex uuid now e d = (reply, d') \<Longrightarrow> daemon_step sha256_hex now d d'"
  using validated_host_event[of e] host_event_of_wf[of e]
  by (auto simp: handle_hook_event_def intro: daemon_step.intros split: if_splits sum.splits)

lemma handle_signal_step:
  "de_type s = HerdrDirtyEventType \<Longrightarrow> dirty_event_wf s \<Longrightarrow> handle_signal sha256_hex s d = (reply, d') \<Longrightarrow>
     daemon_step sha256_hex now d d'"
  by (auto simp: handle_signal_def intro: daemon_step.intros split: if_splits option.splits)

lemma handle_value_step:
  assumes "json_ok raw" "handle_value sha256_hex uuid now raw d = (reply, d')"
  shows "daemon_step sha256_hex now d d'"
proof -
  obtain info iok where i: "dec_struct info_request_member raw \<lparr>dq_type = []\<rparr> = (info, iok)" by fastforce
  obtain s sok where s: "dec_struct dirty_event_member raw zero_dirty_event = (s, sok)" by fastforce
  obtain e eok where e: "dec_struct hook_event_member raw zero_hook_event = (e, eok)" by fastforce
  have "dirty_event_wf s" "hook_event_wf e"
    using dec_dirty_event_wf[OF assms(1) zero_wf(3)] dec_hook_event_wf[OF assms(1) zero_wf(2)] s e by simp_all
  then show ?thesis
    using assms(2) handle_signal_step[of s] handle_hook_event_step[of e]
    by (auto simp: handle_value_def i s e intro: daemon_step.intros split: if_splits)
qed

lemma handle_connection_step:
  "handle_connection sha256_hex uuid now peer_ok input d = (reply, d') \<Longrightarrow> daemon_step sha256_hex now d d'"
  by (auto simp: handle_connection_def intro: daemon_step.intros handle_value_step dest: parse_prefix_ok
      split: if_splits option.splits)

lemma enqueue_queue_ok: "queue_ok q \<Longrightarrow> queue_ok (enqueue_event i body now q)"
  by (simp add: queue_ok_def enqueue_ok)

lemma daemon_step_ok: "daemon_step sha256_hex now d d' \<Longrightarrow> daemon_ok sha256_hex d \<Longrightarrow> daemon_ok sha256_hex d'"
  by (induction rule: daemon_step.induct) (auto simp: daemon_ok_def enqueue_queue_ok)

end
