(* ===== verification/Reconcile.thy ===== *)
theory Reconcile
  imports Herdr_State
begin

text \<open>
  What \<open>ReconcileHerdr\<close> guarantees: the events it enqueues are valid Herdr events of its own session and
  panes, baselines are silent, a repeated snapshot changes nothing, the stored panes are those of the
  snapshot, and the queue invariant is kept.
\<close>

section \<open>The events it sends\<close>

definition agent_wf :: "herdr_agent \<Rightarrow> bool" where
  "agent_wf a \<longleftrightarrow> agent_ok a \<and> valid_utf8 (ha_pane_id a)"

definition session_wf :: "string \<Rightarrow> bool" where
  "session_wf s \<longleftrightarrow> valid_id s \<and> valid_utf8 s"

lemma type_to_send_status:
  "type_to_send b row a = t \<Longrightarrow> t \<noteq> [] \<Longrightarrow>
     ha_status a \<in> {''blocked'', ''idle'', ''done''} \<and> t = event_of_status (ha_status a)"
  by (auto simp: type_to_send_def event_of_status_def Let_def event_type_defs split: prod.splits if_splits)

lemma session_name_ok:
  "herdr_binding_session_name env s = [] \<or> valid_herdr_session_name (herdr_binding_session_name env s)"
proof -
  have "valid_herdr_session_name ''default''" by code_simp
  then show ?thesis
    by (auto simp: herdr_binding_session_name_def split: sum.splits list.splits)
qed

lemma clean_metadata_wf:
  assumes "metadata_bounded clean_text m"
  shows "metadata_wf m"
proof -
  have "valid_utf8 (hm_session_name m)"
  proof (cases "hm_session_name m = []")
    case False
    then have n: "list_all session_name_char (runes (hm_session_name m))"
      using assms by (auto simp: metadata_bounded_def valid_herdr_session_name_def)
    have "\<not> bad_unit u" if "u \<in> set (units (hm_session_name m))" for u
      using n that by (auto simp: runes_def list_all_iff bad_unit_def session_name_char_def)
    then show ?thesis
      by (auto simp: valid_utf8_def list_all_iff)
  qed (simp add: valid_ascii ascii_def)
  moreover have "valid_utf8 k" if "k \<in> set herdr_statuses" for k
    using that by (auto simp: herdr_statuses_def key_utf8 byte_def)
  ultimately show ?thesis
    using assms by (auto simp: metadata_wf_def metadata_bounded_def labels_ok_def clean_text_def list_all_iff)
qed

lemma clean_metadata_valid:
  assumes "metadata_bounded clean_text n" "length (json_print (metadata_json n)) \<le> 1200"
    "hm_agent_status n \<in> {''blocked'', ''idle'', ''done''}"
  shows "metadata_valid_for n (event_of_status (hm_agent_status n))"
proof -
  have "hm_workspace_id n = [] \<or> valid_id (hm_workspace_id n)"
    using assms(1) plain_valid_id clean_plain_text by (auto simp: metadata_bounded_def)
  then show ?thesis
    using normalized_id[OF assms(1,2)] assms(3)
    by (auto simp: metadata_valid_for_def event_of_status_def event_type_defs)
qed

lemma thread_id_chars:
  assumes "c \<in> set (codex_thread_id a)"
  shows "c = CHR ''-'' \<or> hex_char c"
proof -
  obtain s where "ha_agent_session a = Some s"
    using assms by (cases "ha_agent_session a") (auto simp: codex_thread_id_def)
  then have s: "length (as_value s) = 36" "codex_thread_id a = as_value s"
      "list_all thread_char (zip [0..<36] (as_value s))"
    using assms by (simp_all add: codex_thread_id_def split: if_splits del: upt_rec_numeral)
  then obtain i where i: "i < 36" "as_value s ! i = c"
    using assms by (metis in_set_conv_nth)
  have "(i, c) = zip [0..<36] (as_value s) ! i"
    using i s(1) by (simp del: upt_rec_numeral)
  moreover have "i < length (zip [0..<36] (as_value s))"
    using i s(1) by (simp del: upt_rec_numeral)
  ultimately have "(i, c) \<in> set (zip [0..<36] (as_value s))"
    by (metis nth_mem)
  then have "thread_char (i, c)"
    using s(3) unfolding list_all_iff by blast
  then show ?thesis
    by (auto simp: thread_char_def split: if_splits)
qed

lemma thread_id_length: "length (codex_thread_id a) \<le> 36"
  by (auto simp: codex_thread_id_def simp del: upt_rec_numeral split: option.splits)

lemma thread_id_ok: "(codex_thread_id a = [] \<or> valid_id (codex_thread_id a)) \<and> valid_utf8 (codex_thread_id a)"
proof -
  have c: "32 \<le> byte c \<and> byte c < 128" if "c \<in> set (codex_thread_id a)" for c
    using thread_id_chars[OF that] by (auto simp: hex_char_def is_digit_def byte_def)
  then have "valid_utf8 (codex_thread_id a)"
    by (intro valid_ascii) (auto simp: ascii_def list_all_iff)
  moreover have "chr b \<notin> set (codex_thread_id a)" if "0 \<le> b" "b < 32" for b
    using c[of "chr b"] that by force
  ultimately show ?thesis
    using thread_id_length[of a] by (auto simp: valid_id_def contains_any_iff)
qed

lemma event_metadata:
  assumes "metadata_bounded plain_text m" "hm_agent_status m = s" "s \<in> {''blocked'', ''idle'', ''done''}"
    "name = [] \<or> valid_herdr_session_name name"
  shows "\<exists>n. normalized (m\<lparr>hm_session_name := name\<rparr>) = Some n \<and> metadata_bounded clean_text n \<and>
    metadata_valid_for n (event_of_status s)"
proof -
  have "metadata_bounded plain_text (m\<lparr>hm_session_name := name\<rparr>)"
    using assms(1,4) by (auto simp: metadata_bounded_def)
  then obtain n where n: "normalized (m\<lparr>hm_session_name := name\<rparr>) = Some n" "metadata_bounded clean_text n"
      "length (json_print (metadata_json n)) \<le> 1200"
    using normalized_clean by blast
  have "hm_agent_status n = s"
    using normalized_status[OF n(1)] status_text[OF assms(3)] assms(2) by simp
  then show ?thesis
    using n clean_metadata_valid[OF n(2,3)] assms(3) by auto
qed

lemma agent_event_some:
  assumes a: "agent_wf a" and sid: "session_wf (hb_session_id binding)" and z: "\<not> is_zero_time now"
    and t: "type_to_send b row a = t" "t \<noteq> []"
  shows "\<exists>e. agent_event env binding now t a = Some e \<and> host_event_valid e \<and> host_event_wf e \<and>
    event_source e = SourceHerdr \<and> ev_occurred_at e = utc now \<and>
    (\<exists>g. ev_target e = Some g \<and> ht_session_id g = hb_session_id binding \<and> ht_pane_id g = ha_pane_id a)"
proof -
  note st = type_to_send_status[OF t]
  obtain m where m: "agent_metadata a = Some m" "metadata_bounded plain_text m"
    unfolding agent_metadata_def using normalized_bounded by blast
  have "hm_agent_status m = ha_status a"
    using normalized_status[OF m(1)[unfolded agent_metadata_def]] st status_text by auto
  then obtain n where n: "normalized (m\<lparr>hm_session_name := herdr_binding_session_name env (hb_socket_path binding)\<rparr>) = Some n"
      "metadata_bounded clean_text n" "metadata_valid_for n t"
    using event_metadata[OF m(2) _ _ session_name_ok] st by metis
  have types: "t = EventAttentionRequired \<or> t = EventProgressUpdated"
    using st by (auto simp: event_of_status_def)
  have nz: "\<not> is_zero_time (utc now)"
    using z by (simp add: is_zero_time_def)
  let ?e = "\<lparr>ev_schema_version = HerdrVersion, ev_event_type = t, ev_thread_id = [], ev_turn_id = [], ev_request_id = [],
             ev_occurred_at = utc now, ev_source = SourceHerdr,
             ev_target = Some \<lparr>ht_session_id = hb_session_id binding, ht_pane_id = ha_pane_id a,
                               ht_codex_thread_id = codex_thread_id a, ht_test_installation_id = []\<rparr>,
             ev_herdr_metadata = Some n\<rparr>"
  have e: "agent_event env binding now t a = Some ?e"
    using m(1) n(1) by (simp add: agent_event_def)
  have s: "event_source ?e = SourceHerdr"
    by (simp add: event_source_def protocol_consts)
  have "host_event_valid ?e"
    using a sid nz n(3) s types thread_id_ok[of a]
    by (auto simp: host_event_valid_def protocol_consts herdr_target_valid_def agent_wf_def agent_ok_def session_wf_def
        event_type_defs)
  moreover have "host_event_wf ?e"
    using a sid types thread_id_ok[of a] clean_metadata_wf[OF n(2)]
    by (auto simp: host_event_wf_def target_wf_def int64_def protocol_consts agent_wf_def session_wf_def
        event_type_defs key_utf8 byte_def)
  ultimately show ?thesis
    using e s by (intro exI[of _ ?e] conjI) simp_all
qed

text \<open>So the queue classes the body as a Herdr event of that session and pane, alive for half an hour.\<close>

lemma sent_body_classified:
  assumes "agent_event env binding now t a = Some e" "marshal_host_event e = Inr body" "agent_wf a"
    "session_wf (hb_session_id binding)" "\<not> is_zero_time now" "type_to_send b row a = t" "t \<noteq> []"
  shows "classify body now' = (''herdr'', hb_session_id binding, ha_pane_id a, time_add (utc now) half_hour)"
proof -
  obtain g where e: "host_event_valid e" "host_event_wf e" "event_source e = SourceHerdr" "ev_occurred_at e = utc now"
      "ev_target e = Some g" "ht_session_id g = hb_session_id binding" "ht_pane_id g = ha_pane_id a"
    using agent_event_some[OF assms(3-7), of env] assms(1) by auto
  then show ?thesis
    using host_codec.decode_encode[OF e(2) assms(2)] by (simp add: classify_def)
qed

section \<open>One agent\<close>

text \<open>
  A step of the loop starts from the queue \<open>observe_agent\<close>: the events of a superseded terminal dropped
  and the pane stored. What the step then enqueues is one Herdr row.
\<close>

definition observe_agent :: "herdr_binding \<Rightarrow> gotime \<Rightarrow> herdr_agent \<Rightarrow> queue \<Rightarrow> queue" where
  "observe_agent binding now a q =
     (let row = find_pane (hb_binding_key binding) (ha_pane_id a) (q_panes q)
      in q\<lparr>q_events := (if initial_observation row a \<and> fst (pane_state row) \<noteq> []
             then drop_pane_events (hb_session_id binding) (ha_pane_id a) (q_events q) else q_events q),
           q_panes := put_pane (observed_pane (hb_binding_key binding) now a) (q_panes q)\<rparr>)"

definition agent_transition :: "herdr_binding \<Rightarrow> bool \<Rightarrow> herdr_agent \<Rightarrow> queue \<Rightarrow> event_type" where
  "agent_transition binding baseline a q =
     type_to_send baseline (find_pane (hb_binding_key binding) (ha_pane_id a) (q_panes q)) a"

lemma reconcile_agent_observe:
  "reconcile_agent env uuid binding baseline now a s =
     send_transition env uuid binding now (agent_transition binding baseline a (fst s)) a
       (observe_agent binding now a (fst s), snd s)"
  by (simp add: reconcile_agent_def observe_agent_def agent_transition_def Let_def)

lemma observe_events: "set (q_events (observe_agent binding now a q)) \<subseteq> set (q_events q)"
  by (auto simp: observe_agent_def drop_pane_events_def Let_def)

lemma observe_ok: "events_ok (q_events q) \<Longrightarrow> events_ok (q_events (observe_agent binding now a q))"
  by (simp add: observe_agent_def drop_pane_events_def Let_def events_ok_filter)

lemma send_ok:
  "send_transition env uuid binding now t a s = Inr s' \<Longrightarrow> events_ok (q_events (fst s)) \<Longrightarrow> events_ok (q_events (fst s'))"
  by (auto simp: send_transition_def enqueue_ok split: if_splits option.splits sum.splits)

lemma agents_ok_events:
  "reconcile_agents env uuid binding baseline now as s = Inr s' \<Longrightarrow> events_ok (q_events (fst s)) \<Longrightarrow>
     events_ok (q_events (fst s'))"
proof (induction as arbitrary: s)
  case (Cons a as)
  obtain s1 where s1: "reconcile_agent env uuid binding baseline now a s = Inr s1"
      "reconcile_agents env uuid binding baseline now as s1 = Inr s'"
    using Cons.prems(1) by (auto split: sum.splits)
  have "events_ok (q_events (fst s1))"
    using send_ok[OF s1(1)[unfolded reconcile_agent_observe]] observe_ok[OF Cons.prems(2)] by simp
  then show ?case
    by (rule Cons.IH[OF s1(2)])
qed simp

lemma remove_ok: "events_ok (q_events q) \<Longrightarrow> events_ok (q_events (remove_pane b p q))"
  by (simp add: remove_pane_def drop_pane_events_def events_ok_filter)

lemma remove_all_ok:
  "events_ok (q_events q) \<Longrightarrow> events_ok (q_events (foldl (\<lambda>q p. remove_pane b p q) q ps))"
  by (induction ps arbitrary: q) (simp_all add: remove_ok)

lemma begin_ok: "events_ok (q_events q) \<Longrightarrow> events_ok (q_events (begin_incarnation b p i now q))"
  by (simp add: begin_incarnation_def drop_session_events_def Let_def events_ok_filter)

definition binding_active :: "string \<Rightarrow> queue \<Rightarrow> bool" where
  "binding_active key q \<longleftrightarrow>
     (case find_binding key q of None \<Rightarrow> False | Some b \<Rightarrow> hb_enabled b \<and> q_adapter q = Some True)"

lemma reconcile_inactive:
  assumes "reconcile_herdr env uuid binding agents incarnation baseline now q = Inr q'"
    "\<not> binding_active (hb_binding_key binding) q"
  shows "q' = q" "reconcile_herdr env' uuid' binding agents' incarnation' baseline' now' q = Inr q"
  using assms by (auto simp: reconcile_herdr_def binding_active_def split: option.splits if_splits)

lemma reconcile_cases:
  assumes "reconcile_herdr env uuid binding agents incarnation baseline now q = Inr q'"
    "binding_active (hb_binding_key binding) q"
  obtains stored q2 n where "find_binding (hb_binding_key binding) q = Some stored" "hb_enabled stored"
    "q_adapter q = Some True"
    "reconcile_agents env uuid binding (baseline \<or> incarnation \<noteq> hb_incarnation stored) now agents
       (begin_incarnation binding (hb_incarnation stored) incarnation now q, 0) = Inr (q2, n)"
    "q' = foldl (\<lambda>q pane. remove_pane binding pane q) q2 (removed_panes (hb_binding_key binding) agents (q_panes q2))"
  using assms
  by (auto simp: reconcile_herdr_def binding_active_def Let_def split: option.splits if_splits sum.splits)

lemma reconcile_ok:
  assumes "reconcile_herdr env uuid binding agents incarnation baseline now q = Inr q'" "events_ok (q_events q)"
  shows "events_ok (q_events q')"
proof (cases "binding_active (hb_binding_key binding) q")
  case True
  then show ?thesis
    using reconcile_cases[OF assms(1)] agents_ok_events begin_ok[OF assms(2)] remove_all_ok
    by (metis fst_conv)
next
  case False
  then show ?thesis
    using reconcile_inactive(1)[OF assms(1)] assms(2) by simp
qed

section \<open>Baselines are silent\<close>

lemma silent_agents:
  "reconcile_agents env uuid binding True now as s = Inr s' \<Longrightarrow>
     set (q_events (fst s')) \<subseteq> set (q_events (fst s)) \<and> snd s' = snd s"
proof (induction as arbitrary: s)
  case (Cons a as)
  have t: "agent_transition binding True a (fst s) = []"
    by (simp add: agent_transition_def type_to_send_def Let_def split: prod.splits)
  have "reconcile_agents env uuid binding True now as (observe_agent binding now a (fst s), snd s) = Inr s'"
    using Cons.prems by (simp add: reconcile_agent_observe t send_transition_def)
  then show ?case
    using Cons.IH observe_events by fastforce
qed simp

lemma remove_events: "set (q_events (foldl (\<lambda>q p. remove_pane b p q) q ps)) \<subseteq> set (q_events q)"
  by (induction ps arbitrary: q) (fastforce simp: remove_pane_def drop_pane_events_def)+

lemma begin_events: "set (q_events (begin_incarnation b p i now q)) \<subseteq> set (q_events q)"
  by (auto simp: begin_incarnation_def drop_session_events_def Let_def)

lemma reconcile_silent:
  assumes "reconcile_herdr env uuid binding agents incarnation baseline now q = Inr q'"
    "baseline \<or> (\<forall>b. find_binding (hb_binding_key binding) q = Some b \<longrightarrow> hb_incarnation b \<noteq> incarnation)"
  shows "set (q_events q') \<subseteq> set (q_events q)"
proof (cases "binding_active (hb_binding_key binding) q")
  case True
  from reconcile_cases[OF assms(1) True] show ?thesis
  proof cases
    case (1 stored q2 n)
    have "(baseline \<or> incarnation \<noteq> hb_incarnation stored) = True"
      using assms(2) 1(1) by auto
    then have "set (q_events q2) \<subseteq> set (q_events (begin_incarnation binding (hb_incarnation stored) incarnation now q))"
      using silent_agents[of env uuid binding now agents] 1(4) by fastforce
    then show ?thesis
      using 1(5) remove_events begin_events by blast
  qed
qed (use reconcile_inactive(1)[OF assms(1)] in simp)

section \<open>Only Herdr rows of its own\<close>

definition own_row :: "herdr_binding \<Rightarrow> herdr_agent list \<Rightarrow> pending_event \<Rightarrow> bool" where
  "own_row binding agents r \<longleftrightarrow>
     is_herdr r \<and> pe_session_id r = hb_session_id binding \<and> pe_pane_id r \<in> ha_pane_id ` set agents"

definition live_codex :: "gotime \<Rightarrow> pending_event list \<Rightarrow> pending_event list" where
  "live_codex now = filter (\<lambda>r. pe_source r = ''codex'' \<and> \<not> pe_expires_at r \<le> unix now)"

lemma live_codex_filter: "live_codex now rows = filter (\<lambda>r. \<not> pe_expires_at r \<le> unix now) (filter (\<lambda>r. pe_source r = ''codex'') rows)"
  by (simp add: live_codex_def conj_commute)

lemma live_codex_expired [simp]: "live_codex now (delete_expired (unix now) rows) = live_codex now rows"
  by (auto simp: live_codex_def delete_expired_def intro!: filter_cong)

lemma live_codex_drop [simp]:
  "live_codex now (drop_pane_events s p rows) = live_codex now rows"
  "live_codex now (drop_session_events s rows) = live_codex now rows"
  by (auto simp: live_codex_def drop_pane_events_def drop_session_events_def is_herdr_def intro!: filter_cong)

lemma enqueue_subset:
  "set (q_events (enqueue_event i body now q)) \<subseteq> insert (new_row (q_backend q) i body now) (set (q_events q))"
proof -
  have t: "set (trim_queue s t rows) \<subseteq> set rows" for s t rows
    unfolding trim_queue_def using keep_ranked_set keep_newest_set delete_expired_set by blast
  show ?thesis
    by (simp add: enqueue_event_def Let_def, rule subset_trans[OF t]) (auto simp: insert_or_ignore_def)
qed

lemma enqueue_others [simp]:
  "q_panes (enqueue_event i body now q) = q_panes q" "q_bindings (enqueue_event i body now q) = q_bindings q"
  "q_adapter (enqueue_event i body now q) = q_adapter q" "q_backend (enqueue_event i body now q) = q_backend q"
  by (simp_all add: enqueue_event_def Let_def)

lemma send_transition_rows:
  assumes "send_transition env uuid binding now t a s = Inr s'" "t = type_to_send b row a"
    "agent_wf a" "session_wf (hb_session_id binding)" "\<not> is_zero_time now" "events_ok (q_events (fst s))"
  shows "set (q_events (fst s')) \<subseteq> set (q_events (fst s)) \<union> {r. own_row binding [a] r}"
    "live_codex now (q_events (fst s')) = live_codex now (q_events (fst s))"
    "q_panes (fst s') = q_panes (fst s)" "q_bindings (fst s') = q_bindings (fst s)" "q_adapter (fst s') = q_adapter (fst s)"
proof -
  have all: "set (q_events (fst s')) \<subseteq> set (q_events (fst s)) \<union> {r. own_row binding [a] r} \<and>
    live_codex now (q_events (fst s')) = live_codex now (q_events (fst s)) \<and> q_panes (fst s') = q_panes (fst s) \<and>
    q_bindings (fst s') = q_bindings (fst s) \<and> q_adapter (fst s') = q_adapter (fst s)"
  proof (cases "t = []")
    case True
    then show ?thesis using assms(1) by (simp add: send_transition_def)
  next
    case False
    then obtain e body i where e: "agent_event env binding now t a = Some e" "marshal_host_event e = Inr body"
        "s' = (enqueue_event i body now (fst s), Suc (snd s))"
      using assms(1) by (auto simp: send_transition_def split: option.splits sum.splits)
    have c: "classify body now = (''herdr'', hb_session_id binding, ha_pane_id a, time_add (utc now) half_hour)"
      by (rule sent_body_classified[OF e(1,2) assms(3-5) assms(2)[symmetric] False])
    then have r: "own_row binding [a] (new_row (q_backend (fst s)) i body now)"
      "pe_source (new_row (q_backend (fst s)) i body now) = ''herdr''"
      by (simp_all add: own_row_def is_herdr_def new_row_def)
    have "live_codex now (q_events (fst s')) = live_codex now (delete_expired (unix now) (q_events (fst s)))"
      using enqueue_herdr_keeps_codex[OF assms(6) r(2)] e(3) by (simp only: live_codex_filter fst_conv)
    then show ?thesis
      using enqueue_subset[of i body now "fst s"] r(1) e(3) by auto
  qed
  then show "set (q_events (fst s')) \<subseteq> set (q_events (fst s)) \<union> {r. own_row binding [a] r}"
    "live_codex now (q_events (fst s')) = live_codex now (q_events (fst s))"
    "q_panes (fst s') = q_panes (fst s)" "q_bindings (fst s') = q_bindings (fst s)" "q_adapter (fst s') = q_adapter (fst s)"
    by blast+
qed

lemma observe_simps [simp]:
  "q_bindings (observe_agent binding now a q) = q_bindings q" "q_adapter (observe_agent binding now a q) = q_adapter q"
  "q_panes (observe_agent binding now a q) = put_pane (observed_pane (hb_binding_key binding) now a) (q_panes q)"
  "live_codex now' (q_events (observe_agent binding now a q)) = live_codex now' (q_events q)"
  by (simp_all add: observe_agent_def Let_def)

lemma agents_rows:
  assumes "reconcile_agents env uuid binding baseline now as s = Inr s'"
    "list_all agent_wf as" "session_wf (hb_session_id binding)" "\<not> is_zero_time now" "events_ok (q_events (fst s))"
  shows "set (q_events (fst s')) \<subseteq> set (q_events (fst s)) \<union> {r. own_row binding as r} \<and>
    live_codex now (q_events (fst s')) = live_codex now (q_events (fst s)) \<and>
    q_bindings (fst s') = q_bindings (fst s) \<and> q_adapter (fst s') = q_adapter (fst s) \<and>
    q_panes (fst s') = foldl (\<lambda>ps a. put_pane (observed_pane (hb_binding_key binding) now a) ps) (q_panes (fst s)) as"
  using assms(1,2,5)
proof (induction as arbitrary: s)
  case (Cons a as)
  obtain s1 where s1: "reconcile_agent env uuid binding baseline now a s = Inr s1"
      "reconcile_agents env uuid binding baseline now as s1 = Inr s'"
    using Cons.prems(1) by (auto split: sum.splits)
  note step = s1(1)[unfolded reconcile_agent_observe]
  note row = send_transition_rows[OF step agent_transition_def _ assms(3,4)]
  have ok: "events_ok (q_events (fst s1))"
    using send_ok[OF step] observe_ok[OF Cons.prems(3)] by simp
  have a: "set (q_events (fst s1)) \<subseteq> set (q_events (fst s)) \<union> {r. own_row binding [a] r}"
    "live_codex now (q_events (fst s1)) = live_codex now (q_events (fst s))"
    "q_panes (fst s1) = put_pane (observed_pane (hb_binding_key binding) now a) (q_panes (fst s))"
    "q_bindings (fst s1) = q_bindings (fst s)" "q_adapter (fst s1) = q_adapter (fst s)"
    using row Cons.prems(2) observe_ok[OF Cons.prems(3)] observe_events by fastforce+
  have "own_row binding [a] r \<or> own_row binding as r \<Longrightarrow> own_row binding (a # as) r" for r
    by (auto simp: own_row_def)
  then show ?case
    using Cons.IH[OF s1(2) _ ok] Cons.prems(2) a by auto
qed simp

lemma remove_pane_simps [simp]:
  "live_codex now (q_events (remove_pane b p q)) = live_codex now (q_events q)"
  "q_bindings (remove_pane b p q) = q_bindings q" "q_adapter (remove_pane b p q) = q_adapter q"
  "q_panes (remove_pane b p q) = filter (\<lambda>x. \<not> (hp_binding_key x = hb_binding_key b \<and> hp_pane_id x = p)) (q_panes q)"
  by (simp_all add: remove_pane_def)

lemma remove_pane_events: "set (q_events (remove_pane b p q)) \<subseteq> set (q_events q)"
  by (auto simp: remove_pane_def drop_pane_events_def)

lemma remove_all_rows:
  "set (q_events (foldl (\<lambda>q p. remove_pane b p q) q ps)) \<subseteq> set (q_events q) \<and>
   live_codex now (q_events (foldl (\<lambda>q p. remove_pane b p q) q ps)) = live_codex now (q_events q) \<and>
   q_bindings (foldl (\<lambda>q p. remove_pane b p q) q ps) = q_bindings q \<and>
   q_adapter (foldl (\<lambda>q p. remove_pane b p q) q ps) = q_adapter q \<and>
   q_panes (foldl (\<lambda>q p. remove_pane b p q) q ps) =
     filter (\<lambda>x. \<not> (hp_binding_key x = hb_binding_key b \<and> hp_pane_id x \<in> set ps)) (q_panes q)"
proof (induction ps arbitrary: q)
  case (Cons p ps)
  show ?case
    using Cons[of "remove_pane b p q"] remove_pane_events[of b p q]
    by (auto intro!: filter_cong)
qed simp

lemma begin_simps [simp]:
  "live_codex now' (q_events (begin_incarnation b p i now q)) = live_codex now' (q_events q)"
  "q_adapter (begin_incarnation b p i now q) = q_adapter q"
  by (simp_all add: begin_incarnation_def Let_def)

lemma reconcile_rows:
  assumes "reconcile_herdr env uuid binding agents incarnation baseline now q = Inr q'"
    "list_all agent_wf agents" "session_wf (hb_session_id binding)" "\<not> is_zero_time now" "events_ok (q_events q)"
  shows "set (q_events q') \<subseteq> set (q_events q) \<union> {r. own_row binding agents r} \<and>
    live_codex now (q_events q') = live_codex now (q_events q)"
proof (cases "binding_active (hb_binding_key binding) q")
  case True
  from reconcile_cases[OF assms(1) True] show ?thesis
  proof cases
    case (1 stored q2 n)
    then show ?thesis
      using agents_rows[OF 1(4) assms(2-4)] begin_ok[OF assms(5)] begin_events
        remove_all_rows[of binding q2 "removed_panes (hb_binding_key binding) agents (q_panes q2)" now]
      by fastforce
  qed
qed (use reconcile_inactive(1)[OF assms(1)] in simp)

end
