(* ===== verification/Capture.thy ===== *)
theory Capture
  imports Daemon Reconcile
begin

text \<open>
  The Herdr capture of the daemon: \<open>reconcileHerdr\<close> and \<open>herdrLoop\<close> of \<open>internal/agent/herdr_state.go\<close>,
  \<open>HerdrSockets\<close> and \<open>discoverHerdr\<close> of \<open>internal/agent/herdr_capture.go\<close>. What a Herdr server answers
  (\<open>read_herdr_agents\<close> of the replies), the identifiers \<open>NewUUID\<close> draws, the clock, the sessions directory
  and \<open>lstat\<close> are parameters. Errors of the database are not modelled.
\<close>

section \<open>One reconciliation\<close>

text \<open>What the surroundings say during one call of \<open>reconcileHerdr\<close>.\<close>

record surroundings =
  su_cancelled :: bool
  su_read :: "string \<Rightarrow> (herdr_agent list \<times> string) result"
  su_binding_id :: "string result"
  su_event_id :: "nat \<Rightarrow> string result"
  su_bind_now :: gotime
  su_now :: gotime

definition reconcile_signal ::
  "environment \<Rightarrow> (string \<Rightarrow> string) \<Rightarrow> surroundings \<Rightarrow> herdr_dirty_event \<Rightarrow> daemon \<Rightarrow> daemon" where
  "reconcile_signal env sha256_hex su e d =
     (let q = dm_queue d in
      if capture_enabled q \<noteq> Inr True then d
      else let stored = get_binding (de_binding_key e) q;
               needs_binding = (case stored of Inl _ \<Rightarrow> True | Inr b \<Rightarrow> \<not> hb_enabled b);
               socket = (if needs_binding then de_socket_path e else (case stored of Inl _ \<Rightarrow> [] | Inr b \<Rightarrow> hb_socket_path b))
      in if socket = [] then d
         else case su_read su socket of
             Inl _ \<Rightarrow> d
           | Inr (agents, incarnation) \<Rightarrow>
               (case if needs_binding then bind_herdr sha256_hex (su_binding_id su) socket (su_bind_now su) q else (stored, q) of
                  (Inl _, q') \<Rightarrow> d\<lparr>dm_queue := q'\<rparr>
                | (Inr binding, q') \<Rightarrow>
                    (case reconcile_herdr env (su_event_id su) binding agents incarnation (de_baseline e) (su_now su) q' of
                       Inl _ \<Rightarrow> d\<lparr>dm_queue := q'\<rparr>
                     | Inr q'' \<Rightarrow> d\<lparr>dm_queue := q'', dm_wake := True\<rparr>)))"

section \<open>Discovery\<close>

record dir_entry =
  dn_name :: string
  dn_is_dir :: bool
  dn_is_symlink :: bool

definition session_entries :: "dir_entry list option \<Rightarrow> dir_entry list" where
  "session_entries directory =
     (case directory of None \<Rightarrow> [] | Some entries \<Rightarrow> filter (\<lambda>e. dn_is_dir e \<and> \<not> dn_is_symlink e) (take 128 entries))"

fun session_sockets :: "environment \<Rightarrow> dir_entry list \<Rightarrow> string list" where
  "session_sockets env [] = []"
| "session_sockets env (e # es) =
     (case resolve_herdr_socket env (dn_name e) [] of
        Inl _ \<Rightarrow> session_sockets env es
      | Inr socket \<Rightarrow> socket # session_sockets env es)"

definition herdr_sockets ::
  "environment \<Rightarrow> (string \<Rightarrow> dir_entry list option) \<Rightarrow> (string \<Rightarrow> socket_stat option) \<Rightarrow> string list" where
  "herdr_sockets env read_dir lstat =
     (case resolve_herdr_socket env ''default'' [] of
        Inl _ \<Rightarrow> []
      | Inr path \<Rightarrow>
          filter (\<lambda>s. case lstat s of None \<Rightarrow> False | Some st \<Rightarrow> st_is_socket st)
            (path # session_sockets env (session_entries (read_dir (join_path [dir_path path, ''sessions''])))))"

definition baseline_signal :: "(string \<Rightarrow> string) \<Rightarrow> string \<Rightarrow> herdr_dirty_event" where
  "baseline_signal sha256_hex socket =
     \<lparr>de_type = [], de_binding_key = herdr_binding_key sha256_hex socket, de_pane_id = [], de_socket_path = socket,
      de_baseline = True\<rparr>"

definition unbound :: "(string \<Rightarrow> string) \<Rightarrow> string \<Rightarrow> queue \<Rightarrow> bool" where
  "unbound sha256_hex socket q \<longleftrightarrow>
     (case get_binding (herdr_binding_key sha256_hex socket) q of
        Inl _ \<Rightarrow> True
      | Inr b \<Rightarrow> \<not> hb_enabled b \<or> hb_incarnation b = [])"

text \<open>The surroundings of the \<open>i\<close>-th socket are \<open>w i\<close>.\<close>

fun discover_sockets ::
  "environment \<Rightarrow> (string \<Rightarrow> string) \<Rightarrow> (nat \<Rightarrow> surroundings) \<Rightarrow> nat \<Rightarrow> string list \<Rightarrow> daemon \<Rightarrow> daemon" where
  "discover_sockets env sha256_hex w i [] d = d"
| "discover_sockets env sha256_hex w i (socket # sockets) d =
     (if su_cancelled (w i) then d
      else discover_sockets env sha256_hex w (Suc i) sockets
        (if unbound sha256_hex socket (dm_queue d)
         then reconcile_signal env sha256_hex (w i) (baseline_signal sha256_hex socket) d else d))"

definition discover_herdr ::
  "environment \<Rightarrow> (string \<Rightarrow> string) \<Rightarrow> (nat \<Rightarrow> surroundings) \<Rightarrow> string list \<Rightarrow> daemon \<Rightarrow> daemon" where
  "discover_herdr env sha256_hex w sockets d =
     (if capture_enabled (dm_queue d) \<noteq> Inr True then d else discover_sockets env sha256_hex w 0 sockets d)"

section \<open>The loop\<close>

text \<open>The map \<open>dirty\<close> of the loop, by binding key.\<close>

record herdr_loop =
  hl_daemon :: daemon
  hl_dirty :: "herdr_dirty_event gomap"

definition old_baseline :: "herdr_dirty_event gomap \<Rightarrow> string \<Rightarrow> bool" where
  "old_baseline dirty key = (case map_get dirty key of None \<Rightarrow> False | Some old \<Rightarrow> de_baseline old)"

definition accept_dirty :: "herdr_dirty_event \<Rightarrow> herdr_dirty_event gomap \<Rightarrow> herdr_dirty_event gomap" where
  "accept_dirty e dirty =
     (if length dirty < 128
      then map_put (de_binding_key e) (e\<lparr>de_baseline := de_baseline e \<or> old_baseline dirty (de_binding_key e)\<rparr>) dirty
      else dirty)"

text \<open>\<open>case event := <-d.herdrDirty\<close>\<close>

definition receive_dirty :: "herdr_loop \<Rightarrow> herdr_loop" where
  "receive_dirty l =
     (case dm_dirty (hl_daemon l) of
        [] \<Rightarrow> l
      | e # es \<Rightarrow> \<lparr>hl_daemon = (hl_daemon l)\<lparr>dm_dirty := es\<rparr>, hl_dirty = accept_dirty e (hl_dirty l)\<rparr>)"

text \<open>\<open>case <-ticker.C\<close>: \<open>keys\<close> is the order in which Go visits the map.\<close>

definition drain_one ::
  "environment \<Rightarrow> (string \<Rightarrow> string) \<Rightarrow> surroundings \<Rightarrow> string \<Rightarrow> herdr_loop \<Rightarrow> herdr_loop" where
  "drain_one env sha256_hex su key l =
     (case map_get (hl_dirty l) key of
        None \<Rightarrow> l
      | Some e \<Rightarrow> \<lparr>hl_daemon = reconcile_signal env sha256_hex su e (hl_daemon l), hl_dirty = map_del key (hl_dirty l)\<rparr>)"

fun drain_dirty ::
  "environment \<Rightarrow> (string \<Rightarrow> string) \<Rightarrow> (nat \<Rightarrow> surroundings) \<Rightarrow> nat \<Rightarrow> string list \<Rightarrow> herdr_loop \<Rightarrow> herdr_loop" where
  "drain_dirty env sha256_hex w i [] l = l"
| "drain_dirty env sha256_hex w i (key # keys) l =
     (let l' = drain_one env sha256_hex (w i) key l
      in if su_cancelled (w i) then l' else drain_dirty env sha256_hex w (Suc i) keys l')"

text \<open>The baseline of the stored bindings with which the loop starts; True when it was cancelled.\<close>

fun start_bindings ::
  "environment \<Rightarrow> (string \<Rightarrow> string) \<Rightarrow> (nat \<Rightarrow> surroundings) \<Rightarrow> nat \<Rightarrow> herdr_binding list \<Rightarrow> daemon \<Rightarrow> bool \<times> daemon" where
  "start_bindings env sha256_hex w i [] d = (False, d)"
| "start_bindings env sha256_hex w i (b # bs) d =
     (if su_cancelled (w i) then (True, d)
      else start_bindings env sha256_hex w (Suc i) bs
        (reconcile_signal env sha256_hex (w i)
           \<lparr>de_type = [], de_binding_key = hb_binding_key b, de_pane_id = [], de_socket_path = [], de_baseline = True\<rparr> d))"

text \<open>The loop before its first \<open>select\<close>; \<open>w'\<close> are the surroundings of the first discovery.\<close>

definition start_loop ::
  "environment \<Rightarrow> (string \<Rightarrow> string) \<Rightarrow> (nat \<Rightarrow> surroundings) \<Rightarrow> (nat \<Rightarrow> surroundings) \<Rightarrow> string list \<Rightarrow> daemon \<Rightarrow> herdr_loop option" where
  "start_loop env sha256_hex w w' sockets d =
     (case start_bindings env sha256_hex w 0 (herdr_bindings (dm_queue d)) d of
        (True, _) \<Rightarrow> None
      | (False, d') \<Rightarrow> Some \<lparr>hl_daemon = discover_herdr env sha256_hex w' sockets d', hl_dirty = []\<rparr>)"

section \<open>Bindings stay well-formed\<close>

definition bindings_ok :: "(string \<Rightarrow> string) \<Rightarrow> herdr_binding list \<Rightarrow> bool" where
  "bindings_ok sha256_hex bs \<longleftrightarrow>
     length bs \<le> 128 \<and> distinct (map hb_binding_key bs) \<and> distinct (map hb_session_id bs) \<and>
     list_all (\<lambda>b. hb_binding_key b = herdr_binding_key sha256_hex (hb_socket_path b) \<and> session_wf (hb_session_id b)) bs"

lemma find_binding_some: "find_binding key q = Some b \<Longrightarrow> b \<in> set (q_bindings q) \<and> hb_binding_key b = key"
  by (auto simp: find_binding_def find_Some_iff)

lemma find_binding_none: "find_binding key q = None \<Longrightarrow> key \<notin> hb_binding_key ` set (q_bindings q)"
  by (auto simp: find_binding_def find_None_iff)

text \<open>An update of times, incarnations and switches keeps the bindings well-formed.\<close>

lemma bindings_ok_map:
  assumes "\<And>b. hb_binding_key (f b) = hb_binding_key b" "\<And>b. hb_session_id (f b) = hb_session_id b"
    "\<And>b. hb_socket_path (f b) = hb_socket_path b"
  shows "bindings_ok sha256_hex (map f bs) = bindings_ok sha256_hex bs"
  using assms by (simp add: bindings_ok_def comp_def list_all_iff)

lemma bind_herdr_bindings:
  assumes "bind_herdr sha256_hex uuid socket now q = (r, q')" "bindings_ok sha256_hex (q_bindings q)"
    "\<And>s. uuid = Inr s \<Longrightarrow> session_wf s"
  shows "bindings_ok sha256_hex (q_bindings q') \<and> q_events q' = q_events q \<and> q_adapter q' = q_adapter q"
proof (cases "find_binding (herdr_binding_key sha256_hex socket) q")
  case None
  then show ?thesis
    using assms find_binding_none[OF None]
    by (auto simp: bind_herdr_def Let_def bindings_ok_def split: sum.splits if_splits)
next
  case (Some b)
  have "bindings_ok sha256_hex (map (\<lambda>c. if hb_binding_key c = k then c\<lparr>hb_updated_at := t, hb_enabled := True\<rparr> else c) bs) =
      bindings_ok sha256_hex bs" for k t bs
    by (rule bindings_ok_map) simp_all
  then show ?thesis
    using assms(1,2) Some by (auto simp: bind_herdr_def Let_def split: if_splits)
qed

lemma bind_herdr_result:
  assumes "bind_herdr sha256_hex uuid socket now q = (Inr binding, q')" "bindings_ok sha256_hex (q_bindings q)"
    "\<And>s. uuid = Inr s \<Longrightarrow> session_wf s"
  shows "hb_binding_key binding = herdr_binding_key sha256_hex socket \<and> session_wf (hb_session_id binding)"
proof (cases "find_binding (herdr_binding_key sha256_hex socket) q")
  case None
  then show ?thesis
    using assms by (auto simp: bind_herdr_def Let_def split: sum.splits if_splits)
next
  case (Some b)
  then show ?thesis
    using assms find_binding_some[OF Some] by (auto simp: bind_herdr_def Let_def bindings_ok_def list_all_iff split: if_splits)
qed

lemma reconcile_agents_bindings:
  "reconcile_agents env uuid binding baseline now as s = Inr s' \<Longrightarrow>
     q_bindings (fst s') = q_bindings (fst s) \<and> q_adapter (fst s') = q_adapter (fst s)"
proof (induction as arbitrary: s)
  case (Cons a as)
  then show ?case
    by (fastforce simp: reconcile_agent_def send_transition_def Let_def enqueue_event_def
        split: sum.splits if_splits option.splits)
qed simp

lemma remove_all_bindings:
  "q_bindings (foldl (\<lambda>q p. remove_pane b p q) q ps) = q_bindings q \<and> q_adapter (foldl (\<lambda>q p. remove_pane b p q) q ps) = q_adapter q"
  using remove_all_rows[of b q ps undefined] by simp

lemma begin_bindings:
  "bindings_ok sha256_hex (q_bindings (begin_incarnation b p i now q)) = bindings_ok sha256_hex (q_bindings q)"
  by (simp add: begin_incarnation_def Let_def bindings_ok_map)

lemma reconcile_bindings:
  assumes "reconcile_herdr env uuid binding agents incarnation baseline now q = Inr q'"
  shows "bindings_ok sha256_hex (q_bindings q') = bindings_ok sha256_hex (q_bindings q) \<and> q_adapter q' = q_adapter q"
proof (cases "binding_active (hb_binding_key binding) q")
  case True
  from reconcile_cases[OF assms True] show ?thesis
  proof cases
    case (1 stored q2 n)
    show ?thesis
      using reconcile_agents_bindings[OF 1(4)] begin_bindings remove_all_bindings by (simp add: 1(5))
  qed
qed (use reconcile_inactive(1)[OF assms] in simp)

section \<open>The agents of a server\<close>

text \<open>What \<open>read_herdr_agents\<close> returns is well-formed, whatever the server answers.\<close>

lemma dec_elements_inv:
  assumes "list_all json_ok js" "P zero" "\<And>j x. json_ok j \<Longrightarrow> P x \<Longrightarrow> P (fst (d j x))"
  shows "list_all P (fst (dec_elements d zero js))"
  using assms by (induction js) (auto simp: case_prod_beta Let_def)

lemma dec_agent_utf8: "json_ok j \<Longrightarrow> valid_utf8 (ha_pane_id a) \<Longrightarrow> valid_utf8 (ha_pane_id (fst (dec_struct agent_member j a)))"
  by (erule dec_struct_inv[where P = "\<lambda>a. valid_utf8 (ha_pane_id a)"], assumption)
    (simp add: agent_member_def fst_store dec_string_utf8)

lemma dec_agents_utf8:
  assumes "json_ok j" "list_all (\<lambda>a. valid_utf8 (ha_pane_id a)) ags"
  shows "list_all (\<lambda>a. valid_utf8 (ha_pane_id a)) (fst (dec_struct agents_member j ags))"
  using assms
proof (rule dec_struct_inv)
  fix k v and x :: "herdr_agent list"
  assume "json_ok v" "list_all (\<lambda>a. valid_utf8 (ha_pane_id a)) x"
  then show "list_all (\<lambda>a. valid_utf8 (ha_pane_id a)) (fst (agents_member k v x))"
    using dec_elements_inv[where P = "\<lambda>a. valid_utf8 (ha_pane_id a)" and zero = zero_agent, OF _ _ dec_agent_utf8]
    by (cases v) (auto simp: agents_member_def zero_agent_def)
qed

lemma dec_raw_ok: "json_ok v \<Longrightarrow> pred_option json_ok old \<Longrightarrow> pred_option json_ok (fst (dec_raw v old))"
  by (cases v) (simp_all add: dec_raw_def)

lemma herdr_result_ok:
  assumes "herdr_request reply dec zero = Inr x"
  obtains j where "json_ok j" "fst (dec j zero) = x"
proof -
  obtain t j rest where p: "reply = Some t" "parse_prefix (take (1024 * 1024) t) = Some (j, rest)"
    using assms unfolding herdr_request_def by (auto split: option.splits)
  obtain r ok where r: "dec_struct reply_member j \<lparr>hr_id = [], hr_result = None, hr_error = None\<rparr> = (r, ok)" by fastforce
  obtain res where res: "hr_result r = Some res" "fst (dec res zero) = x"
    using assms unfolding herdr_request_def p option.case prod.case r
    by (auto split: option.splits prod.splits if_splits)
  have "pred_option json_ok (hr_result (fst (dec_struct reply_member j \<lparr>hr_id = [], hr_result = None, hr_error = None\<rparr>)))"
    by (rule dec_struct_inv[where P = "\<lambda>r. pred_option json_ok (hr_result r)", OF parse_prefix_ok[OF p(2)]])
      (auto simp: reply_member_def fst_store dec_raw_ok)
  then show ?thesis
    using that[of res] res r by simp
qed

lemma checked_agents: "check_agents evidence as = Inr bs \<Longrightarrow> list_all (\<lambda>a. valid_utf8 (ha_pane_id a)) as \<Longrightarrow> list_all agent_wf bs"
  by (induction as arbitrary: bs) (auto simp: agent_wf_def agent_ok_def split: if_splits sum.splits)

lemma read_agents_wf:
  assumes "read_herdr_agents uid stat0 ping reply stat1 = Inr (as, incarnation)"
  shows "list_all agent_wf as"
proof -
  obtain version raw where raw: "herdr_request reply (dec_struct agents_member) [] = Inr raw"
      "check_agents (herdr_supports_completion_evidence version) raw = Inr as"
    using assms by (auto simp: read_herdr_agents_def split: option.splits sum.splits if_splits)
  obtain j where "json_ok j" "fst (dec_struct agents_member j []) = raw"
    by (rule herdr_result_ok[OF raw(1)])
  then show ?thesis
    using checked_agents[OF raw(2)] dec_agents_utf8[of j "[]"] by simp
qed


section \<open>What one reconciliation can do\<close>

text \<open>
  The surroundings are well-behaved: identifiers are valid, the clock is set, and the agents come from
  \<open>read_herdr_agents\<close>, which checks them (\<open>read_agents_wf\<close>).
\<close>

definition surroundings_ok :: "surroundings \<Rightarrow> bool" where
  "surroundings_ok su \<longleftrightarrow>
     (\<forall>socket agents incarnation. su_read su socket = Inr (agents, incarnation) \<longrightarrow> list_all agent_wf agents) \<and>
     (\<forall>sid. su_binding_id su = Inr sid \<longrightarrow> session_wf sid) \<and> \<not> is_zero_time (su_now su)"

lemma reconcile_signal_cases:
  assumes "bindings_ok sha256_hex (q_bindings (dm_queue d))" "surroundings_ok su"
  obtains (same) "reconcile_signal env sha256_hex su e d = d"
  | (bound) q' where "reconcile_signal env sha256_hex su e d = d\<lparr>dm_queue := q'\<rparr>" "q_events q' = q_events (dm_queue d)"
      "q_adapter (dm_queue d) = Some True" "q_adapter q' = Some True" "bindings_ok sha256_hex (q_bindings q')"
  | (reconciled) q' q'' binding agents incarnation where
      "reconcile_signal env sha256_hex su e d = d\<lparr>dm_queue := q'', dm_wake := True\<rparr>" "q_events q' = q_events (dm_queue d)"
      "q_adapter (dm_queue d) = Some True" "q_adapter q' = Some True" "bindings_ok sha256_hex (q_bindings q')"
      "list_all agent_wf agents" "session_wf (hb_session_id binding)"
      "reconcile_herdr env (su_event_id su) binding agents incarnation (de_baseline e) (su_now su) q' = Inr q''"
proof -
  define q where "q = dm_queue d"
  define stored where "stored = get_binding (de_binding_key e) q"
  define needs where "needs = (case stored of Inl _ \<Rightarrow> True | Inr b \<Rightarrow> \<not> hb_enabled b)"
  define socket where "socket = (if needs then de_socket_path e else (case stored of Inl _ \<Rightarrow> [] | Inr b \<Rightarrow> hb_socket_path b))"
  note run = reconcile_signal_def[of env sha256_hex su e d, unfolded Let_def, folded q_def, folded stored_def,
      folded needs_def, folded socket_def]
  show ?thesis
  proof (cases "capture_enabled q \<noteq> Inr True \<or> socket = [] \<or> (\<exists>err. su_read su socket = Inl err)")
    case True
    then show ?thesis
      using run same by auto
  next
    case False
    then obtain agents incarnation where r: "su_read su socket = Inr (agents, incarnation)"
      by (cases "su_read su socket") auto
    have cap: "q_adapter q = Some True"
      using False by (auto simp: capture_enabled_def split: option.splits)
    have wf: "list_all agent_wf agents"
      using assms(2) r by (auto simp: surroundings_ok_def)
    obtain res q' where bind: "(if needs then bind_herdr sha256_hex (su_binding_id su) socket (su_bind_now su) q else (stored, q)) = (res, q')"
      by fastforce
    have q': "q_events q' = q_events q \<and> q_adapter q' = Some True \<and> bindings_ok sha256_hex (q_bindings q')"
    proof (cases needs)
      case True
      then have "bind_herdr sha256_hex (su_binding_id su) socket (su_bind_now su) q = (res, q')"
        using bind by simp
      from bind_herdr_bindings[OF this] assms show ?thesis
        unfolding q_def surroundings_ok_def using cap[unfolded q_def] by metis
    qed (use bind assms(1) cap q_def in auto)
    have session: "session_wf (hb_session_id binding)" if "res = Inr binding" for binding
    proof (cases needs)
      case True
      then have "bind_herdr sha256_hex (su_binding_id su) socket (su_bind_now su) q = (Inr binding, q')"
        using bind that by simp
      from bind_herdr_result[OF this] assms show ?thesis
        unfolding q_def surroundings_ok_def by blast
    next
      case no: False
      then have "stored = Inr binding"
        using bind that by simp
      then have "binding \<in> set (q_bindings q)"
        using find_binding_some by (auto simp: stored_def get_binding_def split: option.splits)
      then show ?thesis
        using assms(1) by (simp add: q_def bindings_ok_def list_all_iff)
    qed
    note step = run[unfolded r bind, simplified]
    show ?thesis
    proof (cases res)
      case (Inl err)
      then show ?thesis
        using step False q' cap bound[of q'] by (simp add: q_def)
    next
      case (Inr binding)
      show ?thesis
      proof (cases "reconcile_herdr env (su_event_id su) binding agents incarnation (de_baseline e) (su_now su) q'")
        case (Inl err)
        then show ?thesis
          using step Inr False q' cap bound[of q'] by (simp add: q_def)
      next
        case rec: (Inr q'')
        then show ?thesis
          using step Inr False q' cap reconciled[of q'' q' agents binding incarnation] wf session by (simp add: q_def)
      qed
    qed
  qed
qed

text \<open>The queue stays bounded, live Codex events stay, and nothing else of the daemon but its wake-up changes.\<close>

definition same_host :: "daemon \<Rightarrow> daemon \<Rightarrow> bool" where
  "same_host d d' \<longleftrightarrow> dm_config d' = dm_config d \<and> dm_version d' = dm_version d \<and> dm_dirty d' = dm_dirty d"

lemma same_host_refl [simp]: "same_host d d"
  by (simp add: same_host_def)

lemma same_host_trans: "same_host d d' \<Longrightarrow> same_host d' d'' \<Longrightarrow> same_host d d''"
  by (simp add: same_host_def)

definition capture_inv :: "(string \<Rightarrow> string) \<Rightarrow> daemon \<Rightarrow> bool" where
  "capture_inv sha256_hex d \<longleftrightarrow> daemon_ok sha256_hex d \<and> bindings_ok sha256_hex (q_bindings (dm_queue d))"

lemma reconcile_signal_keeps:
  assumes "capture_inv sha256_hex d" "surroundings_ok su"
  shows "capture_inv sha256_hex (reconcile_signal env sha256_hex su e d)"
    "same_host d (reconcile_signal env sha256_hex su e d)"
    "live_codex (su_now su) (q_events (dm_queue (reconcile_signal env sha256_hex su e d))) =
       live_codex (su_now su) (q_events (dm_queue d))"
    "q_adapter (dm_queue (reconcile_signal env sha256_hex su e d)) = q_adapter (dm_queue d)"
proof -
  let ?d = "reconcile_signal env sha256_hex su e d"
  have b: "bindings_ok sha256_hex (q_bindings (dm_queue d))"
    using assms(1) by (simp add: capture_inv_def)
  have now: "\<not> is_zero_time (su_now su)"
    using assms(2) by (simp add: surroundings_ok_def)
  have ev: "events_ok (q_events (dm_queue d))"
    using assms(1) by (simp add: capture_inv_def daemon_ok_def queue_ok_def)
  have "capture_inv sha256_hex ?d \<and> same_host d ?d \<and>
      live_codex (su_now su) (q_events (dm_queue ?d)) = live_codex (su_now su) (q_events (dm_queue d)) \<and>
      q_adapter (dm_queue ?d) = q_adapter (dm_queue d)"
  proof (cases rule: reconcile_signal_cases[OF b assms(2), where env = env and e = e])
    case bound: (2 q')
    then show ?thesis
      using assms(1) by (simp add: capture_inv_def daemon_ok_def queue_ok_def same_host_def)
  next
    case reconciled: (3 q' q'' binding agents incarnation)
    have ev': "events_ok (q_events q')"
      using ev reconciled(2) by simp
    then show ?thesis
      using assms(1) reconciled(1-5) reconcile_ok[OF reconciled(8) ev'] reconcile_bindings[OF reconciled(8)]
        reconcile_rows[OF reconciled(8,6,7) now ev']
      by (simp add: capture_inv_def daemon_ok_def queue_ok_def same_host_def)
  qed (use assms(1) in simp)
  then show "capture_inv sha256_hex ?d" "same_host d ?d"
    "live_codex (su_now su) (q_events (dm_queue ?d)) = live_codex (su_now su) (q_events (dm_queue d))"
    "q_adapter (dm_queue ?d) = q_adapter (dm_queue d)"
    by blast+
qed

lemma reconcile_signal_off: "q_adapter (dm_queue d) \<noteq> Some True \<Longrightarrow> reconcile_signal env sha256_hex su e d = d"
  by (auto simp: reconcile_signal_def capture_enabled_def Let_def split: option.splits)

lemma reconcile_signal_silent:
  assumes "capture_inv sha256_hex d" "surroundings_ok su" "de_baseline e"
  shows "set (q_events (dm_queue (reconcile_signal env sha256_hex su e d))) \<subseteq> set (q_events (dm_queue d))"
proof -
  have b: "bindings_ok sha256_hex (q_bindings (dm_queue d))"
    using assms(1) by (simp add: capture_inv_def)
  show ?thesis
  proof (cases rule: reconcile_signal_cases[OF b assms(2), where env = env and e = e])
    case reconciled: (3 q' q'' binding agents incarnation)
    then show ?thesis
      using reconcile_silent[OF reconciled(8)] assms(3) by simp
  qed simp_all
qed

section \<open>The loop\<close>

definition signal_wf :: "(string \<Rightarrow> string) \<Rightarrow> herdr_dirty_event \<Rightarrow> bool" where
  "signal_wf sha256_hex e \<longleftrightarrow> de_type e = HerdrDirtyEventType \<and> check_signal sha256_hex e = None"

lemma check_signal_baseline: "check_signal sha256_hex e = None \<Longrightarrow> check_signal sha256_hex (e\<lparr>de_baseline := de_baseline e \<or> b\<rparr>) = None"
  by (auto simp: check_signal_def split: if_splits)

definition loop_inv :: "(string \<Rightarrow> string) \<Rightarrow> herdr_loop \<Rightarrow> bool" where
  "loop_inv sha256_hex l \<longleftrightarrow> capture_inv sha256_hex (hl_daemon l) \<and> map_ok (hl_dirty l) \<and> length (hl_dirty l) \<le> 128 \<and>
     list_all (\<lambda>(key, e). key = de_binding_key e \<and> signal_wf sha256_hex e) (hl_dirty l)"

lemma map_put_length: "length (map_put k v m) \<le> Suc (length m)"
  by (induction m) auto

lemma map_get_list_all: "map_get m k = Some v \<Longrightarrow> list_all (\<lambda>(k, v). P k v) m \<Longrightarrow> P k v"
  by (auto simp: map_get_def list_all_iff dest: map_of_SomeD)

lemma accept_dirty_inv:
  assumes "map_ok dirty" "length dirty \<le> 128" "list_all (\<lambda>(key, e). key = de_binding_key e \<and> signal_wf sha256_hex e) dirty"
    "signal_wf sha256_hex e"
  shows "map_ok (accept_dirty e dirty)" "length (accept_dirty e dirty) \<le> 128"
    "list_all (\<lambda>(key, e). key = de_binding_key e \<and> signal_wf sha256_hex e) (accept_dirty e dirty)"
  using assms map_put_length[of "de_binding_key e" _ dirty] check_signal_baseline[of sha256_hex e]
  by (auto simp: accept_dirty_def signal_wf_def intro!: map_put_list_all dest: le_less_trans)
    (meson Suc_leI le_trans)+

lemma receive_dirty_inv:
  assumes "loop_inv sha256_hex l"
  shows "loop_inv sha256_hex (receive_dirty l)"
proof (cases "dm_dirty (hl_daemon l)")
  case (Cons e es)
  have e: "signal_wf sha256_hex e"
    using assms Cons by (simp add: loop_inv_def capture_inv_def daemon_ok_def signal_wf_def)
  have l: "map_ok (hl_dirty l)" "length (hl_dirty l) \<le> 128"
    "list_all (\<lambda>(key, e). key = de_binding_key e \<and> signal_wf sha256_hex e) (hl_dirty l)"
    using assms by (simp_all add: loop_inv_def)
  show ?thesis
    using assms Cons accept_dirty_inv[OF l e] by (simp add: loop_inv_def capture_inv_def daemon_ok_def receive_dirty_def)
qed (use assms in \<open>simp add: receive_dirty_def\<close>)

lemma map_del_list_all: "list_all P m \<Longrightarrow> list_all P (map_del k m)"
  by (auto simp: map_del_def list_all_iff)

lemma map_del_length: "length (map_del k m) \<le> length m"
  by (simp add: map_del_def)

lemma drain_one_inv: "loop_inv sha256_hex l \<Longrightarrow> surroundings_ok su \<Longrightarrow> loop_inv sha256_hex (drain_one env sha256_hex su key l)"
  using map_del_length[of key "hl_dirty l"]
  by (auto simp: loop_inv_def drain_one_def reconcile_signal_keeps map_del_list_all split: option.splits)

end
