(* ===== verification/Upload.thy ===== *)
theory Upload
  imports Daemon
begin

text \<open>
  The uploader of \<open>internal/agent/daemon.go\<close>: one upload to the backend with its retry without metadata,
  and the loop over the due events. The backend is a parameter: the answer to the \<open>k\<close>-th request of a
  run, which may depend on the request; so are the clock and the signature algorithm.
\<close>

section \<open>Requests\<close>

record http_request =
  rq_method :: string
  rq_url :: string
  rq_headers :: "(string \<times> string) list"
  rq_body :: string

definition http_header :: "string \<Rightarrow> http_request \<Rightarrow> string option" where
  "http_header name r = map_of (rq_headers r) name"

text \<open>What the agent uses of its surroundings; the signing function has the host's private key.\<close>

record uplink =
  ul_sha256 :: "string \<Rightarrow> string"
  ul_sign :: "string \<Rightarrow> string \<Rightarrow> string"
  ul_key :: string
  ul_clock :: "nat \<Rightarrow> gotime"
  ul_answer :: "nat \<Rightarrow> http_request \<Rightarrow> int result"

section \<open>One event\<close>

text \<open>\<open>json.Unmarshal(event.Body, &hostEvent)\<close>: the event as far as it was decoded, and whether that succeeded. A member of
  the wrong type is skipped, but the error of \<open>time.Time.UnmarshalJSON\<close> ends the decoding at once.\<close>

fun cut_bad_time :: "(string \<times> json) list \<Rightarrow> (string \<times> json) list" where
  "cut_bad_time [] = []"
| "cut_bad_time ((k, v) # ms) =
     (if is_field ''occurredAt'' k \<and> \<not> snd (dec_time v (ev_occurred_at zero_host_event)) then [] else (k, v) # cut_bad_time ms)"

definition decode_host_event :: "string \<Rightarrow> host_event \<times> bool" where
  "decode_host_event body =
     (case json_parse body of
        None \<Rightarrow> (zero_host_event, False)
      | Some (JObj ms) \<Rightarrow>
          (fst (dec_members host_event_member (cut_bad_time ms) zero_host_event), snd (dec_members host_event_member ms zero_host_event))
      | Some j \<Rightarrow> dec_struct host_event_member j zero_host_event)"

definition upload_path :: "string \<Rightarrow> string" where
  "upload_path body =
     (let (h, ok) = decode_host_event body
      in if ok \<and> event_source h = SourceHerdr then ''/v2/host-events''
         else ''/v1/host-events'')"

definition upload_request :: "uplink \<Rightarrow> config \<Rightarrow> url \<Rightarrow> queued_event \<Rightarrow> nat \<Rightarrow> http_request" where
  "upload_request ul c base ev k =
     (let timestamp = unix (ul_clock ul k)
      in \<lparr>rq_method = ''POST'', rq_url = endpoint_at base (upload_path (qe_body ev)),
          rq_headers =
            [(''Content-Type'', ''application/json''),
             (''X-NovaScale-Host'', cf_host_id c),
             (''X-NovaScale-Timestamp'', format_int timestamp),
             (''X-NovaScale-Event-ID'', qe_event_id ev),
             (''X-NovaScale-Signature'', sign_event (ul_sha256 ul) (ul_sign ul) (ul_key ul) timestamp (qe_event_id ev) (qe_body ev))],
          rq_body = qe_body ev\<rparr>)"

definition without_metadata :: "host_event \<Rightarrow> host_event" where
  "without_metadata h = h\<lparr>ev_herdr_metadata := None\<rparr>"

definition decoded :: "queued_event \<Rightarrow> host_event" where
  "decoded ev = fst (decode_host_event (qe_body ev))"

text \<open>What an answer means for the event: done, try again without metadata, or keep it.\<close>

datatype verdict = Done | Strip | Reject

definition judge :: "host_event \<Rightarrow> int \<Rightarrow> verdict" where
  "judge h status =
     (if 200 \<le> status \<and> status < 300 \<or> status = 409 then Done
      else if status = 400 \<and> ev_herdr_metadata h \<noteq> None then Strip
      else if event_source h = SourceHerdr \<and> (status = 400 \<or> status = 422 \<or> status = 404) then Done
      else if ev_event_type h = EventTestNotification \<and> status = 429 then Done
      else Reject)"

text \<open>The event with its body re-encoded without metadata.\<close>

definition stripped :: "queued_event \<Rightarrow> queued_event result" where
  "stripped ev =
     (case marshal_host_event (without_metadata (decoded ev)) of
        Inl e \<Rightarrow> Inl e
      | Inr body \<Rightarrow> Inr (ev\<lparr>qe_body := body\<rparr>))"

lemma bad_time_fails: "snd (dec_time v t) = snd (dec_time v t')"
  by (cases v) (auto split: option.splits)

lemma bad_time_member: "is_field ''occurredAt'' k \<Longrightarrow> snd (host_event_member k v e) = snd (dec_time v (ev_occurred_at zero_host_event))"
proof -
  assume "is_field ''occurredAt'' k"
  then have "is_field n k = is_field n ''occurredAt''" for n
    by (simp add: is_field_def)
  then have "host_event_member k v e = host_event_member ''occurredAt'' v e"
    by (simp add: host_event_member_def)
  then show ?thesis
    by (simp add: host_event_fields store_def case_prod_beta bad_time_fails[of v "ev_occurred_at e" "ev_occurred_at zero_host_event"])
qed

lemma cut_good: "snd (dec_members host_event_member ms e) \<Longrightarrow> cut_bad_time ms = ms"
proof (induction ms arbitrary: e)
  case (Cons m ms)
  obtain k v where m: "m = (k, v)" by fastforce
  then show ?case
    using Cons bad_time_member[of k v e] by (auto simp: Let_def case_prod_beta)
qed simp

lemma cut_ok: "list_all P ms \<Longrightarrow> list_all P (cut_bad_time ms)"
  by (induction ms rule: cut_bad_time.induct) auto

lemma decode_host_event_wf: "host_event_wf (fst (decode_host_event body))"
proof (cases "json_parse body")
  case (Some j)
  note w = dec_host_event_wf[OF _ zero_wf(1)] and ok = json_parse_ok[OF Some]
  show ?thesis
  proof (cases j)
    case (JObj ms)
    then have "json_ok (JObj (cut_bad_time ms))"
      using ok cut_ok by simp
    from w[OF this] show ?thesis
      using Some JObj by (simp add: decode_host_event_def)
  qed (use Some w[OF ok] in \<open>simp_all add: decode_host_event_def\<close>)
qed (use zero_wf(1) in \<open>simp add: decode_host_event_def\<close>)

lemma decode_encoded: "unmarshal_host_event body = Inr h \<Longrightarrow> decode_host_event body = (h, True)"
proof -
  assume u: "unmarshal_host_event body = Inr h"
  then obtain j where j: "json_parse body = Some j" "dec_struct host_event_member j zero_host_event = (h, True)"
    by (auto simp: unmarshal_host_event_def unmarshal_def Let_def split: option.splits prod.splits if_splits)
  then show ?thesis
    using cut_good[of _ zero_host_event] by (cases j) (auto simp: decode_host_event_def)
qed

lemma stripped_decodes:
  assumes "stripped ev = Inr ev'"
  shows "decode_host_event (qe_body ev') = (without_metadata (decoded ev), True)"
proof -
  obtain body where b: "marshal_host_event (without_metadata (decoded ev)) = Inr body" "ev' = ev\<lparr>qe_body := body\<rparr>"
    using assms by (auto simp: stripped_def split: sum.splits)
  have "host_event_wf (without_metadata (decoded ev))"
    using decode_host_event_wf[of "qe_body ev"] by (simp add: host_event_wf_def without_metadata_def decoded_def)
  then show ?thesis
    using host_codec.decode_encode[OF _ b(1)] by (simp add: b(2) decode_encoded)
qed

function upload_to_backend :: "uplink \<Rightarrow> config \<Rightarrow> queued_event \<Rightarrow> nat \<Rightarrow> unit result \<times> http_request list" where
  "upload_to_backend ul c ev k =
     (case parse_notification_endpoint (cf_endpoint c) of
        Inl e \<Rightarrow> (Inl e, [])
      | Inr base \<Rightarrow>
          (let request = upload_request ul c base ev k
           in if url_parse (rq_url request) = None then (fail ''parse'', [])
              else case ul_answer ul k request of
                  Inl e \<Rightarrow> (Inl e, [request])
                | Inr status \<Rightarrow>
                    (case judge (decoded ev) status of
                       Done \<Rightarrow> (Inr (), [request])
                     | Reject \<Rightarrow> (Inl (ErrStatus status), [request])
                     | Strip \<Rightarrow>
                         (case stripped ev of
                            Inl e \<Rightarrow> (Inl e, [request])
                          | Inr ev' \<Rightarrow>
                              (let (r, rest) = upload_to_backend ul c ev' (Suc k) in (r, request # rest))))))"
  by pat_completeness auto

text \<open>The retry ends because the re-encoded event decodes without metadata.\<close>

termination
proof (relation "measure (\<lambda>(ul, c, ev, k). if ev_herdr_metadata (decoded ev) = None then 0 else 1)")
  fix ul c ev k base request status ev'
  assume j: "judge (decoded ev) status = Strip" and s: "stripped ev = Inr ev'"
  have "ev_herdr_metadata (decoded ev) \<noteq> None"
    using j by (auto simp: judge_def split: if_splits)
  moreover have "ev_herdr_metadata (decoded ev') = None"
    using stripped_decodes[OF s] unfolding decoded_def by (simp add: without_metadata_def)
  ultimately show "((ul, c, ev', Suc k), ul, c, ev, k) \<in>
      measure (\<lambda>(ul, c, ev, k). if ev_herdr_metadata (decoded ev) = None then 0 else 1)"
    by simp
qed simp

declare upload_to_backend.simps [simp del]

section \<open>The loop over the due events\<close>

text \<open>What one iteration of \<open>uploadDue\<close> sees: the context, the configuration snapshot, the clock before the
  dequeue and before the retry, and the backend.\<close>

record upload_view =
  uv_live :: bool
  uv_config :: config
  uv_now :: gotime
  uv_retry_now :: gotime
  uv_uplink :: uplink

text \<open>\<open>time.Duration(math.Min(math.Pow(2, float64(attempts)), 3600)) * time.Second\<close>\<close>

definition backoff :: "int \<Rightarrow> int" where
  "backoff attempts = min (2 ^ nat attempts) 3600 * second"

definition upload_once :: "upload_view \<Rightarrow> queue \<Rightarrow> bool \<times> queue \<times> http_request list" where
  "upload_once v q =
     (if \<not> uv_live v \<or> cf_registration_state (uv_config v) \<noteq> RegistrationActive then (False, q, [])
      else case next_for_backend (uv_now v) (cf_endpoint (uv_config v)) q of
          (Inl _, q') \<Rightarrow> (False, q', [])
        | (Inr ev, q') \<Rightarrow>
            (case upload_to_backend (uv_uplink v) (uv_config v) ev 0 of
               (Inr _, requests) \<Rightarrow> (True, complete (qe_event_id ev) q', requests)
             | (Inl _, requests) \<Rightarrow>
                 (False, retry (qe_event_id ev) (qe_attempts ev + 1)
                    (time_add (uv_retry_now v) (backoff (qe_attempts ev + 1))) q', requests)))"

lemma next_for_backend_row:
  assumes "next_for_backend now b q = (Inr ev, q')"
  obtains r where "r \<in> set (q_events q')" "qe_event_id ev = pe_event_id r" "qe_body ev = pe_body r"
    "qe_attempts ev = pe_attempts r" "q_events q' = delete_expired (unix now) (q_events q)"
proof -
  obtain r where "r \<in> set (q_events q)" "qe_event_id ev = pe_event_id r" "qe_body ev = pe_body r"
      "qe_attempts ev = pe_attempts r" "due (unix now) (trim_right (CHR ''/'') b) r"
      "q_events q' = delete_expired (unix now) (q_events q)"
    using next_event_some[OF assms[unfolded next_for_backend_def]] by blast
  moreover from this have "r \<in> set (q_events q')"
    by (simp add: delete_expired_def due_def)
  ultimately show ?thesis
    using that by blast
qed

lemma upload_once_shrinks:
  "upload_once v q = (True, q', reqs) \<Longrightarrow> length (q_events q') < length (q_events q)"
proof -
  assume a: "upload_once v q = (True, q', reqs)"
  then obtain ev q1 where n: "next_for_backend (uv_now v) (cf_endpoint (uv_config v)) q = (Inr ev, q1)"
    and q': "q' = complete (qe_event_id ev) q1"
    by (auto simp: upload_once_def split: if_splits prod.splits sum.splits)
  obtain r where r: "r \<in> set (q_events q1)" "qe_event_id ev = pe_event_id r"
    "q_events q1 = delete_expired (unix (uv_now v)) (q_events q)"
    using next_for_backend_row[OF n] by metis
  have "length (q_events q') < length (q_events q1)"
    using r(1,2) unfolding q' complete_def by (simp add: length_filter_less)
  then show ?thesis
    using r(3) length_filter_le[of _ "q_events q"] by (metis delete_expired_def less_le_trans)
qed

function upload_due :: "(nat \<Rightarrow> upload_view) \<Rightarrow> nat \<Rightarrow> queue \<Rightarrow> queue \<times> http_request list" where
  "upload_due view n q =
     (case upload_once (view n) q of
        (again, q', requests) \<Rightarrow>
          if again then (let (q'', rest) = upload_due view (Suc n) q' in (q'', requests @ rest)) else (q', requests))"
  by pat_completeness auto
termination
  by (relation "measure (\<lambda>(view, n, q). length (q_events q))") (auto intro: upload_once_shrinks[OF sym])

declare upload_due.simps [simp del]

section \<open>Requests of one upload\<close>

lemma upload_cases:
  "upload_to_backend ul c ev k = (r, reqs) \<Longrightarrow>
     reqs = [] \<and> r \<noteq> Inr () \<or>
     (\<exists>base. parse_notification_endpoint (cf_endpoint c) = Inr base \<and>
       (reqs = [upload_request ul c base ev k] \<and>
          (r = Inr () \<longrightarrow> (\<exists>status. ul_answer ul k (upload_request ul c base ev k) = Inr status \<and> judge (decoded ev) status = Done)) \<or>
        (\<exists>ev'. stripped ev = Inr ev' \<and> reqs = upload_request ul c base ev k # snd (upload_to_backend ul c ev' (Suc k)) \<and>
           r = fst (upload_to_backend ul c ev' (Suc k)))))"
  by (subst (asm) upload_to_backend.simps)
    (auto simp: Let_def split: sum.splits if_splits verdict.splits prod.splits)

lemma judge_not_strip: "ev_herdr_metadata h = None \<Longrightarrow> judge h status \<noteq> Strip"
  by (simp add: judge_def)

lemma stripped_event: "stripped ev = Inr ev' \<Longrightarrow> decoded ev' = without_metadata (decoded ev) \<and> qe_event_id ev' = qe_event_id ev"
  using stripped_decodes[of ev ev'] unfolding decoded_def by (auto simp: stripped_def split: sum.splits)

lemma upload_plain:
  assumes "ev_herdr_metadata (decoded ev) = None" "parse_notification_endpoint (cf_endpoint c) = Inr base"
  shows "snd (upload_to_backend ul c ev k) \<in> {[], [upload_request ul c base ev k]}"
  using judge_not_strip[OF assms(1)] assms(2)
  by (subst upload_to_backend.simps) (auto simp: Let_def split: sum.splits verdict.splits)

text \<open>The requests of an upload: the event as it is, then possibly once more without its metadata.\<close>

lemma upload_requests:
  "snd (upload_to_backend ul c ev k) = [] \<or>
   (\<exists>base. parse_notification_endpoint (cf_endpoint c) = Inr base \<and>
     (snd (upload_to_backend ul c ev k) = [upload_request ul c base ev k] \<or>
      (\<exists>ev'. stripped ev = Inr ev' \<and>
        snd (upload_to_backend ul c ev k) = [upload_request ul c base ev k, upload_request ul c base ev' (Suc k)])))"
proof -
  obtain r reqs where u: "upload_to_backend ul c ev k = (r, reqs)" by fastforce
  have "snd (upload_to_backend ul c ev' (Suc k)) \<in> {[], [upload_request ul c base ev' (Suc k)]}"
    if "stripped ev = Inr ev'" "parse_notification_endpoint (cf_endpoint c) = Inr base" for ev' base
    using upload_plain[OF _ that(2)] stripped_event[OF that(1)] by (simp add: without_metadata_def)
  then show ?thesis
    using upload_cases[OF u] u by fastforce
qed

lemma upload_at_most_two: "length (snd (upload_to_backend ul c ev k)) \<le> 2"
  using upload_requests[of ul c ev k] by auto

lemma request_headers:
  "rq_body (upload_request ul c base ev k) = qe_body ev"
  "http_header ''X-NovaScale-Event-ID'' (upload_request ul c base ev k) = Some (qe_event_id ev)"
  "http_header ''X-NovaScale-Timestamp'' (upload_request ul c base ev k) = Some (format_int (unix (ul_clock ul k)))"
  "http_header ''X-NovaScale-Signature'' (upload_request ul c base ev k) =
     Some (sign_event (ul_sha256 ul) (ul_sign ul) (ul_key ul) (unix (ul_clock ul k)) (qe_event_id ev) (qe_body ev))"
  by (simp_all add: upload_request_def http_header_def Let_def)




definition test_uplink :: "int \<Rightarrow> uplink" where
  "test_uplink status = \<lparr>ul_sha256 = (\<lambda>s. s), ul_sign = toy_sign, ul_key = ''k'', ul_clock = (\<lambda>_. at_time 1700000000),
     ul_answer = (\<lambda>k q. Inr (if k = 0 then status else 200))\<rparr>"



section \<open>When an event is finished\<close>

lemma codex_upload_taken:
  assumes "upload_to_backend ul c ev k = (Inr (), reqs)" "event_source (decoded ev) \<noteq> SourceHerdr"
    "ev_herdr_metadata (decoded ev) = None" "ev_event_type (decoded ev) \<noteq> EventTestNotification"
  shows "\<exists>base status. parse_notification_endpoint (cf_endpoint c) = Inr base \<and> reqs = [upload_request ul c base ev k] \<and>
    ul_answer ul k (upload_request ul c base ev k) = Inr status \<and> (200 \<le> status \<and> status < 300 \<or> status = 409)"
proof -
  have done_status: "200 \<le> status \<and> status < 300 \<or> status = 409" if "judge (decoded ev) status = Done" for status
    using that assms(2-4) by (auto simp: judge_def split: if_splits)
  show ?thesis
    using assms(1,3) judge_not_strip[OF assms(3)] done_status
    by (subst (asm) upload_to_backend.simps)
      (auto simp: Let_def split: sum.splits if_splits verdict.splits)
qed

text \<open>A Codex event is finished only when the backend has taken it: an upload of it ends without an error only
  after one request that was answered with a 2xx status or with 409, the answer to a repeated event.\<close>

theorem codex_event_kept_until_taken:
  assumes "upload_to_backend ul c ev k = (Inr (), reqs)" "event_source (decoded ev) \<noteq> SourceHerdr"
    "ev_herdr_metadata (decoded ev) = None" "ev_event_type (decoded ev) \<noteq> EventTestNotification"
  shows "\<exists>q status. reqs = [q] \<and> rq_body q = qe_body ev \<and> ul_answer ul k q = Inr status \<and>
    (200 \<le> status \<and> status < 300 \<or> status = 409)"
  using codex_upload_taken[OF assms] by (auto simp: request_headers)

definition codex_test_event :: queued_event where
  "codex_test_event = \<lparr>qe_event_id = ''e'', qe_body = sample_stop_body, qe_attempts = 0, qe_next_attempt = 0\<rparr>"

definition codex_test_upload :: "unit result \<times> http_request list" where
  "codex_test_upload = upload_to_backend (test_uplink 409) sample_config codex_test_event 0"

theorem codex_event_kept_until_taken_witness:
  "\<exists>q status. snd codex_test_upload = [q] \<and> rq_body q = sample_stop_body \<and>
     ul_answer (test_uplink 409) 0 q = Inr status \<and> (200 \<le> status \<and> status < 300 \<or> status = 409)"
proof -
  have "fst codex_test_upload = Inr ()" "event_source (decoded codex_test_event) \<noteq> SourceHerdr"
    "ev_herdr_metadata (decoded codex_test_event) = None" "ev_event_type (decoded codex_test_event) \<noteq> EventTestNotification"
    by code_simp+
  then show ?thesis
    using codex_event_kept_until_taken[of "test_uplink 409" sample_config codex_test_event 0 "snd codex_test_upload"]
    unfolding codex_test_upload_def codex_test_event_def by (metis prod.collapse queued_event.select_convs(2))
qed

section \<open>A run of the loop\<close>

lemma backoff_bounds: "0 \<le> n \<Longrightarrow> second \<le> backoff n \<and> backoff n \<le> 3600 * second"
  by (simp add: backoff_def)

lemma unix_backoff: "unix (time_add t (backoff n)) = unix t + min (2 ^ nat n) 3600"
  unfolding backoff_def by (rule unix_add_seconds)

lemma retried_row:
  assumes "r \<in> set (q_events q)" "pe_event_id r = i"
  shows "\<exists>r \<in> set (q_events (retry i n t q)). pe_event_id r = i \<and> pe_attempts r = n \<and> pe_next_attempt_at r = unix t"
  using assms by (auto simp: retry_def intro!: bexI[of _ "r\<lparr>pe_attempts := n, pe_next_attempt_at := unix t\<rparr>"])

text \<open>Why an iteration is the last one.\<close>

definition stop_reason :: "upload_view \<Rightarrow> queue \<Rightarrow> bool" where
  "stop_reason v q \<longleftrightarrow>
     \<not> uv_live v \<or> cf_registration_state (uv_config v) \<noteq> RegistrationActive \<or>
     (\<forall>r \<in> set (q_events q). \<not> due (unix (uv_now v)) (trim_right (CHR ''/'') (cf_endpoint (uv_config v))) r) \<or>
     (\<exists>r \<in> set (q_events q). pe_next_attempt_at r = unix (uv_retry_now v) + min (2 ^ nat (pe_attempts r)) 3600)"

lemma upload_once_cases:
  assumes "upload_once v q = (again, q', reqs)"
  obtains (idle) "\<not> again" "q' = q" "reqs = []" "stop_reason v q'"
  | (none) err where "next_for_backend (uv_now v) (cf_endpoint (uv_config v)) q = (Inl err, q')" "\<not> again" "reqs = []"
  | (finished) ev q1 where "next_for_backend (uv_now v) (cf_endpoint (uv_config v)) q = (Inr ev, q1)" "again"
      "q' = complete (qe_event_id ev) q1" "length reqs \<le> 2"
  | (failed) ev q1 where "next_for_backend (uv_now v) (cf_endpoint (uv_config v)) q = (Inr ev, q1)" "\<not> again"
      "q' = retry (qe_event_id ev) (qe_attempts ev + 1) (time_add (uv_retry_now v) (backoff (qe_attempts ev + 1))) q1"
      "length reqs \<le> 2"
proof (cases "\<not> uv_live v \<or> cf_registration_state (uv_config v) \<noteq> RegistrationActive")
  case True
  then show ?thesis
    using assms idle by (auto simp: upload_once_def stop_reason_def split: if_splits)
next
  case False
  obtain res q1 where n: "next_for_backend (uv_now v) (cf_endpoint (uv_config v)) q = (res, q1)"
    by fastforce
  show ?thesis
  proof (cases res)
    case (Inl e)
    then show ?thesis
      using assms False n none by (simp add: upload_once_def)
  next
    case (Inr ev)
    obtain r rs where u: "upload_to_backend (uv_uplink v) (uv_config v) ev 0 = (r, rs)"
      by fastforce
    have "length rs \<le> 2"
      using upload_at_most_two[of "uv_uplink v" "uv_config v" ev 0] u by simp
    then show ?thesis
      using assms False n Inr u finished failed by (cases r) (auto simp: upload_once_def)
  qed
qed

lemma upload_once_ok:
  assumes "queue_ok q" "upload_once v q = (again, q', reqs)"
  shows "queue_ok q'" "set (event_ids q') \<subseteq> set (event_ids q)" "length reqs \<le> 2" "reqs \<noteq> [] \<longrightarrow> q_events q \<noteq> []"
    "\<not> again \<longrightarrow> stop_reason v q'"
proof -
  have out: "queue_ok q1" "set (event_ids q1) \<subseteq> set (event_ids q)"
    if "next_for_backend (uv_now v) (cf_endpoint (uv_config v)) q = (res, q1)" for res q1
    using store.hand_out_inv[OF assms(1), of "uv_now v" "cf_endpoint (uv_config v)"]
      store.hand_out_subset[of "uv_now v" "cf_endpoint (uv_config v)" q] that by simp_all
  have "queue_ok q' \<and> set (event_ids q') \<subseteq> set (event_ids q) \<and> length reqs \<le> 2 \<and> (reqs \<noteq> [] \<longrightarrow> q_events q \<noteq> []) \<and>
      (\<not> again \<longrightarrow> stop_reason v q')"
    using assms(2)
  proof (cases rule: upload_once_cases)
    case idle
    then show ?thesis using assms(1) by simp
  next
    case (none err)
    have "q_events q' = delete_expired (unix (uv_now v)) (q_events q)"
      "\<not> (\<exists>r \<in> set (q_events q). due (unix (uv_now v)) (trim_right (CHR ''/'') (cf_endpoint (uv_config v))) r)"
      using next_event_none[OF none(1)[unfolded next_for_backend_def]] by blast+
    then have "\<forall>r \<in> set (q_events q'). \<not> due (unix (uv_now v)) (trim_right (CHR ''/'') (cf_endpoint (uv_config v))) r"
      by (simp add: delete_expired_def)
    then show ?thesis
      using out[OF none(1)] none(2,3) unfolding stop_reason_def by (metis list.size(3) zero_le_numeral)
  next
    case (finished ev q1)
    obtain r where "r \<in> set (q_events q1)" "q_events q1 = delete_expired (unix (uv_now v)) (q_events q)"
      using next_for_backend_row[OF finished(1)] by metis
    then have "q_events q \<noteq> []"
      by (auto simp: delete_expired_def)
    then show ?thesis
      using out[OF finished(1)] finished(2-4) store.forget_inv[of q1 "qe_event_id ev"] by (auto simp: store.forget_ids)
  next
    case (failed ev q1)
    obtain r where r: "r \<in> set (q_events q1)" "qe_event_id ev = pe_event_id r" "q_events q1 = delete_expired (unix (uv_now v)) (q_events q)"
      using next_for_backend_row[OF failed(1)] by metis
    then have "q_events q \<noteq> []"
      by (auto simp: delete_expired_def)
    moreover have "stop_reason v q'"
      using retried_row[OF r(1) r(2)[symmetric]] unfolding stop_reason_def failed(3) by (metis unix_backoff)
    ultimately show ?thesis
      using out[OF failed(1)] failed store.postpone_inv by (simp add: store.postpone_ids)
  qed
  then show "queue_ok q'" "set (event_ids q') \<subseteq> set (event_ids q)" "length reqs \<le> 2" "reqs \<noteq> [] \<longrightarrow> q_events q \<noteq> []"
    "\<not> again \<longrightarrow> stop_reason v q'"
    by blast+
qed

text \<open>C14: A run of the uploader ends. It never adds an event and keeps the bounds of the queue, makes at most two
  requests per event it found, and stops for one of four reasons: the daemon is stopping, the host is not
  registered, nothing of the backend is due, or the last upload failed and its event waits for
  \<open>min (2^attempts) 3600\<close> seconds.\<close>

theorem upload_due_run:
  assumes "queue_ok q" "upload_due view n q = (q', reqs)"
  shows "queue_ok q' \<and> set (event_ids q') \<subseteq> set (event_ids q) \<and> length reqs \<le> 2 * depth q \<and>
    (\<exists>m. n \<le> m \<and> m \<le> n + depth q \<and> stop_reason (view m) q')"
  using assms
proof (induction view n q arbitrary: q' reqs rule: upload_due.induct)
  case (1 view n q)
  obtain again q1 rs where u: "upload_once (view n) q = (again, q1, rs)"
    by (metis prod_cases3)
  note ok = upload_once_ok[OF 1(2) u]
  show ?case
  proof (cases again)
    case False
    then have "q' = q1" "reqs = rs"
      using 1(3) u by (simp_all add: upload_due.simps[of view n q])
    moreover have "length rs \<le> 2 * depth q"
      using ok(3,4) by (cases "q_events q") (auto simp: depth_def)
    ultimately show ?thesis
      using ok(1,2,5) False by auto
  next
    case True
    obtain q2 rest where d: "upload_due view (Suc n) q1 = (q2, rest)"
      by fastforce
    have r: "q' = q2" "reqs = rs @ rest"
      using 1(3) u d True by (simp_all add: upload_due.simps[of view n q])
    have shrink: "depth q1 < depth q"
      using upload_once_shrinks u True by (simp add: depth_def)
    have rec: "queue_ok q2 \<and> set (event_ids q2) \<subseteq> set (event_ids q1) \<and> length rest \<le> 2 * depth q1 \<and>
        (\<exists>m. Suc n \<le> m \<and> m \<le> Suc n + depth q1 \<and> stop_reason (view m) q2)"
      using 1(1)[OF u[symmetric] refl _ ok(1) d] True by simp
    then obtain m where m: "Suc n \<le> m" "m \<le> Suc n + depth q1" "stop_reason (view m) q2"
      by blast
    have "n \<le> m" "m \<le> n + depth q"
      using m(1,2) shrink by linarith+
    then have "\<exists>m. n \<le> m \<and> m \<le> n + depth q \<and> stop_reason (view m) q2"
      using m(3) by blast
    then show ?thesis
      using rec ok(2,3) shrink r by auto
  qed
qed

definition test_view :: "nat \<Rightarrow> upload_view" where
  "test_view n = \<lparr>uv_live = True, uv_config = sample_config, uv_now = at_time 1700000100, uv_retry_now = at_time 1700000101,
     uv_uplink = test_uplink (if n = 0 then 200 else 503)\<rparr>"

theorem upload_due_run_witness:
  "length (snd (upload_due test_view 0 sample_queue)) \<le> 6"
proof -
  have "queue_ok sample_queue" "depth sample_queue = 3"
    using sample_queue_ok by (simp_all add: queue_ok_def depth_def sample_queue_def)
  then show ?thesis
    using upload_due_run[of sample_queue test_view 0] by (cases "upload_due test_view 0 sample_queue") simp
qed

end
