(* ===== verification/Register.thy ===== *)
theory Register
  imports Upload
begin

text \<open>
  \<open>internal/agent/register.go\<close>: the two signed requests of the enrollment. The host first asks the backend
  for an enrollment token and then registers with it. The HTTP client is a parameter that answers a request
  with a status and a body, or fails.
\<close>

record http_response =
  rs_status :: int
  rs_body :: "string result"

type_synonym http_client = "http_request \<Rightarrow> http_response result"

text \<open>What the host signs with: the hash, the signing function and the private key.\<close>

record signer =
  sg_sha256 :: "string \<Rightarrow> string"
  sg_sign :: "string \<Rightarrow> string \<Rightarrow> string"
  sg_key :: string

definition registration_signature_id :: "string \<Rightarrow> string" where
  "registration_signature_id host = ''host-registration:'' @ host"

definition host_enrollment_intent_signature_id :: "string \<Rightarrow> string" where
  "host_enrollment_intent_signature_id host = ''host-enrollment-intent:'' @ host"

text \<open>The second half of an Ed25519 private key is the public key.\<close>

definition register_request_json :: "string \<Rightarrow> string \<Rightarrow> string \<Rightarrow> json" where
  "register_request_json host key version = JObj
     [(''hostId'', JStr host), (''publicKey'', JStr (b64_encode (drop 32 key))), (''agentVersion'', JStr version)]"

definition registration_body :: "string \<Rightarrow> string \<Rightarrow> string \<Rightarrow> string result" where
  "registration_body host key version =
     (if length key \<noteq> private_key_size then fail ''invalid host private key''
      else Inr (json_print (register_request_json host key version)))"

definition signed_enrollment_request :: "signer \<Rightarrow> string \<Rightarrow> string \<Rightarrow> string \<Rightarrow> gotime \<Rightarrow> http_request" where
  "signed_enrollment_request sg endpoint body signature_id now =
     \<lparr>rq_method = ''POST'', rq_url = endpoint,
      rq_headers =
        [(''Content-Type'', ''application/json''),
         (''X-NovaScale-Timestamp'', format_int (unix now)),
         (''X-NovaScale-Signature'', sign_event (sg_sha256 sg) (sg_sign sg) (sg_key sg) (unix now) signature_id body)],
      rq_body = body\<rparr>"

definition valid_enrollment_token :: "string \<Rightarrow> bool" where
  "valid_enrollment_token token \<longleftrightarrow> (case b64_decode token of Some d \<Rightarrow> length d = 32 | None \<Rightarrow> False)"

record enrollment_token_response =
  et_token :: string
  et_expires_at :: gotime

text \<open>\<open>DisallowUnknownFields\<close>: any other member is an error.\<close>

definition token_response_member :: "string \<Rightarrow> json \<Rightarrow> enrollment_token_response \<Rightarrow> enrollment_token_response \<times> bool" where
  "token_response_member k v r =
     (if is_field ''enrollmentToken'' k then store (dec_string v) et_token et_token_update r
      else if is_field ''expiresAt'' k then store (dec_time v) et_expires_at et_expires_at_update r
      else (r, False))"

definition read_token_response :: "string \<Rightarrow> gotime \<Rightarrow> string result" where
  "read_token_response body now =
     (if 4096 < length body then fail ''invalid host enrollment response''
      else case decode_line (dec_struct token_response_member) body \<lparr>et_token = [], et_expires_at = zero_time\<rparr> of
          Inl _ \<Rightarrow> fail ''invalid host enrollment response''
        | Inr r \<Rightarrow>
            if \<not> valid_enrollment_token (et_token r) \<or> \<not> after (et_expires_at r) now
            then fail ''invalid host enrollment response''
            else Inr (et_token r))"

text \<open>Both operations return the result and the requests they made.\<close>

definition request_host_enrollment_token ::
  "http_client \<Rightarrow> signer \<Rightarrow> string \<Rightarrow> string \<Rightarrow> string \<Rightarrow> gotime \<Rightarrow> string result \<times> http_request list" where
  "request_host_enrollment_token client sg endpoint host version now =
     (case registration_body host (sg_key sg) version of
        Inl e \<Rightarrow> (Inl e, [])
      | Inr body \<Rightarrow>
          (case parse_notification_endpoint endpoint of
             Inl e \<Rightarrow> (Inl e, [])
           | Inr base \<Rightarrow>
               (let request = signed_enrollment_request sg (endpoint_at base ''/v1/hosts/enrollment-intents'') body
                      (host_enrollment_intent_signature_id host) now
                in (case client request of
                      Inl e \<Rightarrow> Inl e
                    | Inr response \<Rightarrow>
                        if rs_status response < 200 \<or> 300 \<le> rs_status response then Inl (ErrStatus (rs_status response))
                        else (case rs_body response of
                                Inl _ \<Rightarrow> fail ''invalid host enrollment response''
                              | Inr text \<Rightarrow> read_token_response text now),
                    [request]))))"

definition register_host ::
  "http_client \<Rightarrow> signer \<Rightarrow> string \<Rightarrow> string \<Rightarrow> string \<Rightarrow> string \<Rightarrow> gotime \<Rightarrow> unit result \<times> http_request list" where
  "register_host client sg endpoint token host version now =
     (if \<not> valid_enrollment_token token then (fail ''invalid host enrollment token'', [])
      else case parse_notification_endpoint endpoint of
          Inl e \<Rightarrow> (Inl e, [])
        | Inr base \<Rightarrow>
            (case registration_body host (sg_key sg) version of
               Inl e \<Rightarrow> (Inl e, [])
             | Inr body \<Rightarrow>
                 (let signed = signed_enrollment_request sg (endpoint_at base ''/v1/hosts/register'') body
                        (registration_signature_id host) now;
                      request = signed\<lparr>rq_headers := rq_headers signed @ [(''Authorization'', ''Bearer '' @ token)]\<rparr>
                  in (case client request of
                        Inl e \<Rightarrow> Inl e
                      | Inr response \<Rightarrow>
                          if rs_status response < 200 \<or> 300 \<le> rs_status response then Inl (ErrStatus (rs_status response))
                          else Inr (),
                      [request]))))"

section \<open>What the requests promise\<close>

definition enrollment_request_ok :: "string \<Rightarrow> http_request \<Rightarrow> bool" where
  "enrollment_request_ok endpoint q \<longleftrightarrow>
     (case parse_notification_endpoint endpoint of
        Inl _ \<Rightarrow> False
      | Inr base \<Rightarrow> secure_endpoint base \<and> rq_method q = ''POST'' \<and>
          (rq_url q = endpoint_at base ''/v1/hosts/enrollment-intents'' \<and> http_header ''Authorization'' q = None \<or>
           rq_url q = endpoint_at base ''/v1/hosts/register'' \<and>
             (\<exists>token. valid_enrollment_token token \<and> http_header ''Authorization'' q = Some (''Bearer '' @ token))))"

lemma token_request:
  assumes "request_host_enrollment_token client sg endpoint host version now = (r, qs)"
  shows "length qs \<le> 1 \<and> (\<forall>q \<in> set qs. enrollment_request_ok endpoint q) \<and>
    (\<forall>token. r = Inr token \<longrightarrow> valid_enrollment_token token \<and>
      (\<exists>q response. qs = [q] \<and> client q = Inr response \<and> 200 \<le> rs_status response \<and> rs_status response < 300))"
  using assms
  by (auto simp: request_host_enrollment_token_def read_token_response_def enrollment_request_ok_def http_header_def
      signed_enrollment_request_def Let_def endpoint_secure split: sum.splits if_splits)

lemma register_request:
  assumes "register_host client sg endpoint token host version now = (r, qs)"
  shows "length qs \<le> 1 \<and> (\<forall>q \<in> set qs. enrollment_request_ok endpoint q) \<and>
    (r = Inr () \<longrightarrow> (\<exists>q response. qs = [q] \<and> client q = Inr response \<and> 200 \<le> rs_status response \<and> rs_status response < 300))"
  using assms
  by (auto simp: register_host_def enrollment_request_ok_def http_header_def signed_enrollment_request_def
      Let_def endpoint_secure split: sum.splits if_splits)

section \<open>Separation of the signatures\<close>

lemma canonical_rest:
  "canonical h t i b = canonical h t' i' b' \<Longrightarrow>
     i @ CHR 10 # b64_encode (h b) = i' @ CHR 10 # b64_encode (h b')"
  unfolding canonical_def by (erule split_first [THEN conjunct2]) (rule format_no_newline)+

text \<open>C18: A signature made for one purpose is never one for another: the texts signed for an enrollment intent, for
  a registration and for an event upload differ, whatever the hosts, times, bodies and hashes are; event
  identifiers are UUIDs or hexadecimal digests.\<close>

theorem signature_purposes_separate:
  "canonical h t (registration_signature_id host) b \<noteq> canonical h t' (host_enrollment_intent_signature_id host') b' \<and>
   (i \<noteq> [] \<and> list_all uuid_char i \<longrightarrow>
     canonical h t i b \<noteq> canonical h t' (registration_signature_id host') b' \<and>
     canonical h t i b \<noteq> canonical h t' (host_enrollment_intent_signature_id host') b')"
proof -
  have "(registration_signature_id host @ x) ! 5 = CHR ''r''" "(host_enrollment_intent_signature_id host' @ y) ! 5 = CHR ''e''" for x y
    by (simp_all add: registration_signature_id_def host_enrollment_intent_signature_id_def)
  moreover have "CHR ''r'' \<noteq> CHR ''e''"
    by simp
  ultimately have "canonical h t (registration_signature_id host) b \<noteq> canonical h t' (host_enrollment_intent_signature_id host') b'"
    using canonical_rest by metis
  moreover have "canonical h t i b \<noteq> canonical h t' (CHR ''h'' # rest) b'" if i: "i \<noteq> []" "list_all uuid_char i" for rest
  proof
    assume "canonical h t i b = canonical h t' (CHR ''h'' # rest) b'"
    from canonical_rest[OF this] have "hd i = CHR ''h''"
      using i(1) by (cases i) simp_all
    moreover have "\<not> uuid_char (CHR ''h'')"
      by code_simp
    ultimately show False
      using i by (cases i) auto
  qed
  ultimately show ?thesis
    by (simp add: registration_signature_id_def host_enrollment_intent_signature_id_def)
qed

theorem signature_purposes_separate_witness:
  "\<forall>b. canonical id 1 ''0af3'' b \<noteq> canonical id 1 (registration_signature_id ''0af3'') b"
proof -
  have "list_all uuid_char ''0af3''"
    by code_simp
  then show ?thesis
    using signature_purposes_separate[of id 1 _ _ 1 _ _ "''0af3''"] by blast
qed

end
