(* ===== verification/Plugin_Setup.thy ===== *)
theory Plugin_Setup
  imports Capture Register
begin

text \<open>
  Setting up the Herdr plugin: \<open>internal/agent/herdr_setup.go\<close>, the registry commands of
  \<open>internal/agent/herdr_capture.go\<close>, \<open>HerdrBackendSupported\<close> of \<open>internal/agent/herdr_api.go\<close> and
  \<open>ReadHerdrBindingRoutes\<close> of \<open>internal/agent/herdr_bindings.go\<close>. The processes that run, the servers'
  answers and the backend are parameters. The state is the file system and the database file; the commands that
  were run are the trace. Failures of the disk and of the database engine are not modelled.
\<close>

section \<open>The registry commands\<close>

record process =
  pr_binary :: string
  pr_arguments :: "string list"
  pr_environment :: "string list"

text \<open>What the commands see of the host; \<open>hx_run\<close> is the output of a process and whether it succeeded, if it starts.\<close>

record host_system =
  hx_bin_path :: string
  hx_look_path :: "string option"
  hx_home :: "string option"
  hx_environ :: "string list"
  hx_run :: "process \<Rightarrow> (string \<times> bool) option"

definition plugin_binary :: "host_system \<Rightarrow> string result" where
  "plugin_binary hx =
     (if hx_bin_path hx \<noteq> [] then
        (if \<not> is_abs (hx_bin_path hx) \<or> contains_any (hx_bin_path hx) [chr 0, chr 13, chr 10]
         then fail ''invalid Herdr executable'' else Inr (hx_bin_path hx))
      else case hx_look_path hx of
          Some binary \<Rightarrow> Inr binary
        | None \<Rightarrow>
            (case hx_home hx of
               None \<Rightarrow> fail ''Herdr executable unavailable''
             | Some home \<Rightarrow> Inr (join_path [home, ''.local'', ''bin'', ''herdr''])))"

definition child_environment :: "string list \<Rightarrow> string list" where
  "child_environment = filter (\<lambda>v. fst (cut (CHR ''='') v) \<notin> {''HERDR_SOCKET_PATH'', ''HERDR_SESSION'', ''HERDR_SESSION_NAME''})"

definition plugin_process :: "host_system \<Rightarrow> string \<Rightarrow> string list \<Rightarrow> process" where
  "plugin_process hx binary arguments =
     \<lparr>pr_binary = binary, pr_arguments = ''plugin'' # arguments, pr_environment = child_environment (hx_environ hx)\<rparr>"

definition maxPluginOutput :: nat where "maxPluginOutput = 1024 * 1024"

definition herdr_plugin_command :: "host_system \<Rightarrow> string list \<Rightarrow> string result \<times> process list" where
  "herdr_plugin_command hx arguments =
     (case plugin_binary hx of
        Inl e \<Rightarrow> (Inl e, [])
      | Inr binary \<Rightarrow>
          (let p = plugin_process hx binary arguments
           in case hx_run hx p of
                None \<Rightarrow> (fail ''Herdr plugin command unavailable'', [p])
              | Some (output, ok) \<Rightarrow>
                  (if \<not> ok \<or> maxPluginOutput < length output then fail ''Herdr plugin command failed'' else Inr output, [p])))"

record plugin_info =
  pg_id :: string
  pg_enabled :: bool
  pg_warnings :: "string list"

definition zero_plugin :: plugin_info where
  "zero_plugin = \<lparr>pg_id = [], pg_enabled = False, pg_warnings = []\<rparr>"

definition plugin_member :: "string \<Rightarrow> json \<Rightarrow> plugin_info \<Rightarrow> plugin_info \<times> bool" where
  "plugin_member k v p =
     (if is_field ''plugin_id'' k then store (dec_string v) pg_id pg_id_update p
      else if is_field ''enabled'' k then store (dec_bool v) pg_enabled pg_enabled_update p
      else if is_field ''warnings'' k then store (dec_slice dec_string [] v) pg_warnings pg_warnings_update p
      else (p, True))"

definition plugins_member :: "string \<Rightarrow> json \<Rightarrow> plugin_info list \<Rightarrow> plugin_info list \<times> bool" where
  "plugins_member k v ps =
     (if is_field ''plugins'' k then dec_slice (dec_struct plugin_member) zero_plugin v ps else (ps, True))"

definition registry_member :: "string \<Rightarrow> json \<Rightarrow> plugin_info list \<Rightarrow> plugin_info list \<times> bool" where
  "registry_member k v ps = (if is_field ''result'' k then dec_struct plugins_member v ps else (ps, True))"

definition plugin_healthy :: "plugin_info \<Rightarrow> bool" where
  "plugin_healthy p \<longleftrightarrow> pg_enabled p \<and> pg_warnings p = []"

text \<open>Installed, and enabled without warnings: by the first entry of the plugin in the registry.\<close>

definition registry_state :: "string \<Rightarrow> bool \<times> bool" where
  "registry_state output =
     (case unmarshal (dec_struct registry_member) output [] of
        Inl _ \<Rightarrow> (False, False)
      | Inr ps \<Rightarrow> (case find (\<lambda>p. pg_id p = HerdrPluginID) ps of None \<Rightarrow> (False, False) | Some p \<Rightarrow> (True, plugin_healthy p)))"

definition read_global_herdr_plugin :: "host_system \<Rightarrow> (bool \<times> bool) \<times> process list" where
  "read_global_herdr_plugin hx =
     (case herdr_plugin_command hx [''list'', ''--plugin'', HerdrPluginID, ''--json''] of
        (Inl _, trace) \<Rightarrow> ((False, False), trace)
      | (Inr output, trace) \<Rightarrow> (registry_state output, trace))"

text \<open>The answer of a running server instead; its last entry of the plugin counts.\<close>

definition server_plugin_state :: "string option \<Rightarrow> bool \<times> bool" where
  "server_plugin_state reply =
     (case herdr_request reply (dec_struct plugins_member) [] of
        Inl _ \<Rightarrow> (False, False)
      | Inr ps \<Rightarrow> (case filter (\<lambda>p. pg_id p = HerdrPluginID) ps of [] \<Rightarrow> (False, False) | q # qs \<Rightarrow> (True, plugin_healthy (List.last (q # qs)))))"

section \<open>The backend\<close>

record backend_capabilities =
  bc_herdr :: bool
  bc_shared :: bool

definition capabilities_member :: "string \<Rightarrow> json \<Rightarrow> backend_capabilities \<Rightarrow> backend_capabilities \<times> bool" where
  "capabilities_member k v c =
     (if is_field ''herdr'' k then store (dec_bool v) bc_herdr bc_herdr_update c
      else if is_field ''sharedPushAllowance'' k then store (dec_bool v) bc_shared bc_shared_update c
      else (c, True))"

definition capabilities_request :: "url \<Rightarrow> http_request" where
  "capabilities_request base = \<lparr>rq_method = ''GET'', rq_url = endpoint_at base ''/v2/capabilities'', rq_headers = [], rq_body = []\<rparr>"

definition herdr_backend_supported :: "http_client \<Rightarrow> string \<Rightarrow> unit result \<times> http_request list" where
  "herdr_backend_supported client endpoint =
     (case parse_notification_endpoint endpoint of
        Inl e \<Rightarrow> (Inl e, [])
      | Inr base \<Rightarrow>
          (let request = capabilities_request base
           in if url_parse (rq_url request) = None then (fail ''parse'', [])
              else (case client request of
                Inl _ \<Rightarrow> fail ''notification backend unavailable''
              | Inr response \<Rightarrow>
                  (case rs_body response of
                     Inl _ \<Rightarrow> fail ''notification backend does not support Herdr''
                   | Inr text \<Rightarrow>
                       (case decode_line (dec_struct capabilities_member) (take 16384 text) \<lparr>bc_herdr = False, bc_shared = False\<rparr> of
                          Inl _ \<Rightarrow> fail ''notification backend does not support Herdr''
                        | Inr c \<Rightarrow>
                            if rs_status response \<noteq> 200 \<or> \<not> bc_herdr c \<or> \<not> bc_shared c
                            then fail ''notification backend does not support Herdr'' else Inr ())), [request])))"

section \<open>The database file\<close>

text \<open>The columns of \<open>pending_events\<close> in the file and its rows; a database that was opened has every column.\<close>

type_synonym database = "(string list \<times> queue) option"

definition event_columns :: "string list" where
  "event_columns = [''event_id'', ''body'', ''attempts'', ''next_attempt_at'', ''created_at'', ''expires_at'', ''source'',
     ''session_id'', ''pane_id'', ''backend'']"

definition open_database :: "database \<Rightarrow> queue" where
  "open_database db = (case db of None \<Rightarrow> open_queue event_columns empty_queue | Some (columns, q) \<Rightarrow> open_queue columns q)"

record setup_state =
  ss_files :: file_system
  ss_database :: database
  ss_trace :: "process list"

definition put_database :: "queue \<Rightarrow> setup_state \<Rightarrow> setup_state" where
  "put_database q s = s\<lparr>ss_database := Some (event_columns, q)\<rparr>"

definition add_trace :: "process list \<Rightarrow> setup_state \<Rightarrow> setup_state" where
  "add_trace ps s = s\<lparr>ss_trace := ss_trace s @ ps\<rparr>"

section \<open>Status\<close>

record herdr_status =
  hs_host_id :: string
  hs_endpoint :: string
  hs_registration_state :: string
  hs_agent_version :: string
  hs_daemon_version :: string
  hs_daemon_capabilities :: "string list"
  hs_session_id :: string
  hs_socket_ready :: bool
  hs_plugin_installed :: bool
  hs_plugin_enabled :: bool
  hs_ready :: bool
  hs_host_ready :: bool

text \<open>The surroundings of a set-up command. \<open>sx_now\<close> and the identifiers are those of the \<open>i\<close>-th socket of a run.\<close>

record setup_system =
  sx_host :: host_system
  sx_env :: environment
  sx_sha256 :: "string \<Rightarrow> string"
  sx_daemon :: "string \<Rightarrow> string option"
  sx_read :: "nat \<Rightarrow> string \<Rightarrow> (herdr_agent list \<times> string) result"
  sx_plugin_reply :: "string option"
  sx_binding_id :: "nat \<Rightarrow> string result"
  sx_event_id :: "nat \<Rightarrow> nat \<Rightarrow> string result"
  sx_now :: "nat \<Rightarrow> gotime"

definition host_ready :: "string list \<Rightarrow> bool \<Rightarrow> bool \<Rightarrow> string \<Rightarrow> bool" where
  "host_ready capabilities capture enabled state \<longleftrightarrow>
     HerdrCapability \<in> set capabilities \<and> HerdrHostCaptureCapability \<in> set capabilities \<and> capture \<and> enabled \<and>
     state = RegistrationActive"

text \<open>The status before the plugin and the socket are looked at, and the capabilities of the running daemon.\<close>

definition base_status :: "setup_system \<Rightarrow> config \<Rightarrow> string \<Rightarrow> herdr_status \<times> string list" where
  "base_status sx c version =
     (let st = \<lparr>hs_host_id = cf_host_id c, hs_endpoint = cf_endpoint c, hs_registration_state = cf_registration_state c,
          hs_agent_version = version, hs_daemon_version = [], hs_daemon_capabilities = [], hs_session_id = [],
          hs_socket_ready = False, hs_plugin_installed = False, hs_plugin_enabled = False, hs_ready = False, hs_host_ready = False\<rparr>
      in case read_daemon_info (sx_daemon sx) of
           Inl _ \<Rightarrow> (st, [])
         | Inr info \<Rightarrow>
             (st\<lparr>hs_daemon_version := dr_version info, hs_daemon_capabilities := dr_capabilities info,
                hs_registration_state := dr_registration_state info\<rparr>, dr_capabilities info))"

text \<open>The binding of the socket, which an enabled and capable host makes on the spot, with a baseline.\<close>

definition inspect_binding ::
  "setup_system \<Rightarrow> bool \<Rightarrow> (herdr_agent list \<times> string) result \<Rightarrow> string \<Rightarrow> queue \<Rightarrow> herdr_binding result \<times> queue" where
  "inspect_binding sx allowed agents socket q =
     (let stored = get_binding (herdr_binding_key (sx_sha256 sx) socket) q;
          bound = (case stored of Inl _ \<Rightarrow> False | Inr b \<Rightarrow> hb_enabled b)
      in case agents of
           Inl _ \<Rightarrow> (stored, q)
         | Inr (as, incarnation) \<Rightarrow>
             if \<not> allowed \<or> bound then (stored, q)
             else (case bind_herdr (sx_sha256 sx) (sx_binding_id sx 0) socket (sx_now sx 0) q of
                 (Inl e, q') \<Rightarrow> (Inl e, q')
               | (Inr b, q') \<Rightarrow>
                   (case reconcile_herdr (sx_env sx) (sx_event_id sx 0) b as incarnation True (sx_now sx 0) q' of
                      Inl e \<Rightarrow> (Inl e, q')
                    | Inr q'' \<Rightarrow> (Inr b, q''))))"

definition capture_on :: "queue \<Rightarrow> bool" where
  "capture_on q \<longleftrightarrow> capture_enabled q = Inr True"

definition inspect_herdr ::
  "setup_system \<Rightarrow> agent_paths \<Rightarrow> string \<Rightarrow> string \<Rightarrow> setup_state \<Rightarrow> herdr_status result \<times> setup_state" where
  "inspect_herdr sx ap socket version s =
     (case load_config (ap_config_file ap) (ss_files s) of
        Inl _ \<Rightarrow> (fail ''notification agent is not configured'', s)
      | Inr c \<Rightarrow>
          (let (st, capabilities) = base_status sx c version;
               q = (case ss_database s of None \<Rightarrow> None | Some _ \<Rightarrow> Some (open_database (ss_database s)));
               s1 = (case q of None \<Rightarrow> s | Some q \<Rightarrow> put_database q s);
               capture = (case q of None \<Rightarrow> False | Some q \<Rightarrow> capture_on q)
           in if socket = [] then
                (let ((installed, enabled), trace) = read_global_herdr_plugin (sx_host sx);
                     ready = host_ready capabilities capture enabled (hs_registration_state st)
                 in (Inr (st\<lparr>hs_plugin_installed := installed, hs_plugin_enabled := enabled, hs_ready := ready, hs_host_ready := ready\<rparr>),
                     add_trace trace s1))
              else
                (let agents = sx_read sx 0 socket;
                     (installed, enabled) = server_plugin_state (sx_plugin_reply sx);
                     allowed = (capture \<and> HerdrHostCaptureCapability \<in> set capabilities \<and> enabled);
                     (binding, s2) = (case q of
                         None \<Rightarrow> (Inl ErrNoRows, s1)
                       | Some q \<Rightarrow> (case inspect_binding sx allowed agents socket q of (b, q') \<Rightarrow> (b, put_database q' s1)));
                     session = (case binding of Inl _ \<Rightarrow> [] | Inr b \<Rightarrow> hb_session_id b);
                     bound = (case binding of Inl _ \<Rightarrow> False | Inr b \<Rightarrow> hb_enabled b);
                     hready = host_ready capabilities capture enabled (hs_registration_state st)
                 in (Inr (st\<lparr>hs_socket_ready := is_ok agents, hs_plugin_installed := installed, hs_plugin_enabled := enabled,
                        hs_session_id := session, hs_host_ready := hready,
                        hs_ready := (hready \<and> is_ok agents \<and> bound \<and> session \<noteq> [])\<rparr>), s2))))"

section \<open>The manifest\<close>

text \<open>
  \<open>strconv.Quote\<close>; \<open>printable\<close> is \<open>strconv.IsPrint\<close> for runes from 128 on. A byte that is no UTF-8 is written in
  hexadecimal, other characters as an escape.
\<close>

definition hex_pad :: "nat \<Rightarrow> int \<Rightarrow> string" where
  "hex_pad k r = map (\<lambda>i. hex_digit (r div 16 ^ i mod 16)) (rev [0..<k])"

definition quote_rune :: "(int \<Rightarrow> bool) \<Rightarrow> int \<Rightarrow> string" where
  "quote_rune printable r =
     (if r = 34 \<or> r = 92 then [CHR 92, chr r]
      else if 32 \<le> r \<and> r < 127 \<or> 128 \<le> r \<and> printable r then encode_rune r
      else if r = 7 then [CHR 92, CHR ''a''] else if r = 8 then [CHR 92, CHR ''b'']
      else if r = 12 then [CHR 92, CHR ''f''] else if r = 10 then [CHR 92, CHR ''n'']
      else if r = 13 then [CHR 92, CHR ''r''] else if r = 9 then [CHR 92, CHR ''t'']
      else if r = 11 then [CHR 92, CHR ''v'']
      else if r < 32 \<or> r = 127 then [CHR 92, CHR ''x''] @ hex_pad 2 r
      else if r < 65536 then [CHR 92, CHR ''u''] @ hex_pad 4 r
      else [CHR 92, CHR ''U''] @ hex_pad 8 r)"

fun quote_units :: "(int \<Rightarrow> bool) \<Rightarrow> (int \<times> nat) list \<Rightarrow> string \<Rightarrow> string" where
  "quote_units printable [] s = []"
| "quote_units printable ((r, n) # us) s =
     (if bad_unit (r, n) then [CHR 92, CHR ''x''] @ hex_pad 2 (byte (hd s)) else quote_rune printable r) @
     quote_units printable us (drop n s)"

definition go_quote :: "(int \<Rightarrow> bool) \<Rightarrow> string \<Rightarrow> string" where
  "go_quote printable s = CHR 34 # quote_units printable (units s) s @ [CHR 34]"

definition manifest_lines :: "string \<Rightarrow> string list" where
  "manifest_lines command =
     [''id = '' @ [CHR 34] @ HerdrPluginID @ [CHR 34], ''name = '' @ [CHR 34] @ ''NovaScale Notifications'' @ [CHR 34],
      ''version = '' @ [CHR 34] @ ''1.1.0'' @ [CHR 34], ''min_herdr_version = '' @ [CHR 34] @ ''0.9.1'' @ [CHR 34],
      ''platforms = ['' @ [CHR 34] @ ''linux'' @ [CHR 34] @ '', '' @ [CHR 34] @ ''macos'' @ [CHR 34] @ '']'', [],
      ''[[startup]]'', command, [], ''[[events]]'', ''on = '' @ [CHR 34] @ ''pane.agent_status_changed'' @ [CHR 34], command]"

definition herdr_manifest :: "(int \<Rightarrow> bool) \<Rightarrow> string \<Rightarrow> string result" where
  "herdr_manifest printable binary =
     (if \<not> is_abs binary then fail ''agent path must be absolute''
      else Inr (concat (map (\<lambda>l. l @ [CHR 10])
             (manifest_lines (''command = ['' @ go_quote printable binary @ '', '' @ [CHR 34] @ ''herdr-hook'' @ [CHR 34] @ '']'')))))"

section \<open>Installing and removing\<close>

definition write_manifest :: "agent_paths \<Rightarrow> string \<Rightarrow> setup_state \<Rightarrow> setup_state" where
  "write_manifest ap manifest s =
     (let path = join_path [join_path [ap_config_dir ap, ''herdr-plugin''], ''herdr-plugin.toml'']; temporary = path @ ''.tmp''
      in s\<lparr>ss_files := rename_file temporary path (write_file temporary 384 manifest (ss_files s))\<rparr>)"

text \<open>A baseline of every server that answers; the first failure ends the loop with what was done so far.\<close>

fun baseline_sockets :: "setup_system \<Rightarrow> nat \<Rightarrow> string list \<Rightarrow> queue \<Rightarrow> unit result \<times> queue" where
  "baseline_sockets sx i [] q = (Inr (), q)"
| "baseline_sockets sx i (socket # sockets) q =
     (case sx_read sx i socket of
        Inl _ \<Rightarrow> baseline_sockets sx (Suc i) sockets q
      | Inr (agents, incarnation) \<Rightarrow>
          (case bind_herdr (sx_sha256 sx) (sx_binding_id sx i) socket (sx_now sx i) q of
             (Inl e, q') \<Rightarrow> (Inl e, q')
           | (Inr b, q') \<Rightarrow>
               (case reconcile_herdr (sx_env sx) (sx_event_id sx i) b agents incarnation True (sx_now sx i) q' of
                  Inl e \<Rightarrow> (Inl e, q')
                | Inr q'' \<Rightarrow> baseline_sockets sx (Suc i) sockets q'')))"

text \<open>\<open>sockets\<close> are those of \<open>HerdrSockets\<close>; \<open>later\<close> are the surroundings of the status at the end.\<close>

definition install_herdr ::
  "setup_system \<Rightarrow> setup_system \<Rightarrow> http_client \<Rightarrow> (int \<Rightarrow> bool) \<Rightarrow> string list \<Rightarrow> agent_paths \<Rightarrow> string \<Rightarrow> string \<Rightarrow> string \<Rightarrow>
     setup_state \<Rightarrow> herdr_status result \<times> setup_state" where
  "install_herdr sx later client printable sockets ap socket binary version s =
     (case load_config (ap_config_file ap) (ss_files s) of
        Inl _ \<Rightarrow> (fail ''notification agent is not configured'', s)
      | Inr c \<Rightarrow>
      (case fst (herdr_backend_supported client (cf_endpoint c)) of
        Inl e \<Rightarrow> (Inl e, s)
      | Inr _ \<Rightarrow>
      (case read_daemon_info (sx_daemon sx) of
        Inl _ \<Rightarrow> (fail ''notification daemon is not running'', s)
      | Inr info \<Rightarrow>
          if HerdrCapability \<notin> set (dr_capabilities info) \<or> HerdrHostCaptureCapability \<notin> set (dr_capabilities info)
          then (fail ''running notification daemon requires an upgrade'', s)
          else
      (case herdr_manifest printable binary of
        Inl e \<Rightarrow> (Inl e, s)
      | Inr manifest \<Rightarrow>
          (let s1 = write_manifest ap manifest s;
               q = open_database (ss_database s1);
               s2 = put_database q s1
           in case herdr_plugin_command (sx_host sx) [''link'', join_path [ap_config_dir ap, ''herdr-plugin''], ''--enabled''] of
                (Inl e, trace) \<Rightarrow> (Inl e, add_trace trace s2)
              | (Inr _, trace) \<Rightarrow>
                  (case baseline_sockets sx 0 (sockets @ (if socket \<noteq> [] then [socket] else [])) (set_herdr_capture_enabled True q) of
                     (Inl e, q') \<Rightarrow> (Inl e, put_database q' (add_trace trace s2))
                   | (Inr _, q') \<Rightarrow> inspect_herdr later ap socket version (put_database q' (add_trace trace s2))))))))"

definition uninstall_herdr :: "host_system \<Rightarrow> setup_state \<Rightarrow> unit result \<times> setup_state" where
  "uninstall_herdr hx s =
     (let q = set_herdr_capture_enabled False (open_database (ss_database s));
          s1 = put_database q s
      in case herdr_plugin_command hx [''uninstall'', HerdrPluginID] of
           (Inl e, trace) \<Rightarrow> (Inl e, add_trace trace s1)
         | (Inr _, trace) \<Rightarrow> (Inr (), add_trace trace s1))"

section \<open>Binding routes\<close>

record herdr_binding_route =
  br_session_id :: string
  br_session_name :: string

record herdr_binding_routes =
  rt_host_id :: string
  rt_endpoint :: string
  rt_bindings :: "herdr_binding_route list"

definition binding_routes :: "environment \<Rightarrow> herdr_binding list \<Rightarrow> herdr_binding_route list" where
  "binding_routes env bs =
     concat (map (\<lambda>b. let name = herdr_binding_session_name env (hb_socket_path b)
                      in if name = [] then [] else [\<lparr>br_session_id = hb_session_id b, br_session_name = name\<rparr>]) bs)"

definition read_herdr_binding_routes ::
  "environment \<Rightarrow> agent_paths \<Rightarrow> setup_state \<Rightarrow> herdr_binding_routes result \<times> setup_state" where
  "read_herdr_binding_routes env ap s =
     (case load_config (ap_config_file ap) (ss_files s) of
        Inl e \<Rightarrow> (Inl e, s)
      | Inr c \<Rightarrow>
          (case ss_database s of
             None \<Rightarrow> (Inl ErrNotExist, s)
           | Some _ \<Rightarrow>
               (let q = open_database (ss_database s)
                in (Inr \<lparr>rt_host_id = cf_host_id c, rt_endpoint = cf_endpoint c, rt_bindings = binding_routes env (herdr_bindings q)\<rparr>,
                    put_database q s))))"

section \<open>Output\<close>

definition herdr_status_json :: "herdr_status \<Rightarrow> json" where
  "herdr_status_json st = JObj
     ([(''hostId'', JStr (hs_host_id st)), (''endpoint'', JStr (hs_endpoint st)),
       (''registrationState'', JStr (hs_registration_state st)), (''agentVersion'', JStr (hs_agent_version st))] @
      opt_member ''daemonVersion'' (hs_daemon_version st) @
      [(''daemonCapabilities'', JArr (map JStr (hs_daemon_capabilities st)))] @
      opt_member ''sessionId'' (hs_session_id st) @
      [(''socketReady'', JBool (hs_socket_ready st)), (''pluginInstalled'', JBool (hs_plugin_installed st)),
       (''pluginEnabled'', JBool (hs_plugin_enabled st)), (''ready'', JBool (hs_ready st)), (''hostReady'', JBool (hs_host_ready st))])"

definition binding_routes_json :: "herdr_binding_routes \<Rightarrow> json" where
  "binding_routes_json r = JObj
     [(''hostId'', JStr (rt_host_id r)), (''endpoint'', JStr (rt_endpoint r)),
      (''bindings'', JArr (map (\<lambda>b. JObj [(''sessionId'', JStr (br_session_id b)), (''sessionName'', JStr (br_session_name b))]) (rt_bindings r)))]"

end
