(* ===== verification/App_Server.thy ===== *)
theory App_Server
  imports Paths
begin

text \<open>
  \<open>internal/appservercontrol\<close>: whether the Codex executable changed after the App Server was started, and
  the restart of its service. The disk is a map from paths to nodes, as \<open>lstat\<close> and \<open>readlink\<close> show them;
  the output of the service manager and of \<open>ps\<close> and the success of a command are parameters. Errors of the
  disk other than a missing file are not modelled.
\<close>

section \<open>White space\<close>

definition drop_spaces :: "(int \<times> nat) list \<Rightarrow> (int \<times> nat) list" where
  "drop_spaces us = dropWhile (\<lambda>u. is_space (fst u)) us"

text \<open>\<open>strings.TrimSpace\<close>: the bytes of the runes between the outer spaces.\<close>

definition trim_space :: "string \<Rightarrow> string" where
  "trim_space s =
     (let us = units s; us' = drop_spaces us; vs = drop_spaces (rev us')
      in take (sum_list (map snd vs)) (drop (length s - sum_list (map snd us')) s))"

text \<open>\<open>strings.Fields\<close>: the runs of runes that are no spaces; \<open>word\<close> is the current one, reversed.\<close>

fun fields_of :: "string \<Rightarrow> (int \<times> nat) list \<Rightarrow> string \<Rightarrow> string list" where
  "fields_of word [] s = (if word = [] then [] else [word])"
| "fields_of word ((r, n) # us) s =
     (if is_space r then (if word = [] then [] else [word]) @ fields_of [] us (drop n s)
      else fields_of (word @ take n s) us (drop n s))"

definition string_fields :: "string \<Rightarrow> string list" where
  "string_fields s = fields_of [] (units s) s"

section \<open>The disk\<close>

datatype disk_node =
  RegularNode (node_perm: int) (node_mtime: gotime) (node_text: string)
| LinkNode (node_mtime: gotime) (node_target: string)
| OtherNode (node_mtime: gotime)

type_synonym disk = "string \<Rightarrow> disk_node option"

section \<open>The configured executable\<close>

definition currentConfigName :: string where "currentConfigName = ''novascale-codex-host.env''"
definition legacyConfigName :: string where "legacyConfigName = ''novaaccess-codex-host.env''"
definition maxConfigBytes :: nat where "maxConfigBytes = 64 * 1024"
definition maxSymlinkDepth :: nat where "maxSymlinkDepth = 32"
definition mtimeTolerance :: int where "mtimeTolerance = 2 * second"

fun unquote_bytes :: "string \<Rightarrow> string result" where
  "unquote_bytes [] = Inr []"
| "unquote_bytes (c # cs) =
     (if c \<noteq> CHR 92 then (case unquote_bytes cs of Inl e \<Rightarrow> Inl e | Inr s \<Rightarrow> Inr (c # s))
      else case cs of
          [] \<Rightarrow> fail ''unsupported escape''
        | d # ds \<Rightarrow>
            if d \<notin> {CHR 92, CHR 34, CHR 36, CHR 96} then fail ''unsupported escape''
            else (case unquote_bytes ds of Inl e \<Rightarrow> Inl e | Inr s \<Rightarrow> Inr (d # s)))"

definition unquote_config_value :: "string \<Rightarrow> string result" where
  "unquote_config_value v =
     (if length v < 2 \<or> hd v \<noteq> CHR 34 \<or> List.last v \<noteq> CHR 34 then fail ''value is not double quoted''
      else unquote_bytes (butlast (tl v)))"

text \<open>The lines a \<open>bufio.Scanner\<close> yields.\<close>

definition drop_cr :: "string \<Rightarrow> string" where
  "drop_cr s = trim_suffix s [CHR 13]"

definition scan_lines :: "string \<Rightarrow> string list" where
  "scan_lines text = (let ls = split_on (CHR 10) text in map drop_cr (if List.last ls = [] then butlast ls else ls))"

definition config_keys :: "string list" where
  "config_keys = [''NOVASCALE_CODEX_BIN'', ''NOVA_CODEX_BIN'']"

fun read_keys :: "string \<Rightarrow> string list \<Rightarrow> string gomap \<Rightarrow> string gomap result" where
  "read_keys line [] values = Inr values"
| "read_keys line (key # keys) values =
     (if \<not> has_prefix line (key @ ''='') then read_keys line keys values
      else case unquote_config_value (trim_prefix line (key @ ''='')) of
          Inl _ \<Rightarrow> fail ''invalid value in Codex host configuration''
        | Inr v \<Rightarrow> read_keys line keys (map_put key v values))"

fun read_lines :: "string list \<Rightarrow> string gomap \<Rightarrow> string gomap result" where
  "read_lines [] values = Inr values"
| "read_lines (line # lines) values =
     (case read_keys line config_keys values of Inl e \<Rightarrow> Inl e | Inr values' \<Rightarrow> read_lines lines values')"

definition config_value :: "string gomap \<Rightarrow> string \<Rightarrow> string" where
  "config_value values key = (case map_get values key of None \<Rightarrow> [] | Some v \<Rightarrow> v)"

text \<open>A line that fills the scanner's buffer is an error, but only a file that is too large anyway has one.\<close>

definition binary_of_text :: "string \<Rightarrow> string result" where
  "binary_of_text text =
     (case read_lines (scan_lines (take (maxConfigBytes + 1) text)) [] of
        Inl e \<Rightarrow> Inl e
      | Inr values \<Rightarrow>
          if maxConfigBytes < length text then fail ''Codex host configuration is too large''
          else (let first = config_value values ''NOVASCALE_CODEX_BIN'';
                    binary = (if first = [] then config_value values ''NOVA_CODEX_BIN'' else first)
                in if binary = [] \<or> \<not> is_abs binary then fail ''Codex host configuration has no absolute executable path''
                   else Inr (clean_path binary)))"

definition binary_from_config :: "disk \<Rightarrow> string \<Rightarrow> string result" where
  "binary_from_config disk path =
     (case disk path of
        None \<Rightarrow> Inl ErrNotExist
      | Some (RegularNode perm _ text) \<Rightarrow>
          if perm mod 64 \<noteq> 0 then fail ''Codex host configuration permissions are too broad'' else binary_of_text text
      | Some _ \<Rightarrow> fail ''Codex host configuration is not a regular file'')"

definition configured_binary :: "disk \<Rightarrow> string \<Rightarrow> string result" where
  "configured_binary disk home =
     (let directory = join_path [home, ''.codex'']
      in case binary_from_config disk (join_path [directory, currentConfigName]) of
           Inr binary \<Rightarrow> Inr binary
         | Inl e \<Rightarrow>
             if e \<noteq> ErrNotExist then Inl e
             else (case binary_from_config disk (join_path [directory, legacyConfigName]) of
                 Inr binary \<Rightarrow> Inr binary
               | Inl e' \<Rightarrow> if e' \<noteq> ErrNotExist then Inl e' else fail ''Codex host configuration not found''))"

text \<open>The modification times along the symbolic links, from the zero time on; \<open>n\<close> is the number of visits left.\<close>

fun binary_changed_at :: "disk \<Rightarrow> nat \<Rightarrow> string \<Rightarrow> gotime \<Rightarrow> gotime result" where
  "binary_changed_at disk 0 current changed = fail ''configured Codex executable has too many symbolic links''"
| "binary_changed_at disk (Suc n) current changed =
     (case disk current of
        None \<Rightarrow> Inl ErrNotExist
      | Some node \<Rightarrow>
          (let changed' = (if after (node_mtime node) changed then node_mtime node else changed)
           in case node of
                RegularNode _ _ _ \<Rightarrow> Inr changed'
              | OtherNode _ \<Rightarrow> fail ''configured Codex executable is not a regular file''
              | LinkNode _ target \<Rightarrow>
                  binary_changed_at disk n
                    (clean_path (if is_abs target then target else join_path [dir_path current, target])) changed'))"

definition resolved_binary_changed_at :: "disk \<Rightarrow> string \<Rightarrow> gotime result" where
  "resolved_binary_changed_at disk path = binary_changed_at disk maxSymlinkDepth (clean_path path) zero_time"

section \<open>The running service\<close>

definition serviceLabel :: string where "serviceLabel = ''dev.galaxnet.novascale.codex''"
definition serviceFile :: string where "serviceFile = ''novascale-codex.service''"

text \<open>The command runner: the standard output of a command that succeeded, and whether a command succeeds.\<close>

record runner =
  rn_output :: "string \<Rightarrow> string list \<Rightarrow> string option"
  rn_run :: "string \<Rightarrow> string list \<Rightarrow> bool"

definition positive_pid :: "string \<Rightarrow> int result" where
  "positive_pid v =
     (case parse_int64 v of
        None \<Rightarrow> fail ''Codex App Server service is not running''
      | Some pid \<Rightarrow> if pid \<le> 0 then fail ''Codex App Server service is not running'' else Inr pid)"

fun launchd_pid :: "string list \<Rightarrow> int result" where
  "launchd_pid [] = fail ''Codex App Server service is not running''"
| "launchd_pid (line # lines) =
     (case string_fields line of
        [a, b, c] \<Rightarrow> if a = ''pid'' \<and> b = ''='' then positive_pid c else launchd_pid lines
      | _ \<Rightarrow> launchd_pid lines)"

definition service_target :: "int \<Rightarrow> string" where
  "service_target uid = ''gui/'' @ format_int uid @ ''/'' @ serviceLabel"

definition service_pid :: "string \<Rightarrow> int \<Rightarrow> runner \<Rightarrow> int result" where
  "service_pid goos uid rn =
     (if goos = ''darwin'' then
        (if uid < 0 then fail ''invalid user id''
         else case rn_output rn ''launchctl'' [''print'', service_target uid] of
             None \<Rightarrow> fail ''query Codex App Server service''
           | Some output \<Rightarrow> launchd_pid (split_on (CHR 10) output))
      else if goos = ''linux'' then
        (case rn_output rn ''systemctl'' [''--user'', ''show'', ''--property=MainPID'', ''--value'', serviceFile] of
           None \<Rightarrow> fail ''query Codex App Server service''
         | Some output \<Rightarrow> positive_pid (trim_space output))
      else fail ''unsupported operating system'')"

text \<open>\<open>[[dd-]hh:]mm:ss\<close>; a duration is an \<open>int64\<close> of nanoseconds.\<close>

definition wrap64 :: "int \<Rightarrow> int" where
  "wrap64 n = (n + 2 ^ 63) mod 2 ^ 64 - 2 ^ 63"

definition parse_count :: "string \<Rightarrow> int option" where
  "parse_count s = (case parse_int64 s of None \<Rightarrow> None | Some n \<Rightarrow> if n < 0 then None else Some n)"

definition clock_seconds :: "string list \<Rightarrow> int option" where
  "clock_seconds parts =
     (case those (map parse_count parts) of
        Some [m, s] \<Rightarrow> if 60 \<le> m \<or> 60 \<le> s then None else Some (60 * m + s)
      | Some [h, m, s] \<Rightarrow> if 60 \<le> m \<or> 60 \<le> s then None else Some (3600 * h + 60 * m + s)
      | _ \<Rightarrow> None)"

definition parse_elapsed :: "string \<Rightarrow> int result" where
  "parse_elapsed v =
     (if v = [] then fail ''empty elapsed time''
      else let (front, back, found) = cut (CHR ''-'') v;
               days = (if found then parse_count front else Some 0);
               clock = (if found then back else v)
           in case (days, clock_seconds (split_on (CHR '':'') clock)) of
                (Some d, Some s) \<Rightarrow> Inr (wrap64 ((86400 * d + s) * second))
              | _ \<Rightarrow> fail ''invalid elapsed time'')"

definition process_elapsed :: "int \<Rightarrow> runner \<Rightarrow> int result" where
  "process_elapsed pid rn =
     (case rn_output rn ''ps'' [''-p'', format_int pid, ''-o'', ''etime=''] of
        None \<Rightarrow> fail ''query Codex App Server process''
      | Some output \<Rightarrow> parse_elapsed (trim_space output))"

section \<open>Updates\<close>

datatype update_state = UpdateCurrent | UpdateRestartRequired

definition inspect_update ::
  "bool \<Rightarrow> disk \<Rightarrow> string \<Rightarrow> string \<Rightarrow> int \<Rightarrow> gotime \<Rightarrow> runner \<Rightarrow> update_state result" where
  "inspect_update cancelled disk home goos uid now rn =
     (if cancelled then fail ''context canceled''
      else if trim_space home = [] then fail ''home directory is unavailable''
      else case configured_binary disk home of
          Inl e \<Rightarrow> Inl e
        | Inr binary \<Rightarrow>
            (case resolved_binary_changed_at disk binary of
               Inl e \<Rightarrow> Inl e
             | Inr changed \<Rightarrow>
                 (case service_pid goos uid rn of
                    Inl e \<Rightarrow> Inl e
                  | Inr pid \<Rightarrow>
                      (case process_elapsed pid rn of
                         Inl e \<Rightarrow> Inl e
                       | Inr elapsed \<Rightarrow>
                           (let started = time_add now (wrap64 (- elapsed))
                            in Inr (if after changed (time_add started mtimeTolerance) then UpdateRestartRequired
                                    else UpdateCurrent))))))"

text \<open>The restart, with the commands it runs.\<close>

definition restart_command :: "string \<Rightarrow> int \<Rightarrow> (string \<times> string list) result" where
  "restart_command goos uid =
     (if goos = ''darwin'' then
        (if uid < 0 then fail ''invalid user id'' else Inr (''launchctl'', [''kickstart'', ''-k'', service_target uid]))
      else if goos = ''linux'' then Inr (''systemctl'', [''--user'', ''restart'', serviceFile])
      else fail ''unsupported operating system'')"

definition restart :: "bool \<Rightarrow> string \<Rightarrow> int \<Rightarrow> runner \<Rightarrow> unit result \<times> (string \<times> string list) list" where
  "restart cancelled goos uid rn =
     (if cancelled then (fail ''context canceled'', [])
      else case restart_command goos uid of
          Inl e \<Rightarrow> (Inl e, [])
        | Inr (name, arguments) \<Rightarrow>
            (if rn_run rn name arguments then Inr () else fail ''restart Codex App Server service'', [(name, arguments)]))"

text \<open>The context can be cancelled between the inspection and the restart.\<close>

definition restart_if_updated ::
  "bool \<Rightarrow> bool \<Rightarrow> disk \<Rightarrow> string \<Rightarrow> string \<Rightarrow> int \<Rightarrow> gotime \<Rightarrow> runner \<Rightarrow> bool result \<times> (string \<times> string list) list" where
  "restart_if_updated cancelled cancelled' disk home goos uid now rn =
     (case inspect_update cancelled disk home goos uid now rn of
        Inl e \<Rightarrow> (Inl e, [])
      | Inr UpdateCurrent \<Rightarrow> (Inr False, [])
      | Inr UpdateRestartRequired \<Rightarrow>
          (case restart cancelled' goos uid rn of
             (Inl e, commands) \<Rightarrow> (Inl e, commands)
           | (Inr _, commands) \<Rightarrow> (Inr True, commands)))"

end
