(* ===== verification/Hook_Config.thy ===== *)
theory Hook_Config
  imports Config Decode_Wf
begin

text \<open>
  \<open>internal/hookconfig/hooks.go\<close>: the hooks of the agent in Codex's \<open>hooks.json\<close>. A \<open>rawObject\<close> is a Go
  map, \<open>None\<close> when it is nil; a \<open>json.RawMessage\<close> is the value it parses to, so a text that is kept as it is
  is kept up to its escapes and white space. Writes go to the file system of \<open>Config\<close>; directory modes and
  failures of the disk are not modelled.
\<close>

type_synonym raw_object = "json gomap option"

definition maxHooksFileSize :: nat where "maxHooksFileSize = 1024 * 1024"
definition statusMessage :: string where "statusMessage = ''Notifying NovaScale''"
definition notificationEvents :: "string list" where "notificationEvents = [''PermissionRequest'', ''Stop'']"

section \<open>Raw objects\<close>

fun dec_object :: "json \<Rightarrow> raw_object option" where
  "dec_object JNull = Some None"
| "dec_object (JObj ms) = Some (Some (foldl (\<lambda>m (k, v). map_put k v m) [] ms))"
| "dec_object _ = None"

fun dec_objects :: "json \<Rightarrow> raw_object list option" where
  "dec_objects JNull = Some []"
| "dec_objects (JArr vs) = those (map dec_object vs)"
| "dec_objects _ = None"

fun obj_get :: "raw_object \<Rightarrow> string \<Rightarrow> json option" where
  "obj_get None k = None"
| "obj_get (Some m) k = map_get m k"

fun obj_json :: "raw_object \<Rightarrow> json" where
  "obj_json None = JNull"
| "obj_json (Some m) = JObj m"

definition objs_json :: "raw_object list \<Rightarrow> json" where
  "objs_json os = JArr (map obj_json os)"

text \<open>\<open>_ = json.Unmarshal(raw, &text)\<close>\<close>

fun raw_text :: "json option \<Rightarrow> string" where
  "raw_text (Some (JStr s)) = s"
| "raw_text _ = []"

section \<open>Groups and handlers\<close>

definition hooks_object :: "raw_object \<Rightarrow> json gomap result" where
  "hooks_object document =
     (case obj_get document ''hooks'' of
        None \<Rightarrow> Inr []
      | Some raw \<Rightarrow>
          (case dec_object raw of
             None \<Rightarrow> fail ''Codex hooks field must be an object''
           | Some None \<Rightarrow> Inr []
           | Some (Some hooks) \<Rightarrow> Inr hooks))"

definition groups_for_event :: "json gomap \<Rightarrow> string \<Rightarrow> raw_object list result" where
  "groups_for_event hooks event =
     (case map_get hooks event of
        None \<Rightarrow> Inr []
      | Some raw \<Rightarrow> (case dec_objects raw of None \<Rightarrow> fail ''hooks must be an array'' | Some groups \<Rightarrow> Inr groups))"

definition handlers_for_group :: "raw_object \<Rightarrow> raw_object list result" where
  "handlers_for_group g =
     (case obj_get g ''hooks'' of
        None \<Rightarrow> fail ''Codex hook group is missing hooks''
      | Some raw \<Rightarrow>
          (case dec_objects raw of None \<Rightarrow> fail ''Codex hook handlers must be an array'' | Some handlers \<Rightarrow> Inr handlers))"

definition handler_command :: "raw_object \<Rightarrow> string" where
  "handler_command handler =
     (if raw_text (obj_get handler ''type'') \<noteq> ''command'' then [] else raw_text (obj_get handler ''command''))"

definition contains_command :: "raw_object list \<Rightarrow> string \<Rightarrow> bool" where
  "contains_command groups command =
     list_ex (\<lambda>g. case handlers_for_group g of Inl _ \<Rightarrow> False | Inr hs \<Rightarrow> list_ex (\<lambda>h. handler_command h = command) hs) groups"

fun remove_command :: "raw_object list \<Rightarrow> string \<Rightarrow> (raw_object list \<times> bool) result" where
  "remove_command [] command = Inr ([], False)"
| "remove_command (g # gs) command =
     (case handlers_for_group g of
        Inl e \<Rightarrow> Inl e
      | Inr handlers \<Rightarrow>
          (let filtered = filter (\<lambda>h. handler_command h \<noteq> command) handlers;
               removed = list_ex (\<lambda>h. handler_command h = command) handlers
           in case remove_command gs command of
                Inl e \<Rightarrow> Inl e
              | Inr (rest, removed') \<Rightarrow>
                  Inr (if filtered = [] then rest
                       else map_option (map_put ''hooks'' (objs_json filtered)) g # rest, removed \<or> removed')))"

definition new_handler :: "string \<Rightarrow> raw_object" where
  "new_handler command = Some
     [(''command'', JStr command), (''statusMessage'', JStr statusMessage), (''timeout'', JNum (format_int 3)),
      (''type'', JStr ''command'')]"

definition new_group :: "string \<Rightarrow> raw_object" where
  "new_group command = Some [(''hooks'', objs_json [new_handler command])]"

section \<open>The events of a document\<close>

fun install_events :: "string \<Rightarrow> string list \<Rightarrow> json gomap \<Rightarrow> (json gomap \<times> bool) result" where
  "install_events command [] hooks = Inr (hooks, False)"
| "install_events command (event # events) hooks =
     (case groups_for_event hooks event of
        Inl e \<Rightarrow> Inl e
      | Inr groups \<Rightarrow>
          if contains_command groups command then install_events command events hooks
          else (case install_events command events (map_put event (objs_json (groups @ [new_group command])) hooks) of
                  Inl e \<Rightarrow> Inl e
                | Inr (hooks', _) \<Rightarrow> Inr (hooks', True)))"

fun uninstall_events :: "string \<Rightarrow> string list \<Rightarrow> json gomap \<Rightarrow> (json gomap \<times> bool) result" where
  "uninstall_events command [] hooks = Inr (hooks, False)"
| "uninstall_events command (event # events) hooks =
     (case groups_for_event hooks event of
        Inl e \<Rightarrow> Inl e
      | Inr groups \<Rightarrow>
          (case remove_command groups command of
             Inl e \<Rightarrow> Inl e
           | Inr (filtered, removed) \<Rightarrow>
               if \<not> removed then uninstall_events command events hooks
               else (case uninstall_events command events
                        (if filtered = [] then map_del event hooks else map_put event (objs_json filtered) hooks) of
                       Inl e \<Rightarrow> Inl e
                     | Inr (hooks', _) \<Rightarrow> Inr (hooks', True))))"

fun installed_events :: "string \<Rightarrow> string list \<Rightarrow> json gomap \<Rightarrow> bool result" where
  "installed_events command [] hooks = Inr True"
| "installed_events command (event # events) hooks =
     (case groups_for_event hooks event of
        Inl e \<Rightarrow> Inl e
      | Inr groups \<Rightarrow> if contains_command groups command then installed_events command events hooks else Inr False)"

text \<open>A nil document cannot take the new member: the assignment panics.\<close>

definition set_hooks :: "raw_object \<Rightarrow> json gomap \<Rightarrow> raw_object result" where
  "set_hooks document hooks =
     (case document of
        None \<Rightarrow> fail ''panic: assignment to entry in nil map''
      | Some m \<Rightarrow> Inr (Some (map_put ''hooks'' (JObj hooks) m)))"

section \<open>The file\<close>

definition load_hooks :: "string \<Rightarrow> file_system \<Rightarrow> (raw_object \<times> string) result" where
  "load_hooks path fs =
     (case fs path of
        None \<Rightarrow> Inr (Some [], [])
      | Some f \<Rightarrow>
          if maxHooksFileSize < length (fi_content f) then fail ''Codex hooks file is too large''
          else (case Option.bind (json_parse (fi_content f)) dec_object of
                  None \<Rightarrow> fail ''parse Codex hooks file''
                | Some document \<Rightarrow> Inr (document, fi_content f)))"

definition save_hooks :: "string \<Rightarrow> raw_object \<Rightarrow> string \<Rightarrow> file_system \<Rightarrow> file_system" where
  "save_hooks path document original fs =
     (let backup = path @ ''.novascale-backup''; temporary = path @ ''.tmp'';
          fs1 = (if original \<noteq> [] \<and> fs backup = None then write_file backup 384 original fs else fs)
      in rename_file temporary path (write_file temporary 384 (json_print_indent (obj_json document) @ [CHR 10]) fs1))"

definition change_hooks ::
  "(json gomap \<Rightarrow> (json gomap \<times> bool) result) \<Rightarrow> string \<Rightarrow> string \<Rightarrow> file_system \<Rightarrow> (bool \<times> file_system) result" where
  "change_hooks change path command fs =
     (if command = [] then fail ''hook command is required''
      else case load_hooks path fs of
          Inl e \<Rightarrow> Inl e
        | Inr (document, original) \<Rightarrow>
            (case hooks_object document of
               Inl e \<Rightarrow> Inl e
             | Inr hooks \<Rightarrow>
                 (case change hooks of
                    Inl e \<Rightarrow> Inl e
                  | Inr (hooks', changed) \<Rightarrow>
                      if \<not> changed then Inr (False, fs)
                      else (case set_hooks document hooks' of
                              Inl e \<Rightarrow> Inl e
                            | Inr document' \<Rightarrow> Inr (True, save_hooks path document' original fs)))))"

definition install_hooks :: "string \<Rightarrow> string \<Rightarrow> file_system \<Rightarrow> (bool \<times> file_system) result" where
  "install_hooks path command = change_hooks (install_events command notificationEvents) path command"

definition uninstall_hooks :: "string \<Rightarrow> string \<Rightarrow> file_system \<Rightarrow> (bool \<times> file_system) result" where
  "uninstall_hooks path command = change_hooks (uninstall_events command notificationEvents) path command"

definition hooks_installed :: "string \<Rightarrow> string \<Rightarrow> file_system \<Rightarrow> bool result" where
  "hooks_installed path command fs =
     (case load_hooks path fs of
        Inl e \<Rightarrow> Inl e
      | Inr (document, _) \<Rightarrow>
          (case hooks_object document of
             Inl e \<Rightarrow> Inl e
           | Inr hooks \<Rightarrow> installed_events command notificationEvents hooks))"

section \<open>Go maps decoded from an object\<close>

lemma fold_put_ok: "map_ok m \<Longrightarrow> map_ok (foldl (\<lambda>m (k, v). map_put k v m) m ms)"
  by (induction ms arbitrary: m) (auto split: prod.splits)

lemma dec_object_ok: "dec_object j = Some (Some m) \<Longrightarrow> map_ok m"
  by (cases j) (auto intro: fold_put_ok)

lemma map_ok_append_Cons: "map_ok (m @ e # ms) \<Longrightarrow> map_ok (m @ [e])"
  by (auto simp: map_ok_def sorted_wrt_append)

lemma fold_put_sorted: "map_ok (m @ ms) \<Longrightarrow> foldl (\<lambda>m (k, v). map_put k v m) m ms = m @ ms"
proof (induction ms arbitrary: m)
  case (Cons e ms)
  obtain k v where e: "e = (k, v)" by fastforce
  have "map_put k v m = m @ [(k, v)]"
    using map_ok_append_Cons[OF Cons.prems] by (intro map_put_append) (simp add: e)
  then show ?case
    using Cons by (simp add: e)
qed simp

lemma dec_obj_json [simp]: "(case ob of None \<Rightarrow> True | Some m \<Rightarrow> map_ok m) \<Longrightarrow> dec_object (obj_json ob) = Some ob"
  by (cases ob) (simp_all add: fold_put_sorted)

lemma those_map: "(\<And>x. x \<in> set xs \<Longrightarrow> f x = Some (g x)) \<Longrightarrow> those (map f xs) = Some (map g xs)"
  by (induction xs) auto

lemma those_members: "those os = Some xs \<Longrightarrow> os = map Some xs"
  by (induction os arbitrary: xs) (auto split: option.splits)

definition obj_ok :: "raw_object \<Rightarrow> bool" where
  "obj_ok ob \<longleftrightarrow> (case ob of None \<Rightarrow> True | Some m \<Rightarrow> map_ok m)"

lemma dec_objs_json: "list_all obj_ok gs \<Longrightarrow> dec_objects (objs_json gs) = Some gs"
  using those_map[of gs "dec_object \<circ> obj_json" id] by (simp add: objs_json_def obj_ok_def list_all_iff)

lemma dec_objects_ok: "dec_objects j = Some gs \<Longrightarrow> list_all obj_ok gs"
proof (cases j)
  case (JArr vs)
  assume "dec_objects j = Some gs"
  then have "map dec_object vs = map Some gs"
    using those_members JArr by simp
  then have "\<exists>v. dec_object v = Some g" if "g \<in> set gs" for g
    using that by (metis (no_types, lifting) image_iff list.set_map)
  then show ?thesis
    using dec_object_ok by (fastforce simp: list_all_iff obj_ok_def split: option.splits)
qed simp_all

section \<open>One event\<close>

lemma new_group_ok: "obj_ok (new_group command)" "handlers_for_group (new_group command) = Inr [new_handler command]"
  "handler_command (new_handler command) = command"
proof -
  have h: "obj_ok (new_handler command)"
    by (simp add: obj_ok_def new_handler_def map_ok_def)
  show "obj_ok (new_group command)"
    by (simp add: obj_ok_def new_group_def map_ok_def)
  show "handlers_for_group (new_group command) = Inr [new_handler command]"
    using dec_objs_json[of "[new_handler command]"] h by (simp add: handlers_for_group_def new_group_def map_get_def)
  show "handler_command (new_handler command) = command"
    by (simp add: handler_command_def new_handler_def map_get_def)
qed

lemma new_group_contains: "contains_command [new_group command] command"
  by (simp add: contains_command_def new_group_ok)

lemma contains_append: "contains_command (gs @ hs) command \<longleftrightarrow> contains_command gs command \<or> contains_command hs command"
  by (simp add: contains_command_def)

lemma groups_put: "map_ok hooks \<Longrightarrow> list_all obj_ok gs \<Longrightarrow>
    groups_for_event (map_put event (objs_json gs) hooks) event' = (if event' = event then Inr gs else groups_for_event hooks event')"
  by (simp add: groups_for_event_def map_get_put dec_objs_json)

lemma groups_del: "groups_for_event (map_del event hooks) event' = (if event' = event then Inr [] else groups_for_event hooks event')"
  by (simp add: groups_for_event_def map_get_del)

lemma groups_ok: "groups_for_event hooks event = Inr gs \<Longrightarrow> list_all obj_ok gs"
  by (auto simp: groups_for_event_def dest: dec_objects_ok split: option.splits)

section \<open>Installing\<close>

text \<open>What \<open>install_events\<close> does to the groups of any event.\<close>

lemma install_events_groups:
  assumes "install_events command events hooks = Inr (hooks', changed)" "map_ok hooks" "distinct events"
  shows "map_ok hooks' \<and> (\<forall>event. event \<notin> set events \<longrightarrow> map_get hooks' event = map_get hooks event) \<and>
    (\<forall>event \<in> set events. \<exists>gs. groups_for_event hooks event = Inr gs \<and>
       groups_for_event hooks' event = Inr (if contains_command gs command then gs else gs @ [new_group command]) \<and>
       (contains_command gs command \<longrightarrow> map_get hooks' event = map_get hooks event)) \<and>
    (\<not> changed \<longrightarrow> hooks' = hooks)"
  using assms
proof (induction command events hooks arbitrary: hooks' changed rule: install_events.induct)
  case (2 command event events hooks)
  obtain gs where gs: "groups_for_event hooks event = Inr gs"
    using 2(3) by (auto split: sum.splits)
  have ev: "event \<notin> set events" "distinct events"
    using 2(5) by simp_all
  show ?case
  proof (cases "contains_command gs command")
    case True
    then have "install_events command events hooks = Inr (hooks', changed)"
      using 2(3) gs by simp
    from 2(1)[OF gs True this 2(4) ev(2)] show ?thesis
      using True gs ev(1) by (auto simp: groups_for_event_def)
  next
    case False
    let ?h = "map_put event (objs_json (gs @ [new_group command])) hooks"
    obtain c where rec: "install_events command events ?h = Inr (hooks', c)" "changed"
      using 2(3) gs False by (auto split: sum.splits)
    have ok: "list_all obj_ok (gs @ [new_group command])"
      using groups_ok[OF gs] new_group_ok(1) by simp
    have g: "groups_for_event ?h event' = (if event' = event then Inr (gs @ [new_group command]) else groups_for_event hooks event')" for event'
      using groups_put[OF 2(4) ok] .
    have mh: "map_ok ?h"
      using 2(4) by simp
    have IH: "map_ok hooks' \<and> (\<forall>event. event \<notin> set events \<longrightarrow> map_get hooks' event = map_get ?h event) \<and>
      (\<forall>event \<in> set events. \<exists>gs. groups_for_event ?h event = Inr gs \<and>
       groups_for_event hooks' event = Inr (if contains_command gs command then gs else gs @ [new_group command]) \<and>
       (contains_command gs command \<longrightarrow> map_get hooks' event = map_get ?h event))"
      using 2(2)[OF gs False rec(1) mh ev(2)] by blast
    have same: "groups_for_event hooks' event = groups_for_event ?h event"
      using IH ev(1) by (simp add: groups_for_event_def)
    have rest: "\<exists>gs. groups_for_event hooks e = Inr gs \<and>
       groups_for_event hooks' e = Inr (if contains_command gs command then gs else gs @ [new_group command]) \<and>
       (contains_command gs command \<longrightarrow> map_get hooks' e = map_get hooks e)" if "e \<in> set events" for e
    proof -
      have "e \<noteq> event"
        using that ev(1) by blast
      then have h: "groups_for_event ?h e = groups_for_event hooks e" "map_get ?h e = map_get hooks e"
        using g[of e] map_get_put[OF 2(4)] by simp_all
      show ?thesis
        using bspec[OF conjunct2[OF conjunct2[OF IH]] that] unfolding h .
    qed
    show ?thesis
      using IH rec(2) rest same g[of event] gs False map_get_put[OF 2(4)] by auto
  qed
qed simp

section \<open>Uninstalling\<close>

definition group_handlers :: "raw_object \<Rightarrow> raw_object list" where
  "group_handlers g = (case handlers_for_group g of Inl _ \<Rightarrow> [] | Inr hs \<Rightarrow> hs)"

definition all_handlers :: "raw_object list \<Rightarrow> raw_object list" where
  "all_handlers gs = concat (map group_handlers gs)"

lemma contains_all_handlers: "contains_command gs command \<longleftrightarrow> command \<in> handler_command ` set (all_handlers gs)"
proof (induction gs)
  case (Cons g gs)
  have "list_ex (\<lambda>h. handler_command h = command) hs \<longleftrightarrow> command \<in> handler_command ` set hs" for hs
    by (auto simp: list_ex_iff)
  with Cons show ?case
    by (cases "handlers_for_group g") (simp_all add: contains_command_def all_handlers_def group_handlers_def image_Un)
qed (simp add: contains_command_def all_handlers_def)

lemma handlers_ok: "handlers_for_group g = Inr hs \<Longrightarrow> list_all obj_ok hs"
  by (auto simp: handlers_for_group_def dest: dec_objects_ok split: option.splits)

lemma handlers_put:
  "obj_ok (Some m) \<Longrightarrow> list_all obj_ok hs \<Longrightarrow> group_handlers (Some (map_put ''hooks'' (objs_json hs) m)) = hs"
  by (simp add: group_handlers_def handlers_for_group_def map_get_put obj_ok_def dec_objs_json)

lemma remove_command_handlers:
  assumes "remove_command gs command = Inr (gs', removed)" "list_all obj_ok gs"
  shows "list_all obj_ok gs' \<and> all_handlers gs' = filter (\<lambda>h. handler_command h \<noteq> command) (all_handlers gs) \<and>
    (removed \<longleftrightarrow> contains_command gs command)"
  using assms
proof (induction gs arbitrary: gs' removed)
  case Nil
  then show ?case by (simp add: all_handlers_def contains_command_def)
next
  case (Cons g gs)
  obtain hs where hs: "handlers_for_group g = Inr hs"
    using Cons.prems(1) by (auto split: sum.splits)
  obtain m where m: "g = Some m"
    using hs by (cases g) (auto simp: handlers_for_group_def)
  obtain rest r where rec: "remove_command gs command = Inr (rest, r)"
    using Cons.prems(1) hs by (auto simp: Let_def split: sum.splits)
  note IH = Cons.IH[OF rec]
  let ?f = "filter (\<lambda>h. handler_command h \<noteq> command) hs"
  have out: "gs' = (if ?f = [] then rest else Some (map_put ''hooks'' (objs_json ?f) m) # rest)"
    "removed \<longleftrightarrow> list_ex (\<lambda>h. handler_command h = command) hs \<or> r"
    using Cons.prems(1) hs rec m by (auto simp: Let_def)
  have f_ok: "list_all obj_ok ?f" "obj_ok (Some m)"
    using handlers_ok[OF hs] Cons.prems(2) m by (auto simp: list_all_iff)
  then have put_ok: "obj_ok (Some (map_put ''hooks'' (objs_json ?f) m))"
    by (simp add: obj_ok_def)
  show ?case
    using IH Cons.prems(2) out handlers_put[OF f_ok(2,1)] put_ok hs
    by (auto simp: all_handlers_def group_handlers_def contains_command_def)
qed

lemma uninstall_events_groups:
  assumes "uninstall_events command events hooks = Inr (hooks', changed)" "map_ok hooks" "distinct events"
  shows "map_ok hooks' \<and> (\<forall>event. event \<notin> set events \<longrightarrow> map_get hooks' event = map_get hooks event) \<and>
    (\<forall>event \<in> set events. \<exists>gs gs'. groups_for_event hooks event = Inr gs \<and> groups_for_event hooks' event = Inr gs' \<and>
       all_handlers gs' = filter (\<lambda>h. handler_command h \<noteq> command) (all_handlers gs)) \<and>
    (\<not> changed \<longrightarrow> hooks' = hooks)"
  using assms
proof (induction command events hooks arbitrary: hooks' changed rule: uninstall_events.induct)
  case (2 command event events hooks)
  obtain gs where gs: "groups_for_event hooks event = Inr gs"
    using 2(3) by (auto split: sum.splits)
  obtain filtered removed where rem: "remove_command gs command = Inr (filtered, removed)"
    using 2(3) gs by (auto split: sum.splits)
  note r = remove_command_handlers[OF rem groups_ok[OF gs]]
  have ev: "event \<notin> set events" "distinct events"
    using 2(5) by simp_all
  show ?case
  proof (cases removed)
    case False
    then have "uninstall_events command events hooks = Inr (hooks', changed)"
      using 2(3) gs rem by simp
    note IH = 2(1)[OF gs rem refl False this 2(4) ev(2)]
    have "filter (\<lambda>h. handler_command h \<noteq> command) (all_handlers gs) = all_handlers gs"
      using r False by (auto simp: contains_all_handlers filter_id_conv)
    moreover have "groups_for_event hooks' event = Inr gs"
      using IH gs ev(1) by (simp add: groups_for_event_def)
    ultimately show ?thesis
      using IH gs by auto
  next
    case True
    let ?h = "if filtered = [] then map_del event hooks else map_put event (objs_json filtered) hooks"
    obtain c where rec: "uninstall_events command events ?h = Inr (hooks', c)" "changed"
      using 2(3) gs rem True by (auto split: sum.splits)
    have fo: "list_all obj_ok filtered"
      using r by blast
    have g: "groups_for_event ?h e = (if e = event then Inr filtered else groups_for_event hooks e)" for e
      by (cases "filtered = []") (simp_all add: groups_put[OF 2(4) fo] groups_del)
    have g2: "map_get ?h e = map_get hooks e" if "e \<noteq> event" for e
      using that by (simp add: map_get_put[OF 2(4)] map_get_del)
    have mh: "map_ok ?h"
      using 2(4) by simp
    have IH: "map_ok hooks' \<and> (\<forall>event. event \<notin> set events \<longrightarrow> map_get hooks' event = map_get ?h event) \<and>
      (\<forall>event \<in> set events. \<exists>gs gs'. groups_for_event ?h event = Inr gs \<and> groups_for_event hooks' event = Inr gs' \<and>
         all_handlers gs' = filter (\<lambda>h. handler_command h \<noteq> command) (all_handlers gs))"
      using 2(2)[OF gs rem refl _ rec(1) mh ev(2)] True by blast
    have "groups_for_event hooks' event = Inr filtered"
      using IH ev(1) g[of event] by (simp add: groups_for_event_def)
    moreover have "\<exists>gs gs'. groups_for_event hooks e = Inr gs \<and> groups_for_event hooks' e = Inr gs' \<and>
         all_handlers gs' = filter (\<lambda>h. handler_command h \<noteq> command) (all_handlers gs)" if "e \<in> set events" for e
    proof -
      have "groups_for_event ?h e = groups_for_event hooks e"
        using g[of e] that ev(1) by auto
      then show ?thesis
        using bspec[OF conjunct2[OF conjunct2[OF IH]] that] by simp
    qed
    moreover have "map_get hooks' e = map_get hooks e" if "e \<notin> set (event # events)" for e
      using IH that g2[of e] by simp
    ultimately show ?thesis
      using IH rec(2) r gs by auto
  qed
qed simp

end
