(* ===== verification/Cli.thy ===== *)
theory Cli
  imports Flags Plugin_Setup App_Server Hook_Config Identity Daemon
begin

text \<open>
  The commands of \<open>cmd/novascale-agent/main.go\<close> and \<open>herdr.go\<close>. A command maps the arguments and the state of the
  host, its files and the queue's database, to what it prints, its error and the new state. The environment of the
  process, random bytes, the clock, the lock, the running daemon and other processes are the parameters of
  \<open>cli_system\<close>. Directories, deadlines and failures of the disk are not modelled.
\<close>

record cli_system =
  cx_version :: string
  cx_home :: "string option"
  cx_xdg_config :: string
  cx_xdg_state :: string
  cx_executable :: "string result"
  cx_workdir :: "string result"
  cx_goos :: string
  cx_uid :: int
  cx_now :: gotime
  cx_stdin :: string
  cx_plugin_event :: string
  cx_plugin_event_json :: string
  cx_socket_path :: string
  cx_random :: "nat \<Rightarrow> 8 word list result"
  cx_new_key :: "string result"
  cx_lock :: "unit result"
  cx_daemon :: "string \<Rightarrow> string \<Rightarrow> string option"
  cx_run_daemon :: "string \<Rightarrow> string \<Rightarrow> daemon \<Rightarrow> unit result"
  cx_setup :: setup_system
  cx_later :: setup_system
  cx_client :: http_client
  cx_printable :: "int \<Rightarrow> bool"
  cx_sockets :: "string list"
  cx_disk :: disk
  cx_runner :: runner
  cx_cancelled :: "bool \<times> bool"

text \<open>What was printed, the error and the state. Failures in the middle keep what was done before them.\<close>

type_synonym outcome = "string \<times> unit result \<times> setup_state"

definition paths_of :: "cli_system \<Rightarrow> agent_paths result" where
  "paths_of cx = default_paths (cx_home cx) (cx_xdg_config cx) (cx_xdg_state cx)"

definition home_of :: "cli_system \<Rightarrow> string result" where
  "home_of cx = (case cx_home cx of None \<Rightarrow> fail ''$HOME is not defined'' | Some home \<Rightarrow> Inr home)"

definition key_at :: "string \<Rightarrow> file_system \<Rightarrow> string result" where
  "key_at path fs = load_private_key (map_option (\<lambda>f. (fi_mode f, fi_content f)) (fs path))"

definition remove_file :: "string \<Rightarrow> file_system \<Rightarrow> file_system" where
  "remove_file path fs = fs(path := None)"

text \<open>\<open>LockEnrollment\<close>: the lock file is made, readable by the owner only, and keeps its contents.\<close>

definition lock_enrollment :: "unit result \<Rightarrow> string \<Rightarrow> file_system \<Rightarrow> unit result \<times> file_system" where
  "lock_enrollment flock path fs =
     (if path = [] then (Inr (), fs)
      else (flock, write_file path 384 (case fs path of None \<Rightarrow> [] | Some f \<Rightarrow> fi_content f) fs))"

definition same_notification_endpoint :: "string \<Rightarrow> string \<Rightarrow> bool" where
  "same_notification_endpoint left right \<longleftrightarrow> trim_right (CHR ''/'') left = trim_right (CHR ''/'') right"

section \<open>\<open>init\<close>\<close>

text \<open>What \<open>init\<close> makes of a configuration that exists: enrolled already, or to be saved.\<close>

datatype init_plan = AlreadyEnrolled config | StageEnrollment config

definition plan_existing :: "string \<Rightarrow> config \<Rightarrow> init_plan result" where
  "plan_existing endpoint c =
     (if endpoint \<noteq> [] \<and> \<not> same_notification_endpoint (cf_endpoint c) endpoint
      then fail ''agent identity already uses another backend; run switch-backend explicitly''
      else if cf_registration_state c = RegistrationActive then Inr (AlreadyEnrolled c)
      else if cf_registration_state c = RegistrationNeedsSetupToken
        then Inr (StageEnrollment (c\<lparr>cf_registration_state := RegistrationPending\<rparr>))
      else Inr (StageEnrollment c))"

definition generate_identity :: "string result \<Rightarrow> string \<Rightarrow> file_system \<Rightarrow> unit result \<times> file_system" where
  "generate_identity new_key path fs =
     (case new_key of Inl e \<Rightarrow> (Inl e, fs) | Inr key \<Rightarrow> (Inr (), write_file path 384 (key_file key) fs))"

definition plan_new :: "cli_system \<Rightarrow> agent_paths \<Rightarrow> string \<Rightarrow> file_system \<Rightarrow> init_plan result \<times> file_system" where
  "plan_new cx ap endpoint fs =
     (if endpoint = [] then (fail ''--endpoint is required for a new agent identity'', fs)
      else case new_uuid (cx_random cx 0) of
          Inl e \<Rightarrow> (Inl e, fs)
        | Inr host_id \<Rightarrow>
            (case generate_identity (cx_new_key cx) (ap_key_file ap) fs of
               (Inl e, fs') \<Rightarrow> (Inl e, fs')
             | (Inr _, fs') \<Rightarrow>
                 (Inr (StageEnrollment \<lparr>cf_version = 1, cf_host_id = host_id, cf_endpoint = endpoint,
                    cf_registration_state = RegistrationPending\<rparr>), fs')))"

definition plan_init :: "cli_system \<Rightarrow> agent_paths \<Rightarrow> string \<Rightarrow> file_system \<Rightarrow> init_plan result \<times> file_system" where
  "plan_init cx ap endpoint fs =
     (case load_config (ap_config_file ap) fs of
        Inr existing \<Rightarrow>
          (case key_at (ap_key_file ap) fs of
             Inl _ \<Rightarrow> (fail ''load existing host identity'', fs)
           | Inr _ \<Rightarrow> (plan_existing endpoint existing, fs))
      | Inl e \<Rightarrow> if e \<noteq> ErrNotExist then (Inl e, fs) else plan_new cx ap endpoint fs)"

text \<open>After the plan: the configuration is saved and the legacy setup token goes.\<close>

definition finish_init :: "agent_paths \<Rightarrow> init_plan \<Rightarrow> file_system \<Rightarrow> string \<times> unit result \<times> file_system" where
  "finish_init ap plan fs =
     (case plan of
        AlreadyEnrolled c \<Rightarrow>
          (println [''NovaScale notification agent is already enrolled:'', cf_host_id c], Inr (),
           remove_file (ap_legacy_setup_token_file ap) fs)
      | StageEnrollment c \<Rightarrow>
          (case save_config (ap_config_file ap) c fs of
             Inl e \<Rightarrow> ([], Inl e, fs)
           | Inr fs' \<Rightarrow>
               (println [''NovaScale notification enrollment staged:'', cf_host_id c] @
                println [''The agent daemon will enroll this host in the background.''], Inr (),
                remove_file (ap_legacy_setup_token_file ap) fs')))"

definition init_files :: "cli_system \<Rightarrow> agent_paths \<Rightarrow> string \<Rightarrow> file_system \<Rightarrow> string \<times> unit result \<times> file_system" where
  "init_files cx ap endpoint fs =
     (case lock_enrollment (cx_lock cx) (ap_enrollment_lock ap) fs of
        (Inl e, fs1) \<Rightarrow> ([], Inl e, fs1)
      | (Inr _, fs1) \<Rightarrow>
          (case plan_init cx ap endpoint fs1 of
             (Inl e, fs2) \<Rightarrow> ([], Inl e, fs2)
           | (Inr plan, fs2) \<Rightarrow> finish_init ap plan fs2))"

definition run_init :: "cli_system \<Rightarrow> string list \<Rightarrow> setup_state \<Rightarrow> outcome" where
  "run_init cx arguments s =
     (case paths_of cx of
        Inl e \<Rightarrow> ([], Inl e, s)
      | Inr ap \<Rightarrow>
          (case parse_flags [(''endpoint'', StringFlag [])] arguments of
             Inl e \<Rightarrow> ([], Inl e, s)
           | Inr (flags, rest) \<Rightarrow>
               if rest \<noteq> [] then ([], fail ''init takes no positional arguments'', s)
               else (case init_files cx ap (string_flag ''endpoint'' flags) (ss_files s) of
                   (out, r, fs) \<Rightarrow> (out, r, s\<lparr>ss_files := fs\<rparr>))))"

section \<open>\<open>switch-backend\<close>\<close>

definition production_endpoint :: string where "production_endpoint = ''https://nova-push.galaxnet.dev''"
definition staging_endpoint :: string where "staging_endpoint = ''https://notify-staging.galaxnet.dev''"

definition chosen_endpoint :: "string \<Rightarrow> string list \<Rightarrow> string result" where
  "chosen_endpoint endpoint presets =
     (let ambiguous = fail ''choose production, staging, or --endpoint <HTTPS_URL>''
      in case presets of
           [] \<Rightarrow> if endpoint = [] then ambiguous else Inr endpoint
         | [preset] \<Rightarrow>
             if endpoint \<noteq> [] then ambiguous
             else if preset = ''production'' then Inr production_endpoint
             else if preset = ''staging'' then Inr staging_endpoint
             else fail ''backend must be production or staging''
         | _ \<Rightarrow> ambiguous)"

text \<open>Old events are bound to the old backend before the configuration changes.\<close>

definition bind_old_events :: "string \<Rightarrow> setup_state \<Rightarrow> unit result \<times> setup_state" where
  "bind_old_events endpoint s =
     (case ss_database s of
        None \<Rightarrow> (Inr (), s)
      | Some _ \<Rightarrow>
          (let q = open_database (ss_database s)
           in case configure_backend endpoint_text endpoint q of
                Inl e \<Rightarrow> (Inl e, put_database q s)
              | Inr q' \<Rightarrow> (Inr (), put_database q' s)))"

definition switch_locked :: "agent_paths \<Rightarrow> string \<Rightarrow> bool \<Rightarrow> setup_state \<Rightarrow> outcome" where
  "switch_locked ap endpoint force s =
     (case load_config (ap_config_file ap) (ss_files s) of
        Inl _ \<Rightarrow> ([], fail ''load existing agent identity'', s)
      | Inr c \<Rightarrow>
      (case key_at (ap_key_file ap) (ss_files s) of
        Inl _ \<Rightarrow> ([], fail ''load existing host key'', s)
      | Inr _ \<Rightarrow>
          (let new = c\<lparr>cf_endpoint := endpoint, cf_registration_state := RegistrationPending\<rparr>;
               same = same_notification_endpoint (cf_endpoint c) endpoint
           in case validate_config new of
                Inl e \<Rightarrow> ([], Inl e, s)
              | Inr _ \<Rightarrow>
                  if \<not> force \<and> cf_registration_state c = RegistrationActive \<and> same
                  then (println [''NovaScale notification agent already uses this backend; enrollment was left active.''], Inr (), s)
                  else (case bind_old_events (cf_endpoint c) s of
                      (Inl e, s1) \<Rightarrow> ([], Inl e, s1)
                    | (Inr _, s1) \<Rightarrow>
                        (case save_config (ap_config_file ap) new (ss_files s1) of
                           Inl e \<Rightarrow> ([], Inl e, s1)
                         | Inr fs \<Rightarrow>
                             (println [if same then ''NovaScale notification re-enrollment staged for existing host:''
                                       else ''NovaScale notification backend switch staged for existing host:'', cf_host_id c],
                              Inr (), s1\<lparr>ss_files := remove_file (ap_legacy_setup_token_file ap) fs\<rparr>))))))"

definition run_switch_backend :: "cli_system \<Rightarrow> string list \<Rightarrow> setup_state \<Rightarrow> outcome" where
  "run_switch_backend cx arguments s =
     (case paths_of cx of
        Inl e \<Rightarrow> ([], Inl e, s)
      | Inr ap \<Rightarrow>
      (case parse_flags [(''endpoint'', StringFlag []), (''force'', BoolFlag False)] arguments of
        Inl e \<Rightarrow> ([], Inl e, s)
      | Inr (flags, presets) \<Rightarrow>
      (case chosen_endpoint (string_flag ''endpoint'' flags) presets of
        Inl e \<Rightarrow> ([], Inl e, s)
      | Inr endpoint \<Rightarrow>
          (case lock_enrollment (cx_lock cx) (ap_enrollment_lock ap) (ss_files s) of
             (Inl e, fs) \<Rightarrow> ([], Inl e, s\<lparr>ss_files := fs\<rparr>)
           | (Inr _, fs) \<Rightarrow> switch_locked ap endpoint (bool_flag ''force'' flags) (s\<lparr>ss_files := fs\<rparr>)))))"

section \<open>\<open>hooks\<close> and the hooks themselves\<close>

definition run_hooks :: "cli_system \<Rightarrow> string list \<Rightarrow> setup_state \<Rightarrow> outcome" where
  "run_hooks cx arguments s =
     (case arguments of
        [] \<Rightarrow> ([], fail ''usage: novascale-agent hooks <install|uninstall|status> [options]'', s)
      | operation # options \<Rightarrow>
      (case home_of cx of
        Inl e \<Rightarrow> ([], Inl e, s)
      | Inr home \<Rightarrow>
      (case cx_executable cx of
        Inl e \<Rightarrow> ([], Inl e, s)
      | Inr executable \<Rightarrow>
      (case parse_flags [(''agent-path'', StringFlag executable),
            (''hooks-file'', StringFlag (join_path [home, ''.codex'', ''hooks.json'']))] options of
        Inl e \<Rightarrow> ([], Inl e, s)
      | Inr (flags, rest) \<Rightarrow>
          if rest \<noteq> [] then ([], fail ''unexpected hooks arguments'', s)
          else
      (case abs_path (cx_workdir cx) (string_flag ''agent-path'' flags) of
        Inl e \<Rightarrow> ([], Inl e, s)
      | Inr agent \<Rightarrow>
          (let path = string_flag ''hooks-file'' flags; command = hook_command agent
           in if operation = ''install'' then
                (case install_hooks path command (ss_files s) of
                   Inl e \<Rightarrow> ([], Inl e, s)
                 | Inr (changed, fs) \<Rightarrow>
                     (println [if changed
                        then ''NovaScale Codex hooks installed. Review and trust them with /hooks in Codex CLI.''
                        else ''NovaScale Codex hooks are already installed.''], Inr (), s\<lparr>ss_files := fs\<rparr>))
              else if operation = ''uninstall'' then
                (case uninstall_hooks path command (ss_files s) of
                   Inl e \<Rightarrow> ([], Inl e, s)
                 | Inr (changed, fs) \<Rightarrow>
                     (println [if changed then ''NovaScale Codex hooks removed.''
                        else ''NovaScale Codex hooks were not installed.''], Inr (), s\<lparr>ss_files := fs\<rparr>))
              else if operation = ''status'' then
                (case hooks_installed path command (ss_files s) of
                   Inl e \<Rightarrow> ([], Inl e, s)
                 | Inr installed \<Rightarrow>
                     if \<not> installed then ([], fail ''NovaScale Codex hooks are not installed'', s)
                     else (println [''NovaScale Codex hooks are installed for PermissionRequest and Stop.''], Inr (), s))
              else ([], fail ''usage: novascale-agent hooks <install|uninstall|status> [options]'', s)))))))"

text \<open>The event a hook sends, if it gets that far, and the socket it sends it to.\<close>

definition hook_message :: "cli_system \<Rightarrow> string list \<Rightarrow> (string \<times> hook_event) result" where
  "hook_message cx arguments =
     (case paths_of cx of
        Inl e \<Rightarrow> Inl e
      | Inr ap \<Rightarrow>
          (case parse_flags [(''socket'', StringFlag (ap_socket ap))] arguments of
             Inl e \<Rightarrow> Inl e
           | Inr (flags, _) \<Rightarrow>
               (case normalize_hook (cx_stdin cx) (cx_now cx) of
                  Inl e \<Rightarrow> Inl e
                | Inr event \<Rightarrow> Inr (string_flag ''socket'' flags, event))))"

definition herdr_hook_message :: "cli_system \<Rightarrow> string list \<Rightarrow> (string \<times> herdr_dirty_event) result" where
  "herdr_hook_message cx arguments =
     (case paths_of cx of
        Inl e \<Rightarrow> Inl e
      | Inr ap \<Rightarrow>
          (case parse_flags [(''socket'', StringFlag (ap_socket ap))] arguments of
             Inl e \<Rightarrow> Inl e
           | Inr (flags, rest) \<Rightarrow>
               if rest \<noteq> [] then fail ''unexpected arguments''
               else (case normalize_herdr_hook (sx_sha256 (cx_setup cx)) (cx_plugin_event cx) (cx_plugin_event_json cx) (cx_socket_path cx) of
                  Inl e \<Rightarrow> Inl e
                | Inr event \<Rightarrow> Inr (string_flag ''socket'' flags, event))))"

text \<open>A hook prints the neutral verdict, whatever happens; the second part is what became of the message.\<close>

definition run_hook :: "cli_system \<Rightarrow> string list \<Rightarrow> string \<times> unit result" where
  "run_hook cx arguments =
     (neutral_verdict,
      case hook_message cx arguments of
        Inl e \<Rightarrow> Inl e
      | Inr (socket, event) \<Rightarrow> send_ipc event (cx_daemon cx socket))"

definition run_herdr_hook :: "cli_system \<Rightarrow> string list \<Rightarrow> string \<times> unit result" where
  "run_herdr_hook cx arguments =
     (neutral_verdict,
      case herdr_hook_message cx arguments of
        Inl e \<Rightarrow> Inl e
      | Inr (socket, event) \<Rightarrow> send_herdr_ipc event (cx_daemon cx socket))"

section \<open>The App Server\<close>

definition update_state_text :: "update_state \<Rightarrow> string" where
  "update_state_text u = (case u of UpdateCurrent \<Rightarrow> ''current'' | UpdateRestartRequired \<Rightarrow> ''restart_required'')"

definition run_app_server :: "cli_system \<Rightarrow> string list \<Rightarrow> setup_state \<Rightarrow> outcome" where
  "run_app_server cx arguments s =
     (let bad = ([], fail ''usage: novascale-agent app-server <update-status|restart-if-updated|restart>'', s);
          traced = (\<lambda>cs. add_trace (map (\<lambda>(name, args). \<lparr>pr_binary = name, pr_arguments = args,
            pr_environment = hx_environ (sx_host (cx_setup cx))\<rparr>) cs) s)
      in (case arguments of
           [operation] \<Rightarrow>
             if operation = ''update-status'' then
               (case home_of cx of
                  Inl e \<Rightarrow> ([], Inl e, s)
                | Inr home \<Rightarrow>
                    (case inspect_update (fst (cx_cancelled cx)) (cx_disk cx) home (cx_goos cx) (cx_uid cx) (cx_now cx) (cx_runner cx) of
                       Inl e \<Rightarrow> ([], Inl e, s)
                     | Inr state \<Rightarrow> (println [update_state_text state], Inr (), s)))
             else if operation = ''restart-if-updated'' then
               (case home_of cx of
                  Inl e \<Rightarrow> ([], Inl e, s)
                | Inr home \<Rightarrow>
                    (case restart_if_updated (fst (cx_cancelled cx)) (snd (cx_cancelled cx)) (cx_disk cx) home (cx_goos cx) (cx_uid cx)
                        (cx_now cx) (cx_runner cx) of
                       (Inl e, cs) \<Rightarrow> ([], Inl e, traced cs)
                     | (Inr restarted, cs) \<Rightarrow>
                         (println [if restarted
                            then ''NovaScale Codex App Server restart requested for the updated Codex executable.''
                            else ''NovaScale Codex App Server is already using the configured Codex executable.''], Inr (), traced cs)))
             else if operation = ''restart'' then
               (case restart (fst (cx_cancelled cx)) (cx_goos cx) (cx_uid cx) (cx_runner cx) of
                  (Inl e, cs) \<Rightarrow> ([], Inl e, traced cs)
                | (Inr _, cs) \<Rightarrow> (println [''NovaScale Codex App Server restart requested.''], Inr (), traced cs))
             else bad
         | _ \<Rightarrow> bad))"

section \<open>\<open>serve\<close> and the queries\<close>

text \<open>What \<open>serve\<close> does before it hands over to \<open>Daemon.Run\<close>.\<close>

definition serve_setup :: "cli_system \<Rightarrow> string list \<Rightarrow> setup_state \<Rightarrow> (string \<times> config \<times> string \<times> queue) result \<times> setup_state" where
  "serve_setup cx arguments s =
     (case paths_of cx of
        Inl e \<Rightarrow> (Inl e, s)
      | Inr ap \<Rightarrow>
      (case parse_flags [(''socket'', StringFlag (ap_socket ap))] arguments of
        Inl e \<Rightarrow> (Inl e, s)
      | Inr (flags, _) \<Rightarrow>
      (case load_config (ap_config_file ap) (ss_files s) of
        Inl e \<Rightarrow> (Inl e, s)
      | Inr c \<Rightarrow>
      (case key_at (ap_key_file ap) (ss_files s) of
        Inl e \<Rightarrow> (Inl e, s)
      | Inr key \<Rightarrow>
          (let q = open_database (ss_database s)
           in case configure_backend endpoint_text (cf_endpoint c) q of
                Inl e \<Rightarrow> (Inl e, put_database q s)
              | Inr q' \<Rightarrow> (Inr (string_flag ''socket'' flags, c, key, q'), put_database q' s))))))"

text \<open>\<open>cx_run_daemon\<close> stands for the rest of \<open>Daemon.Run\<close>, with the socket, the key and the daemon that was started.\<close>

definition run_serve :: "cli_system \<Rightarrow> string list \<Rightarrow> setup_state \<Rightarrow> outcome" where
  "run_serve cx arguments s =
     (case serve_setup cx arguments s of
        (Inl e, s') \<Rightarrow> ([], Inl e, s')
      | (Inr (socket, c, key, q), s') \<Rightarrow>
          (case start_daemon c (cx_version cx) q of
             Inl e \<Rightarrow> ([], Inl e, s')
           | Inr d \<Rightarrow> ([], cx_run_daemon cx socket key d, put_database (dm_queue d) s')))"

definition run_daemon_version :: "cli_system \<Rightarrow> string list \<Rightarrow> setup_state \<Rightarrow> outcome" where
  "run_daemon_version cx arguments s =
     (case paths_of cx of
        Inl e \<Rightarrow> ([], Inl e, s)
      | Inr ap \<Rightarrow>
          (case parse_flags [(''socket'', StringFlag (ap_socket ap))] arguments of
             Inl e \<Rightarrow> ([], Inl e, s)
           | Inr (flags, rest) \<Rightarrow>
               if rest \<noteq> [] then ([], fail ''daemon-version takes no positional arguments'', s)
               else (case read_daemon_info (cx_daemon cx (string_flag ''socket'' flags)) of
                   Inl _ \<Rightarrow> ([], fail ''query live daemon'', s)
                 | Inr info \<Rightarrow> (println [dr_version info], Inr (), s))))"

text \<open>The commands that print one member of the configuration.\<close>

definition print_config :: "string \<Rightarrow> (config \<Rightarrow> string) \<Rightarrow> cli_system \<Rightarrow> string list \<Rightarrow> setup_state \<Rightarrow> outcome" where
  "print_config name member cx arguments s =
     (case paths_of cx of
        Inl e \<Rightarrow> ([], Inl e, s)
      | Inr ap \<Rightarrow>
          if arguments \<noteq> [] then ([], fail (name @ '' takes no arguments''), s)
          else (case load_config (ap_config_file ap) (ss_files s) of
              Inl e \<Rightarrow> ([], Inl e, s)
            | Inr c \<Rightarrow> (println [member c], Inr (), s)))"

definition run_registration_state :: "cli_system \<Rightarrow> string list \<Rightarrow> setup_state \<Rightarrow> outcome" where
  "run_registration_state = print_config ''registration-state'' cf_registration_state"

definition run_host_id :: "cli_system \<Rightarrow> string list \<Rightarrow> setup_state \<Rightarrow> outcome" where
  "run_host_id = print_config ''host-id'' cf_host_id"

definition run_endpoint :: "cli_system \<Rightarrow> string list \<Rightarrow> setup_state \<Rightarrow> outcome" where
  "run_endpoint = print_config ''endpoint'' cf_endpoint"

end
