(* ===== verification/Commands.thy ===== *)
theory Commands
  imports Cli
begin

text \<open>
  The remaining commands: \<open>status\<close> and \<open>capabilities\<close> of \<open>main.go\<close>, \<open>herdr\<close> of \<open>herdr.go\<close>, and \<open>uninstall.go\<close>, and
  the dispatch of \<open>main\<close> with its exit codes. What other processes do to files is not modelled; a socket is a path that
  exists.
\<close>

section \<open>\<open>status\<close>\<close>

definition setup_of :: "cli_system \<Rightarrow> agent_paths \<Rightarrow> setup_system" where
  "setup_of cx ap = (cx_setup cx)\<lparr>sx_daemon := cx_daemon cx (ap_socket ap)\<rparr>"

definition later_of :: "cli_system \<Rightarrow> agent_paths \<Rightarrow> setup_system" where
  "later_of cx ap = (cx_later cx)\<lparr>sx_daemon := cx_daemon cx (ap_socket ap)\<rparr>"

text \<open>The public half of an Ed25519 private key\<close>

definition public_key :: "string \<Rightarrow> string" where
  "public_key key = drop 32 key"

definition status_lines :: "cli_system \<Rightarrow> agent_paths \<Rightarrow> config \<Rightarrow> queue \<Rightarrow> file_system \<Rightarrow> string list list" where
  "status_lines cx ap c q fs =
     [[''NovaScale Agent''], [''Version:      '', cx_version cx], [''Host ID:      '', cf_host_id c],
      [''Registration: '', cf_registration_state c], [''Endpoint:     '', cf_endpoint c],
      [''Socket:       '', ap_socket ap], [''Queue:        '', format_int (int (depth q))],
      [''Public key:   '', case key_at (ap_key_file ap) fs of Inl _ \<Rightarrow> ''unavailable'' | Inr key \<Rightarrow> b64_encode (public_key key)]] @
     (case read_daemon_info (cx_daemon cx (ap_socket ap)) of
        Inl _ \<Rightarrow> [[''Live version:  unavailable'']]
      | Inr info \<Rightarrow> [[''Live version: '', dr_version info], [''Live queue:   '', format_int (dr_queue_depth info)],
                     [''Live registration:'', dr_registration_state info]]) @
     [case cx_home cx of
        None \<Rightarrow> [''App Server update: unavailable'']
      | Some home \<Rightarrow>
          (case inspect_update (fst (cx_cancelled cx)) (cx_disk cx) home (cx_goos cx) (cx_uid cx) (cx_now cx) (cx_runner cx) of
             Inl _ \<Rightarrow> [''App Server update: unavailable'']
           | Inr state \<Rightarrow> [''App Server update:'', update_state_text state])]"

definition run_status :: "cli_system \<Rightarrow> string list \<Rightarrow> setup_state \<Rightarrow> outcome" where
  "run_status cx arguments s =
     (case paths_of cx of
        Inl e \<Rightarrow> ([], Inl e, s)
      | Inr ap \<Rightarrow>
          if arguments \<noteq> [] then ([], fail ''status takes no arguments'', s)
          else (case load_config (ap_config_file ap) (ss_files s) of
              Inl e \<Rightarrow> ([], Inl e, s)
            | Inr c \<Rightarrow>
                (let q = open_database (ss_database s)
                 in (concat (map println (status_lines cx ap c q (ss_files s))), Inr (), put_database q s))))"

definition capabilities_json :: "string \<Rightarrow> json" where
  "capabilities_json version = JObj
     [(''capabilities'', JArr (map JStr [''codex-v1'', HerdrCapability, HerdrBindingsCapability, HerdrHostCaptureCapability])),
      (''version'', JStr version)]"

section \<open>\<open>herdr\<close>\<close>

text \<open>The session a test notification names: the given socket's binding, the latest one, or a new identifier.\<close>

definition test_session :: "cli_system \<Rightarrow> string \<Rightarrow> queue \<Rightarrow> string result" where
  "test_session cx socket q =
     (if socket \<noteq> [] then
        (case get_binding (herdr_binding_key (sx_sha256 (cx_setup cx)) socket) q of
           Inl _ \<Rightarrow> fail ''Herdr session binding is unavailable''
         | Inr b \<Rightarrow> if hb_enabled b then Inr (hb_session_id b) else fail ''Herdr session binding is unavailable'')
      else case herdr_bindings q of
          b # _ \<Rightarrow> Inr (hb_session_id b)
        | [] \<Rightarrow> new_uuid (cx_random cx 0))"

definition test_event :: "string \<Rightarrow> string \<Rightarrow> gotime \<Rightarrow> host_event" where
  "test_event session installation now =
     \<lparr>ev_schema_version = HerdrVersion, ev_event_type = EventTestNotification, ev_thread_id = [], ev_turn_id = [],
      ev_request_id = [], ev_occurred_at = utc now, ev_source = SourceHerdr,
      ev_target = Some \<lparr>ht_session_id = session, ht_pane_id = [], ht_codex_thread_id = [], ht_test_installation_id = installation\<rparr>,
      ev_herdr_metadata = None\<rparr>"

definition queue_test :: "cli_system \<Rightarrow> string \<Rightarrow> string \<Rightarrow> queue \<Rightarrow> string \<times> unit result \<times> queue" where
  "queue_test cx socket installation q =
     (if \<not> capture_on q then ([], fail ''Herdr notifications are not configured'', q)
      else case test_session cx socket q of
          Inl e \<Rightarrow> ([], Inl e, q)
        | Inr session \<Rightarrow>
            (case new_uuid (cx_random cx 1) of
               Inl e \<Rightarrow> ([], Inl e, q)
             | Inr test_id \<Rightarrow>
                 (case marshal_host_event (test_event session installation (cx_now cx)) of
                    Inl e \<Rightarrow> ([], Inl e, q)
                  | Inr body \<Rightarrow>
                      (encode_line (JObj [(''eventId'', JStr test_id), (''status'', JStr ''queued'')]), Inr (),
                       enqueue_event test_id body (cx_now cx) q))))"

definition run_herdr_test :: "cli_system \<Rightarrow> agent_paths \<Rightarrow> string \<Rightarrow> string \<Rightarrow> setup_state \<Rightarrow> outcome" where
  "run_herdr_test cx ap socket installation s =
     (if \<not> valid_id installation then ([], fail ''test recipient installation is required'', s)
      else case read_daemon_info (cx_daemon cx (ap_socket ap)) of
          Inl _ \<Rightarrow> ([], fail ''notification daemon is unavailable'', s)
        | Inr info \<Rightarrow>
            if HerdrCapability \<notin> set (dr_capabilities info) then ([], fail ''notification daemon requires an upgrade'', s)
            else (case queue_test cx socket installation (open_database (ss_database s)) of
                (out, r, q) \<Rightarrow> (out, r, put_database q s)))"

text \<open>A result that is printed as JSON\<close>

definition print_json :: "('a \<Rightarrow> json) \<Rightarrow> 'a result \<times> setup_state \<Rightarrow> outcome" where
  "print_json f = (\<lambda>(r, s). case r of Inl e \<Rightarrow> ([], Inl e, s) | Inr x \<Rightarrow> (encode_line (f x), Inr (), s))"

definition herdr_flags :: "string \<Rightarrow> flag_set" where
  "herdr_flags binary =
     [(''session'', StringFlag []), (''socket'', StringFlag []), (''json'', BoolFlag False),
      (''agent-path'', StringFlag binary), (''installation'', StringFlag [])]"

definition herdr_operation :: "cli_system \<Rightarrow> agent_paths \<Rightarrow> string \<Rightarrow> string \<Rightarrow> flag_set \<Rightarrow> setup_state \<Rightarrow> outcome" where
  "herdr_operation cx ap operation socket flags s =
     (if operation = ''bindings'' then
        print_json binding_routes_json (read_herdr_binding_routes (sx_env (cx_setup cx)) ap s)
      else if operation = ''test'' then run_herdr_test cx ap socket (string_flag ''installation'' flags) s
      else if operation = ''status'' then
        print_json herdr_status_json (inspect_herdr (setup_of cx ap) ap socket (cx_version cx) s)
      else if operation = ''install'' then
        (case abs_path (cx_workdir cx) (string_flag ''agent-path'' flags) of
           Inl e \<Rightarrow> ([], Inl e, s)
         | Inr path \<Rightarrow>
             print_json herdr_status_json
               (install_herdr (setup_of cx ap) (later_of cx ap) (cx_client cx) (cx_printable cx) (cx_sockets cx) ap socket path
                  (cx_version cx) s))
      else if operation = ''uninstall'' then
        print_json (\<lambda>_. JObj [(''status'', JStr ''removed'')]) (uninstall_herdr (sx_host (cx_setup cx)) s)
      else ([], fail ''unknown Herdr operation'', s))"

definition run_herdr :: "cli_system \<Rightarrow> string list \<Rightarrow> setup_state \<Rightarrow> outcome" where
  "run_herdr cx arguments s =
     (case arguments of
        [] \<Rightarrow> ([], fail ''usage: novascale-agent herdr <status|install|uninstall|test|bindings> --json'', s)
      | operation # options \<Rightarrow>
      (case paths_of cx of
        Inl e \<Rightarrow> ([], Inl e, s)
      | Inr ap \<Rightarrow>
      (case cx_executable cx of
        Inl e \<Rightarrow> ([], Inl e, s)
      | Inr binary \<Rightarrow>
      (case parse_flags (herdr_flags binary) options of
        Inl e \<Rightarrow> ([], Inl e, s)
      | Inr (flags, rest) \<Rightarrow>
          if rest \<noteq> [] then ([], fail ''unexpected Herdr arguments'', s)
          else (case (if string_flag ''session'' flags \<noteq> [] \<or> string_flag ''socket'' flags \<noteq> []
                      then resolve_herdr_socket (sx_env (cx_setup cx)) (string_flag ''session'' flags) (string_flag ''socket'' flags)
                      else Inr []) of
              Inl e \<Rightarrow> ([], Inl e, s)
            | Inr socket \<Rightarrow> herdr_operation cx ap operation socket flags s)))))"

section \<open>\<open>uninstall\<close>\<close>

text \<open>
  The surroundings of an uninstallation: \<open>lstat\<close> of a directory (whether it is a symbolic link), the service manager
  and the daemon's socket, whose answer depends on the commands that have run.
\<close>

record uninstall_options =
  uo_paths :: agent_paths
  uo_home :: string
  uo_binary :: string
  uo_hooks :: string
  uo_platform :: string
  uo_purge :: bool

record uninstall_system =
  ux_uid :: int
  ux_host :: host_system
  ux_lstat :: "string \<Rightarrow> bool result"
  ux_daemon :: "process list \<Rightarrow> string \<Rightarrow> string option"

definition service_process :: "uninstall_system \<Rightarrow> string \<Rightarrow> string list \<Rightarrow> process" where
  "service_process ux name arguments =
     \<lparr>pr_binary = name, pr_arguments = arguments, pr_environment = hx_environ (ux_host ux)\<rparr>"

text \<open>Combined output and success of a command; one that cannot be started fails without output.\<close>

definition service_run :: "uninstall_system \<Rightarrow> process \<Rightarrow> string \<times> bool" where
  "service_run ux p = (case hx_run (ux_host ux) p of None \<Rightarrow> ([], False) | Some r \<Rightarrow> r)"

definition running_notification_daemon :: "uninstall_system \<Rightarrow> string \<Rightarrow> setup_state \<Rightarrow> bool" where
  "running_notification_daemon ux socket s \<longleftrightarrow>
     ss_files s socket \<noteq> None \<and> is_ok (read_daemon_info (ux_daemon ux (ss_trace s)))"

definition remove_path :: "string \<Rightarrow> setup_state \<Rightarrow> setup_state" where
  "remove_path path s = s\<lparr>ss_files := remove_file path (ss_files s)\<rparr>"

definition agent_service :: string where "agent_service = ''novascale-agent.service''"

definition service_file :: "uninstall_options \<Rightarrow> string" where
  "service_file uo =
     (if uo_platform uo = ''darwin'' then join_path [uo_home uo, ''Library'', ''LaunchAgents'', ''dev.galaxnet.novascale.agent.plist'']
      else join_path [dir_path (ap_config_dir (uo_paths uo)), ''systemd'', ''user'', agent_service])"

text \<open>Asking for the service and stopping it, if the service manager knows it.\<close>

definition service_commands :: "uninstall_system \<Rightarrow> uninstall_options \<Rightarrow> process \<times> process" where
  "service_commands ux uo =
     (if uo_platform uo = ''darwin'' then
        (let label = ''gui/'' @ format_int (ux_uid ux) @ ''/dev.galaxnet.novascale.agent''
         in (service_process ux ''launchctl'' [''print'', label], service_process ux ''launchctl'' [''bootout'', label]))
      else (service_process ux ''systemctl'' [''--user'', ''show'', ''--property=LoadState'', ''--value'', agent_service],
            service_process ux ''systemctl'' [''--user'', ''disable'', ''--now'', agent_service]))"

definition service_known :: "uninstall_options \<Rightarrow> string \<times> bool \<Rightarrow> bool" where
  "service_known uo answer \<longleftrightarrow>
     snd answer \<and> (uo_platform uo = ''darwin'' \<or> App_Server.trim_space (fst answer) \<notin> {''not-found'', []})"

definition stop_command :: "uninstall_system \<Rightarrow> uninstall_options \<Rightarrow> setup_state \<Rightarrow> unit result \<times> setup_state" where
  "stop_command ux uo s =
     (let (ask, stop) = service_commands ux uo; s1 = add_trace [ask] s
      in if service_known uo (service_run ux ask) then
           (let s2 = add_trace [stop] s1
            in if snd (service_run ux stop) then (Inr (), s2)
               else (fail (if uo_platform uo = ''darwin'' then ''could not stop the notification launch agent''
                           else ''could not stop and disable the notification service''), s2))
         else if running_notification_daemon ux (ap_socket (uo_paths uo)) s1
           then (fail ''notification daemon is still running; stop it before uninstalling'', s1)
         else (Inr (), s1))"

definition stop_notification_service :: "uninstall_system \<Rightarrow> uninstall_options \<Rightarrow> setup_state \<Rightarrow> unit result \<times> setup_state" where
  "stop_notification_service ux uo s =
     (case stop_command ux uo s of
        (Inl e, s1) \<Rightarrow> (Inl e, s1)
      | (Inr _, s1) \<Rightarrow>
          if running_notification_daemon ux (ap_socket (uo_paths uo)) s1 then (fail ''notification daemon has not stopped'', s1)
          else (let s2 = remove_path (service_file uo) s1
                in (Inr (), if uo_platform uo = ''linux''
                            then add_trace [service_process ux ''systemctl'' [''--user'', ''daemon-reload'']] s2 else s2)))"

text \<open>Directories that must not be links, and are the agent's own by name.\<close>

fun check_directories :: "uninstall_system \<Rightarrow> string list \<Rightarrow> unit result" where
  "check_directories ux [] = Inr ()"
| "check_directories ux (directory # directories) =
     (if base_path directory \<noteq> ''novascale-agent'' \<or> \<not> is_abs directory then fail ''unexpected notification state directory''
      else case ux_lstat ux directory of
          Inr True \<Rightarrow> fail ''notification state directory is a symbolic link''
        | Inr False \<Rightarrow> check_directories ux directories
        | Inl e \<Rightarrow> if e = ErrNotExist then check_directories ux directories else Inl e)"

text \<open>\<open>os.RemoveAll\<close>; the database is a file as well.\<close>

definition inside :: "string \<Rightarrow> string \<Rightarrow> bool" where
  "inside dir p \<longleftrightarrow> p = dir \<or> has_prefix p (dir @ ''/'')"

definition remove_all :: "agent_paths \<Rightarrow> string \<Rightarrow> setup_state \<Rightarrow> setup_state" where
  "remove_all ap dir s = s
     \<lparr>ss_files := (\<lambda>p. if inside dir p then None else ss_files s p),
      ss_database := (if inside dir (ap_database ap) then None else ss_database s)\<rparr>"

definition plugin_dir :: "agent_paths \<Rightarrow> string" where
  "plugin_dir ap = join_path [ap_config_dir ap, ''herdr-plugin'']"

definition plugin_manifest :: "agent_paths \<Rightarrow> string" where
  "plugin_manifest ap = join_path [ap_config_dir ap, ''herdr-plugin'', ''herdr-plugin.toml'']"

definition remove_plugin :: "uninstall_system \<Rightarrow> agent_paths \<Rightarrow> setup_state \<Rightarrow> unit result \<times> setup_state" where
  "remove_plugin ux ap s =
     (if ss_files s (plugin_manifest ap) = None then (Inr (), s)
      else case uninstall_herdr (ux_host ux) s of
          (Inl e, s') \<Rightarrow> (fail ''remove notification Herdr plugin before deleting the agent'', s')
        | (Inr _, s') \<Rightarrow> (Inr (), s'))"

definition clear_database :: "setup_state \<Rightarrow> setup_state" where
  "clear_database s =
     (case ss_database s of
        None \<Rightarrow> s
      | Some _ \<Rightarrow> put_database (clear_notification_capture (open_database (ss_database s))) s)"

text \<open>The removals at the end; nothing fails from here on.\<close>

definition remove_agent :: "uninstall_options \<Rightarrow> setup_state \<Rightarrow> setup_state" where
  "remove_agent uo s =
     (let ap = uo_paths uo;
          s1 = remove_path (ap_socket ap) (remove_all ap (plugin_dir ap) (clear_database s));
          s2 = (if uo_purge uo then remove_all ap (ap_config_dir ap) (remove_all ap (ap_state_dir ap) s1) else s1)
      in remove_path (uo_binary uo) s2)"

definition uninstall_agent :: "uninstall_system \<Rightarrow> uninstall_options \<Rightarrow> setup_state \<Rightarrow> unit result \<times> setup_state" where
  "uninstall_agent ux uo s =
     (if uo_platform uo \<notin> {''darwin'', ''linux''} then (fail ''agent uninstall supports macOS and Linux'', s)
      else
      (case check_directories ux [ap_config_dir (uo_paths uo), ap_state_dir (uo_paths uo)] of
        Inl e \<Rightarrow> (Inl e, s)
      | Inr _ \<Rightarrow>
      (case stop_notification_service ux uo s of
        (Inl e, s1) \<Rightarrow> (Inl e, s1)
      | (Inr _, s1) \<Rightarrow>
      (case uninstall_hooks (uo_hooks uo) (hook_command (uo_binary uo)) (ss_files s1) of
        Inl e \<Rightarrow> (Inl e, s1)
      | Inr (_, fs) \<Rightarrow>
      (case remove_plugin ux (uo_paths uo) (s1\<lparr>ss_files := fs\<rparr>) of
        (Inl e, s2) \<Rightarrow> (Inl e, s2)
      | (Inr _, s2) \<Rightarrow> (Inr (), remove_agent uo s2))))))"

text \<open>The command with its flags: the plan is printed, and carried out unless it is a dry run.\<close>

definition uninstall_plan :: "bool \<Rightarrow> string" where
  "uninstall_plan purge =
     println [''Remove the NovaScale notification service, its Codex hooks, Herdr plugin, and agent executable.''] @
     println [''The Codex App Server service and unrelated hooks are retained. Backend records are not deleted.''] @
     println [if purge then ''Delete the notification host ID, signing key, configuration, queue, and local state.''
              else ''Keep the notification host ID, signing key, configuration, and saved session identities for reinstall.'']"

definition run_uninstall :: "cli_system \<Rightarrow> (string \<Rightarrow> bool result) \<Rightarrow> (process list \<Rightarrow> string \<Rightarrow> string option) \<Rightarrow> string list \<Rightarrow>
    setup_state \<Rightarrow> outcome" where
  "run_uninstall cx lstat daemon arguments s =
     (case paths_of cx of
        Inl e \<Rightarrow> ([], Inl e, s)
      | Inr ap \<Rightarrow>
      (case home_of cx of
        Inl e \<Rightarrow> ([], Inl e, s)
      | Inr home \<Rightarrow>
      (case cx_executable cx of
        Inl e \<Rightarrow> ([], Inl e, s)
      | Inr binary \<Rightarrow>
      (case parse_flags [(''purge'', BoolFlag False), (''dry-run'', BoolFlag False),
            (''hooks-file'', StringFlag (join_path [home, ''.codex'', ''hooks.json'']))] arguments of
        Inl e \<Rightarrow> ([], Inl e, s)
      | Inr (flags, rest) \<Rightarrow>
          if rest \<noteq> [] then ([], fail ''uninstall takes no positional arguments'', s)
          else
            (let plan = uninstall_plan (bool_flag ''purge'' flags)
             in if bool_flag ''dry-run'' flags then (plan, Inr (), s)
                else (case uninstall_agent
                    \<lparr>ux_uid = cx_uid cx, ux_host = sx_host (cx_setup cx), ux_lstat = lstat, ux_daemon = daemon\<rparr>
                    \<lparr>uo_paths = ap, uo_home = home, uo_binary = binary, uo_hooks = string_flag ''hooks-file'' flags,
                     uo_platform = cx_goos cx, uo_purge = bool_flag ''purge'' flags\<rparr> s of
                      (Inl e, s') \<Rightarrow> (plan, Inl e, s')
                    | (Inr _, s') \<Rightarrow> (plan @ println [''NovaScale notification agent uninstalled.''], Inr (), s')))))))"

section \<open>\<open>main\<close>\<close>

text \<open>What is printed, the exit code and the state. An error ends with 1, a panic and wrong usage with 2.\<close>

definition exit_code :: "unit result \<Rightarrow> int" where
  "exit_code r = (case r of Inr _ \<Rightarrow> 0 | Inl e \<Rightarrow> if e = ErrMsg ''panic: assignment to entry in nil map'' then 2 else 1)"

definition main_command ::
  "cli_system \<Rightarrow> (string \<Rightarrow> bool result) \<Rightarrow> (process list \<Rightarrow> string \<Rightarrow> string option) \<Rightarrow> string list \<Rightarrow> setup_state \<Rightarrow>
     string \<times> int \<times> setup_state" where
  "main_command cx lstat daemon arguments s =
     (case arguments of
        [] \<Rightarrow> ([], 2, s)
      | command # rest \<Rightarrow>
          if command = ''hook'' then (fst (run_hook cx rest), 0, s)
          else if command = ''herdr-hook'' then (fst (run_herdr_hook cx rest), 0, s)
          else if command \<in> {''version'', ''--version''} then (println [cx_version cx], 0, s)
          else
            (let run = (if command = ''herdr'' then Some (run_herdr cx rest)
                 else if command = ''capabilities'' then Some (\<lambda>s. (encode_line (capabilities_json (cx_version cx)), Inr (), s))
                 else if command = ''init'' then Some (run_init cx rest)
                 else if command = ''uninstall'' then Some (run_uninstall cx lstat daemon rest)
                 else if command = ''switch-backend'' then Some (run_switch_backend cx rest)
                 else if command = ''serve'' then Some (run_serve cx rest)
                 else if command = ''status'' then Some (run_status cx rest)
                 else if command = ''registration-state'' then Some (run_registration_state cx rest)
                 else if command = ''host-id'' then Some (run_host_id cx rest)
                 else if command = ''endpoint'' then Some (run_endpoint cx rest)
                 else if command = ''daemon-version'' then Some (run_daemon_version cx rest)
                 else if command = ''app-server'' then Some (run_app_server cx rest)
                 else if command = ''hooks'' then Some (run_hooks cx rest)
                 else None)
             in case run of
                  None \<Rightarrow> ([], 2, s)
                | Some f \<Rightarrow> (case f s of (out, r, s') \<Rightarrow> (out, exit_code r, s'))))"

end
