(* ===== verification/Agent_Paths.thy ===== *)
theory Agent_Paths
  imports Config
begin

text \<open>
  The paths of \<open>DefaultPaths\<close> are the agent's directories with a name behind them, so no two of them coincide in
  one directory. \<open>filepath.Join\<close> is computed here as plain concatenation.
\<close>

definition clean_dir :: "string \<Rightarrow> bool" where
  "clean_dir d \<longleftrightarrow> clean_path d = d \<and> clean_parts d \<noteq> []"

lemma split_child: "split_on (CHR ''/'') (p @ CHR ''/'' # n) = split_on (CHR ''/'') p @ split_on (CHR ''/'') n"
proof (induction p)
  case (Cons c p)
  obtain w ws where "split_on (CHR ''/'') p = w # ws"
    by (metis list.exhaust split_on_nonempty)
  with Cons show ?case by auto
qed simp

lemma is_abs_child: "p \<noteq> [] \<Longrightarrow> is_abs (p @ s) = is_abs p"
  by (cases p) (auto simp: is_abs_def has_prefix_def)

lemma clean_parts_child:
  assumes "p \<noteq> []" "name_ok n"
  shows "clean_parts (p @ CHR ''/'' # n) = clean_parts p @ [n]"
proof -
  have "split_on (CHR ''/'') n = [n]"
    using assms(2) by (simp add: name_ok_def split_on_word)
  moreover have "clean_step r st n = n # st" for r st
    using assms(2) by (auto simp: name_ok_def)
  ultimately show ?thesis
    using assms(1) by (simp add: clean_parts_def split_child is_abs_child del: clean_step.simps)
qed

lemma join_with_snoc: "ws \<noteq> [] \<Longrightarrow> join_with sep (ws @ [n]) = join_with sep ws @ sep @ n"
  by (induction sep ws rule: join_with.induct) auto

lemma path_text_snoc: "ws \<noteq> [] \<Longrightarrow> path_text r (ws @ [n]) = path_text r ws @ CHR ''/'' # n"
  by (simp add: path_text_def join_with_snoc)

lemma clean_dir_nonempty: "clean_dir d \<Longrightarrow> d \<noteq> []"
proof
  assume "clean_dir d" "d = []"
  then show False
    by (simp add: clean_dir_def clean_parts_def)
qed

lemma clean_child:
  assumes "clean_dir d" "name_ok n"
  shows "clean_path (d @ CHR ''/'' # n) = d @ CHR ''/'' # n" "clean_dir (d @ CHR ''/'' # n)"
proof -
  note ne = clean_dir_nonempty[OF assms(1)]
  have "clean_path (d @ CHR ''/'' # n) = path_text (is_abs d) (clean_parts d @ [n])"
    using ne assms(2) by (simp add: clean_path_def clean_parts_child is_abs_child)
  also have "\<dots> = clean_path d @ CHR ''/'' # n"
    using assms(1) by (simp add: path_text_snoc clean_dir_def clean_path_def)
  finally show "clean_path (d @ CHR ''/'' # n) = d @ CHR ''/'' # n"
    using assms(1) by (simp add: clean_dir_def)
  then show "clean_dir (d @ CHR ''/'' # n)"
    using ne assms(2) by (simp add: clean_dir_def clean_parts_child)
qed

lemma join_child:
  assumes "clean_dir d" "name_ok n"
  shows "join_path [d, n] = d @ CHR ''/'' # n"
  using clean_child(1)[OF assms] clean_dir_nonempty[OF assms(1)] assms(2) by (simp add: join_path_def name_ok_def)

lemma join_children:
  assumes "clean_dir d" "name_ok n" "name_ok m"
  shows "join_path [d, n, m] = d @ CHR ''/'' # n @ CHR ''/'' # m"
  using clean_child(1)[OF clean_child(2)[OF assms(1,2)] assms(3)] clean_dir_nonempty[OF assms(1)] assms(2,3)
  by (simp add: join_path_def name_ok_def)

lemma clean_dir_join: "name_ok n \<Longrightarrow> clean_dir (join_path [b, n])"
  by (cases "b = []") (simp_all add: join_path_def clean_dir_def clean_parts_child name_ok_def
    clean_parts_def[of n] split_on_word split: list.splits)

definition agent_names :: "string list" where
  "agent_names = [''config.json'', ''host-key'', ''pending-setup-token'', ''enrollment.lock'', ''agent.db'', ''agent.sock'',
     ''herdr-plugin'', ''herdr-plugin.toml'', ''novascale-agent'']"

lemma agent_names_ok: "list_all name_ok agent_names"
  by code_simp

lemma default_paths_names:
  assumes "default_paths home xc xs = Inr ap"
  shows "clean_dir (ap_config_dir ap)" "clean_dir (ap_state_dir ap)"
    "ap_config_file ap = ap_config_dir ap @ ''/config.json''"
    "ap_key_file ap = ap_config_dir ap @ ''/host-key''"
    "ap_legacy_setup_token_file ap = ap_config_dir ap @ ''/pending-setup-token''"
    "ap_enrollment_lock ap = ap_config_dir ap @ ''/enrollment.lock''"
    "ap_database ap = ap_state_dir ap @ ''/agent.db''"
    "ap_socket ap = ap_state_dir ap @ ''/agent.sock''"
    "join_path [ap_config_dir ap, ''herdr-plugin''] = ap_config_dir ap @ ''/herdr-plugin''"
    "join_path [ap_config_dir ap, ''herdr-plugin'', ''herdr-plugin.toml''] = ap_config_dir ap @ ''/herdr-plugin/herdr-plugin.toml''"
proof -
  have n: "name_ok n" if "n \<in> set agent_names" for n
    using agent_names_ok that by (simp add: list_all_iff)
  obtain h where "home = Some h"
    using assms by (auto simp: default_paths_def split: option.splits)
  then obtain cb sb where ap: "ap_config_dir ap = join_path [cb, ''novascale-agent'']" "ap_state_dir ap = join_path [sb, ''novascale-agent'']"
    "ap_config_file ap = join_path [ap_config_dir ap, ''config.json'']" "ap_key_file ap = join_path [ap_config_dir ap, ''host-key'']"
    "ap_legacy_setup_token_file ap = join_path [ap_config_dir ap, ''pending-setup-token'']"
    "ap_enrollment_lock ap = join_path [ap_config_dir ap, ''enrollment.lock'']"
    "ap_database ap = join_path [ap_state_dir ap, ''agent.db'']" "ap_socket ap = join_path [ap_state_dir ap, ''agent.sock'']"
    using assms by (auto simp: default_paths_def Let_def)
  show c: "clean_dir (ap_config_dir ap)" and s: "clean_dir (ap_state_dir ap)"
    unfolding ap(1,2) by (auto intro!: clean_dir_join n simp: agent_names_def)
  note simps = join_child[OF c n] join_child[OF s n] join_children[OF c n n]
  show "ap_config_file ap = ap_config_dir ap @ ''/config.json''" "ap_key_file ap = ap_config_dir ap @ ''/host-key''"
    "ap_legacy_setup_token_file ap = ap_config_dir ap @ ''/pending-setup-token''"
    "ap_enrollment_lock ap = ap_config_dir ap @ ''/enrollment.lock''"
    "ap_database ap = ap_state_dir ap @ ''/agent.db''" "ap_socket ap = ap_state_dir ap @ ''/agent.sock''"
    unfolding ap(3-) by (simp_all add: simps agent_names_def)
  show "join_path [ap_config_dir ap, ''herdr-plugin''] = ap_config_dir ap @ ''/herdr-plugin''"
    "join_path [ap_config_dir ap, ''herdr-plugin'', ''herdr-plugin.toml''] = ap_config_dir ap @ ''/herdr-plugin/herdr-plugin.toml''"
    by (simp_all add: simps agent_names_def)
qed

end
