(* ===== verification/Enrollment.thy ===== *)
theory Enrollment
  imports Register
begin

text \<open>
  \<open>internal/agent/enrollment.go\<close>: the daemon's enrollment loop as a state machine over the daemon, the
  file system (configuration file and legacy setup token) and the loop's own delays. What the surroundings
  do in one iteration (lock, clock, backend, failing writes) is the iteration's input; the file system may
  change between iterations but not within one, which is what the enrollment lock is for.
\<close>

datatype enrollment_result = EnrollmentWaiting | EnrollmentSucceeded | EnrollmentRetry

text \<open>The parts of \<open>Daemon\<close> the loop reads but never writes; durations are in nanoseconds.\<close>

record enrollment_env =
  en_config_path :: string
  en_legacy_path :: string
  en_signer :: signer
  en_poll :: int
  en_min :: int
  en_max :: int

text \<open>\<open>setDefaults\<close>\<close>

definition set_defaults :: "enrollment_env \<Rightarrow> enrollment_env" where
  "set_defaults en = en
     \<lparr>en_poll := (if en_poll en \<le> 0 then 5 * second else en_poll en),
      en_min := (if en_min en \<le> 0 then second else en_min en),
      en_max := (if en_max en \<le> 0 then 60 * second else en_max en)\<rparr>"

record enrollment_input =
  ei_lock :: bool
  ei_writable :: bool
  ei_removable :: bool
  ei_now :: gotime
  ei_client :: http_client

record host_state =
  hs_daemon :: daemon
  hs_files :: file_system

section \<open>The configuration\<close>

definition refresh_config :: "enrollment_env \<Rightarrow> host_state \<Rightarrow> host_state result" where
  "refresh_config en s =
     (if en_config_path en = [] then Inr s
      else case load_config (en_config_path en) (hs_files s) of
          Inl e \<Rightarrow> Inl e
        | Inr c \<Rightarrow>
            (let d = hs_daemon s
             in if cf_host_id (dm_config d) \<noteq> [] \<and> cf_host_id c \<noteq> cf_host_id (dm_config d)
                then fail ''agent host identity changed while daemon was running''
                else case configure_backend endpoint_text (cf_endpoint c) (dm_queue d) of
                    Inl e \<Rightarrow> Inl e
                  | Inr q \<Rightarrow> Inr (s\<lparr>hs_daemon := d\<lparr>dm_config := c, dm_queue := q\<rparr>\<rparr>)))"

definition save_registration_state :: "enrollment_env \<Rightarrow> bool \<Rightarrow> string \<Rightarrow> host_state \<Rightarrow> host_state result" where
  "save_registration_state en writable state s =
     (let d = hs_daemon s; c = (dm_config d)\<lparr>cf_registration_state := state\<rparr>
      in if en_config_path en = [] then Inr (s\<lparr>hs_daemon := d\<lparr>dm_config := c\<rparr>\<rparr>)
         else if \<not> writable then fail ''write failed''
         else case save_config (en_config_path en) c (hs_files s) of
             Inl e \<Rightarrow> Inl e
           | Inr fs \<Rightarrow> Inr \<lparr>hs_daemon = d\<lparr>dm_config := c\<rparr>, hs_files = fs\<rparr>)"

definition discard_legacy_setup_token :: "enrollment_env \<Rightarrow> bool \<Rightarrow> host_state \<Rightarrow> host_state" where
  "discard_legacy_setup_token en removable s =
     (if en_legacy_path en = [] \<or> \<not> removable then s
      else s\<lparr>hs_files := (hs_files s)(en_legacy_path en := None)\<rparr>)"

definition discard_for_state :: "enrollment_env \<Rightarrow> enrollment_input \<Rightarrow> string \<Rightarrow> host_state \<Rightarrow> host_state" where
  "discard_for_state en i expected s =
     (if \<not> ei_lock i then s
      else case refresh_config en s of
          Inl _ \<Rightarrow> s
        | Inr s' \<Rightarrow>
            if cf_registration_state (dm_config (hs_daemon s')) = expected
            then discard_legacy_setup_token en (ei_removable i) s' else s')"

section \<open>One attempt\<close>

definition attempt_enrollment ::
  "enrollment_env \<Rightarrow> enrollment_input \<Rightarrow> host_state \<Rightarrow> enrollment_result \<times> host_state \<times> http_request list" where
  "attempt_enrollment en i s0 =
     (if \<not> ei_lock i then (EnrollmentRetry, s0, [])
      else case refresh_config en s0 of
          Inl _ \<Rightarrow> (EnrollmentRetry, s0, [])
        | Inr s \<Rightarrow>
            (let c = dm_config (hs_daemon s); version = dm_version (hs_daemon s)
             in case request_host_enrollment_token (ei_client i) (en_signer en) (cf_endpoint c) (cf_host_id c) version (ei_now i) of
                  (Inl _, qs) \<Rightarrow> (EnrollmentRetry, s, qs)
                | (Inr token, qs) \<Rightarrow>
                    (case register_host (ei_client i) (en_signer en) (cf_endpoint c) token (cf_host_id c) version (ei_now i) of
                       (Inr _, rs) \<Rightarrow>
                         (case save_registration_state en (ei_writable i) RegistrationActive s of
                            Inl _ \<Rightarrow> (EnrollmentRetry, s, qs @ rs)
                          | Inr s1 \<Rightarrow>
                              (let s2 = discard_legacy_setup_token en (ei_removable i) s1
                               in (EnrollmentSucceeded, s2\<lparr>hs_daemon := (hs_daemon s2)\<lparr>dm_wake := True\<rparr>\<rparr>, qs @ rs)))
                     | (Inl e, rs) \<Rightarrow>
                         if e = ErrStatus 409 then
                           (case save_registration_state en (ei_writable i) RegistrationIdentityConflict s of
                              Inl _ \<Rightarrow> (EnrollmentRetry, s, qs @ rs)
                            | Inr s1 \<Rightarrow> (EnrollmentWaiting, discard_legacy_setup_token en (ei_removable i) s1, qs @ rs))
                         else (EnrollmentRetry, s, qs @ rs))))"

section \<open>The loop\<close>

record loop_state =
  lp_retry_delay :: int
  lp_delay :: int
  lp_refresh :: bool

definition initial_loop :: "enrollment_env \<Rightarrow> loop_state" where
  "initial_loop en = \<lparr>lp_retry_delay = en_min en, lp_delay = 0, lp_refresh = True\<rparr>"

definition rest_loop :: "enrollment_env \<Rightarrow> loop_state \<Rightarrow> loop_state" where
  "rest_loop en l = l\<lparr>lp_retry_delay := en_min en, lp_delay := en_poll en\<rparr>"

definition retry_loop :: "enrollment_env \<Rightarrow> loop_state \<Rightarrow> loop_state" where
  "retry_loop en l = l\<lparr>lp_delay := lp_retry_delay l,
     lp_retry_delay := (if en_max en < lp_retry_delay l * 2 then en_max en else lp_retry_delay l * 2)\<rparr>"

text \<open>The body of the loop after its wait, by the registration state of the refreshed configuration.\<close>

definition enrollment_iteration ::
  "enrollment_env \<Rightarrow> enrollment_input \<Rightarrow> host_state \<times> loop_state \<Rightarrow> (host_state \<times> loop_state) \<times> http_request list" where
  "enrollment_iteration en i sl =
     (case sl of (s0, l) \<Rightarrow>
      (case refresh_config en s0 of
         Inl _ \<Rightarrow> ((s0, l\<lparr>lp_delay := en_poll en\<rparr>), [])
       | Inr s \<Rightarrow>
           (let state = cf_registration_state (dm_config (hs_daemon s))
            in if state = RegistrationActive then
                 (let s1 = discard_for_state en i RegistrationActive s
                  in if lp_refresh l then
                       (case attempt_enrollment en i s1 of
                          (EnrollmentRetry, s2, qs) \<Rightarrow> ((s2, retry_loop en l), qs)
                        | (_, s2, qs) \<Rightarrow> ((s2, (rest_loop en l)\<lparr>lp_refresh := False\<rparr>), qs))
                     else ((s1, rest_loop en l), []))
               else if state = RegistrationIdentityConflict then
                 ((discard_for_state en i RegistrationIdentityConflict s, rest_loop en l), [])
               else if state = RegistrationNeedsSetupToken then
                 ((case save_registration_state en (ei_writable i) RegistrationPending s of
                     Inl _ \<Rightarrow> s
                   | Inr s1 \<Rightarrow> discard_legacy_setup_token en (ei_removable i) s1,
                   l\<lparr>lp_retry_delay := en_min en, lp_delay := 0\<rparr>), [])
               else if state = RegistrationPending then
                 (case attempt_enrollment en i s of
                    (EnrollmentSucceeded, s2, qs) \<Rightarrow> ((s2, (rest_loop en l)\<lparr>lp_refresh := False\<rparr>), qs)
                  | (EnrollmentWaiting, s2, qs) \<Rightarrow> ((s2, rest_loop en l), qs)
                  | (EnrollmentRetry, s2, qs) \<Rightarrow> ((s2, retry_loop en l), qs))
               else ((s, l\<lparr>lp_delay := en_poll en\<rparr>), []))))"

text \<open>The states a daemon can reach: iterations with any surroundings, and any change of the disk between them
  (the command line tool enrolls and configures too).\<close>

inductive reachable :: "enrollment_env \<Rightarrow> daemon \<Rightarrow> host_state \<times> loop_state \<Rightarrow> bool" for en d0 where
  start: "reachable en d0 (\<lparr>hs_daemon = d0, hs_files = fs\<rparr>, initial_loop en)"
| iterate: "reachable en d0 sl \<Longrightarrow> reachable en d0 (fst (enrollment_iteration en i sl))"
| disk: "reachable en d0 (s, l) \<Longrightarrow> reachable en d0 (s\<lparr>hs_files := fs\<rparr>, l)"

section \<open>What every operation keeps\<close>

abbreviation conf :: "host_state \<Rightarrow> config" where
  "conf s \<equiv> dm_config (hs_daemon s)"

text \<open>What of a queued event no change of its backend or retry time touches.\<close>

definition row_view :: "pending_event \<Rightarrow> string \<times> string \<times> string \<times> int" where
  "row_view r = (pe_event_id r, pe_body r, pe_source r, pe_expires_at r)"

definition same_rows :: "queue \<Rightarrow> queue \<Rightarrow> bool" where
  "same_rows q q' \<longleftrightarrow> map row_view (q_events q') = map row_view (q_events q) \<and> q_bindings q' = q_bindings q \<and>
     q_panes q' = q_panes q \<and> q_adapter q' = q_adapter q"

lemma same_rows_refl [simp]: "same_rows q q"
  by (simp add: same_rows_def)

lemma same_rows_trans: "same_rows q q' \<Longrightarrow> same_rows q' q'' \<Longrightarrow> same_rows q q''"
  by (simp add: same_rows_def)

lemma configure_same_rows: "configure_backend norm ep q = Inr q' \<Longrightarrow> same_rows q q'"
  by (auto simp: configure_backend_def same_rows_def row_view_def Let_def split: sum.splits)

text \<open>The identity of the host, once known, the buffered signals, the bounds of the queue and its rows.\<close>

definition keeps :: "host_state \<Rightarrow> host_state \<Rightarrow> bool" where
  "keeps s s' \<longleftrightarrow> (cf_host_id (conf s) \<noteq> [] \<longrightarrow> cf_host_id (conf s') = cf_host_id (conf s)) \<and>
     dm_version (hs_daemon s') = dm_version (hs_daemon s) \<and> dm_dirty (hs_daemon s') = dm_dirty (hs_daemon s) \<and>
     (queue_ok (dm_queue (hs_daemon s)) \<longrightarrow> queue_ok (dm_queue (hs_daemon s'))) \<and>
     same_rows (dm_queue (hs_daemon s)) (dm_queue (hs_daemon s'))"

lemma keeps_refl [simp]: "keeps s s"
  by (simp add: keeps_def)

lemma keeps_trans: "keeps s s' \<Longrightarrow> keeps s' s'' \<Longrightarrow> keeps s s''"
  using same_rows_trans by (auto simp: keeps_def)

lemma configure_queue_ok: "configure_backend norm ep q = Inr q' \<Longrightarrow> queue_ok q \<Longrightarrow> queue_ok q'"
  using configure_backend_ok by (auto simp: queue_ok_def)

lemma refresh_keeps: "refresh_config en s = Inr s' \<Longrightarrow> keeps s s' \<and> hs_files s' = hs_files s"
  by (auto simp: refresh_config_def keeps_def Let_def configure_queue_ok configure_same_rows split: if_splits sum.splits)

lemma save_keeps: "save_registration_state en w state s = Inr s' \<Longrightarrow> keeps s s' \<and> conf s' = (conf s)\<lparr>cf_registration_state := state\<rparr>"
  by (auto simp: save_registration_state_def keeps_def Let_def split: if_splits sum.splits)

lemma discard_keeps: "keeps s (discard_legacy_setup_token en r s)" "hs_daemon (discard_legacy_setup_token en r s) = hs_daemon s"
  by (simp_all add: discard_legacy_setup_token_def keeps_def)

lemma discard_for_state_keeps: "keeps s (discard_for_state en i st s)"
  using refresh_keeps keeps_trans discard_keeps(1)
  by (auto simp: discard_for_state_def split: sum.splits) blast

lemma wake_keeps: "keeps s (s\<lparr>hs_daemon := (hs_daemon s)\<lparr>dm_wake := True\<rparr>\<rparr>)"
  by (simp add: keeps_def)

text \<open>The outcomes of an attempt.\<close>

lemma attempt_cases:
  assumes "attempt_enrollment en i s0 = (r, s', qs)"
  obtains (early) "r = EnrollmentRetry" "s' = s0" "qs = []"
  | (failed) s where "refresh_config en s0 = Inr s" "r = EnrollmentRetry" "s' = s"
      "\<forall>q \<in> set qs. enrollment_request_ok (cf_endpoint (conf s)) q"
  | (enrolled) s s1 q1 q2 response where "refresh_config en s0 = Inr s" "r = EnrollmentSucceeded"
      "save_registration_state en (ei_writable i) RegistrationActive s = Inr s1"
      "s' = (discard_legacy_setup_token en (ei_removable i) s1)\<lparr>hs_daemon := (hs_daemon s1)\<lparr>dm_wake := True\<rparr>\<rparr>"
      "qs = [q1, q2]" "enrollment_request_ok (cf_endpoint (conf s)) q1" "enrollment_request_ok (cf_endpoint (conf s)) q2"
      "ei_client i q2 = Inr response" "200 \<le> rs_status response" "rs_status response < 300"
  | (conflict) s s1 where "refresh_config en s0 = Inr s" "r = EnrollmentWaiting"
      "save_registration_state en (ei_writable i) RegistrationIdentityConflict s = Inr s1"
      "s' = discard_legacy_setup_token en (ei_removable i) s1"
      "\<forall>q \<in> set qs. enrollment_request_ok (cf_endpoint (conf s)) q"
proof (cases "ei_lock i \<and> (\<exists>s. refresh_config en s0 = Inr s)")
  case False
  then show ?thesis
    using assms early by (auto simp: attempt_enrollment_def split: if_splits sum.splits)
next
  case True
  then obtain s where s: "refresh_config en s0 = Inr s" "ei_lock i"
    by blast
  obtain tr ts where tok: "request_host_enrollment_token (ei_client i) (en_signer en) (cf_endpoint (conf s)) (cf_host_id (conf s))
      (dm_version (hs_daemon s)) (ei_now i) = (tr, ts)"
    by fastforce
  note tq = token_request[OF tok]
  show ?thesis
  proof (cases tr)
    case (Inl e)
    then show ?thesis
      using assms s tok tq failed[OF s(1)] by (auto simp: attempt_enrollment_def)
  next
    case (Inr token)
    obtain rr rs where reg: "register_host (ei_client i) (en_signer en) (cf_endpoint (conf s)) token (cf_host_id (conf s))
        (dm_version (hs_daemon s)) (ei_now i) = (rr, rs)"
      by fastforce
    note rq = register_request[OF reg]
    have ok: "\<forall>q \<in> set (ts @ rs). enrollment_request_ok (cf_endpoint (conf s)) q"
      using tq rq by auto
    obtain q1 where q1: "ts = [q1]"
      using tq Inr by blast
    show ?thesis
    proof (cases rr)
      case (Inr u)
      then obtain q2 response where q2: "rs = [q2]" "ei_client i q2 = Inr response" "200 \<le> rs_status response"
          "rs_status response < 300"
        using rq by auto
      show ?thesis
      proof (cases "save_registration_state en (ei_writable i) RegistrationActive s")
        case (Inl e)
        then show ?thesis
          using assms s tok reg Inr \<open>tr = Inr token\<close> ok failed[OF s(1)] by (simp add: attempt_enrollment_def Let_def)
      next
        case (Inr s1)
        have "r = EnrollmentSucceeded" "qs = [q1, q2]"
          "s' = (discard_legacy_setup_token en (ei_removable i) s1)\<lparr>hs_daemon := (hs_daemon s1)\<lparr>dm_wake := True\<rparr>\<rparr>"
          using assms s tok reg Inr \<open>rr = Inr u\<close> \<open>tr = Inr token\<close> q1 q2(1)
          by (simp_all add: attempt_enrollment_def Let_def discard_keeps(2))
        then show ?thesis
          using enrolled[OF s(1) _ Inr _ _ _ _ q2(2-4)] ok q1 q2(1) by simp
      qed
    next
      case (Inl e)
      then show ?thesis
        using assms s tok reg \<open>tr = Inr token\<close> ok failed[OF s(1)] conflict[OF s(1)]
        by (cases "e = ErrStatus 409"; cases "save_registration_state en (ei_writable i) RegistrationIdentityConflict s")
          (simp_all add: attempt_enrollment_def Let_def)
    qed
  qed
qed

lemma attempt_keeps:
  assumes "attempt_enrollment en i s0 = (r, s', qs)"
  shows "keeps s0 s'"
  using assms
proof (cases rule: attempt_cases)
  case (enrolled s s1 q1 q2 response)
  then show ?thesis
    using keeps_trans[OF conjunct1[OF refresh_keeps[OF enrolled(1)]] conjunct1[OF save_keeps[OF enrolled(3)]]]
    by (auto simp: keeps_def)
next
  case (conflict s s1)
  then show ?thesis
    using keeps_trans[OF conjunct1[OF refresh_keeps[OF conflict(1)]] conjunct1[OF save_keeps[OF conflict(3)]]]
      keeps_trans discard_keeps(1) by blast
qed (auto dest: refresh_keeps)

text \<open>The outcomes of an iteration.\<close>

lemma iteration_cases:
  assumes "enrollment_iteration en i (s0, l) = ((s', l'), qs)"
  obtains (unreadable) e where "refresh_config en s0 = Inl e" "s' = s0" "l' = l\<lparr>lp_delay := en_poll en\<rparr>" "qs = []"
  | (attempt) s s1 r where "refresh_config en s0 = Inr s"
      "cf_registration_state (conf s) = RegistrationPending \<and> s1 = s \<or>
       cf_registration_state (conf s) = RegistrationActive \<and> s1 = discard_for_state en i RegistrationActive s"
      "attempt_enrollment en i s1 = (r, s', qs)"
      "r = EnrollmentRetry \<and> l' = retry_loop en l \<or> r \<noteq> EnrollmentRetry \<and> (\<exists>b. l' = (rest_loop en l)\<lparr>lp_refresh := b\<rparr>)"
  | (settled) s where "refresh_config en s0 = Inr s" "cf_registration_state (conf s) \<in> {RegistrationActive, RegistrationIdentityConflict}"
      "s' = discard_for_state en i (cf_registration_state (conf s)) s" "l' = rest_loop en l" "qs = []"
  | (migrate) s where "refresh_config en s0 = Inr s" "cf_registration_state (conf s) = RegistrationNeedsSetupToken"
      "s' = (case save_registration_state en (ei_writable i) RegistrationPending s of
               Inl _ \<Rightarrow> s | Inr s1 \<Rightarrow> discard_legacy_setup_token en (ei_removable i) s1)"
      "l' = l\<lparr>lp_retry_delay := en_min en, lp_delay := 0\<rparr>" "qs = []"
  | (other) s where "refresh_config en s0 = Inr s" "s' = s" "l' = l\<lparr>lp_delay := en_poll en\<rparr>" "qs = []"
      "cf_registration_state (conf s) \<notin> {RegistrationActive, RegistrationPending}"
proof (cases "refresh_config en s0")
  case (Inl e)
  then show ?thesis
    using assms unreadable[OF Inl] by (simp add: enrollment_iteration_def)
next
  case (Inr s)
  let ?st = "cf_registration_state (conf s)"
  have same: "(rest_loop en l)\<lparr>lp_refresh := lp_refresh (rest_loop en l)\<rparr> = rest_loop en l"
    by simp
  consider (a) "?st = RegistrationActive \<and> lp_refresh l" | (b) "?st = RegistrationPending" | (c) "?st = RegistrationActive \<and> \<not> lp_refresh l \<or> ?st = RegistrationIdentityConflict"
    | (d) "?st = RegistrationNeedsSetupToken"
    | (e) "?st \<notin> {RegistrationActive, RegistrationPending, RegistrationIdentityConflict, RegistrationNeedsSetupToken}"
    by blast
  then show ?thesis
  proof cases
    case a
    obtain r s2 rs where at: "attempt_enrollment en i (discard_for_state en i RegistrationActive s) = (r, s2, rs)"
      by (metis prod_cases3)
    have "s' = s2" "qs = rs" "r = EnrollmentRetry \<and> l' = retry_loop en l \<or>
        r \<noteq> EnrollmentRetry \<and> l' = (rest_loop en l)\<lparr>lp_refresh := False\<rparr>"
      using assms Inr a at by (cases r; simp add: enrollment_iteration_def Let_def)+
    then show ?thesis
      using attempt[OF Inr] a at by blast
  next
    case b
    obtain r s2 rs where at: "attempt_enrollment en i s = (r, s2, rs)"
      by (metis prod_cases3)
    have "s' = s2" "qs = rs" "r = EnrollmentRetry \<and> l' = retry_loop en l \<or>
        r \<noteq> EnrollmentRetry \<and> (\<exists>b. l' = (rest_loop en l)\<lparr>lp_refresh := b\<rparr>)"
      using assms Inr b at same by (cases r; simp add: enrollment_iteration_def Let_def registration_defs; metis)+
    then show ?thesis
      using attempt[OF Inr] b at by blast
  next
    case c
    then show ?thesis
      using assms Inr settled[OF Inr] by (auto simp: enrollment_iteration_def Let_def registration_defs)
  next
    case d
    then show ?thesis
      using assms Inr migrate[OF Inr] by (auto simp: enrollment_iteration_def Let_def registration_defs)
  next
    case e
    then show ?thesis
      using assms Inr other[OF Inr] by (auto simp: enrollment_iteration_def Let_def)
  qed
qed

lemma iteration_keeps:
  assumes "enrollment_iteration en i (s0, l) = ((s', l'), qs)"
  shows "keeps s0 s'"
  using assms
proof (cases rule: iteration_cases)
  case (attempt s s1 r)
  have "keeps s s1"
    using attempt(2) discard_for_state_keeps by auto
  then show ?thesis
    using keeps_trans refresh_keeps[OF attempt(1)] attempt_keeps[OF attempt(3)] by blast
next
  case (settled s)
  then show ?thesis
    using keeps_trans refresh_keeps[OF settled(1)] discard_for_state_keeps by blast
next
  case (migrate s)
  have "keeps s s'"
    using keeps_trans save_keeps discard_keeps(1) by (auto simp: migrate(3) split: sum.splits) blast
  then show ?thesis
    using keeps_trans refresh_keeps[OF migrate(1)] by blast
next
  case (other s)
  then show ?thesis
    using refresh_keeps[OF other(1)] by simp
qed simp

section \<open>The delays\<close>

definition env_ok :: "enrollment_env \<Rightarrow> bool" where
  "env_ok en \<longleftrightarrow> 0 < en_poll en \<and> 0 < en_min en \<and> en_min en \<le> en_max en"

definition loop_ok :: "enrollment_env \<Rightarrow> loop_state \<Rightarrow> bool" where
  "loop_ok en l \<longleftrightarrow> en_min en \<le> lp_retry_delay l \<and> lp_retry_delay l \<le> en_max en \<and>
     (lp_delay l = 0 \<or> lp_delay l = en_poll en \<or> en_min en \<le> lp_delay l \<and> lp_delay l \<le> en_max en)"

lemma loop_steps_ok:
  assumes "env_ok en" "loop_ok en l"
  shows "loop_ok en (rest_loop en l)" "loop_ok en (retry_loop en l)" "loop_ok en (l\<lparr>lp_delay := en_poll en\<rparr>)"
    "loop_ok en (l\<lparr>lp_retry_delay := en_min en, lp_delay := 0\<rparr>)" "loop_ok en (l\<lparr>lp_refresh := b\<rparr>)"
  using assms by (auto simp: loop_ok_def env_ok_def rest_loop_def retry_loop_def)

lemma iteration_loop_ok:
  assumes "enrollment_iteration en i (s0, l) = ((s', l'), qs)" "env_ok en" "loop_ok en l"
  shows "loop_ok en l'"
  using assms(1)
proof (cases rule: iteration_cases)
  case (attempt s s1 r)
  then show ?thesis
    using loop_steps_ok[OF assms(2)] assms(3) by blast
qed (use loop_steps_ok[OF assms(2,3)] in simp_all)

definition enrollment_inv :: "enrollment_env \<Rightarrow> daemon \<Rightarrow> host_state \<times> loop_state \<Rightarrow> bool" where
  "enrollment_inv en d0 sl \<longleftrightarrow> loop_ok en (snd sl) \<and>
     (cf_host_id (dm_config d0) \<noteq> [] \<longrightarrow> cf_host_id (conf (fst sl)) = cf_host_id (dm_config d0)) \<and>
     (queue_ok (dm_queue d0) \<longrightarrow> queue_ok (dm_queue (hs_daemon (fst sl))))"

text \<open>C19: In every state the enrollment loop can reach, whatever the backend, the lock, the disk and the command
  line tool do, the host's identity is the one the daemon started with, the queue keeps its bounds, the
  retry delay stays between its minimum and its maximum and the loop waits for nothing longer.\<close>

theorem enrollment_reachable:
  assumes "env_ok en" "reachable en d0 sl"
  shows "enrollment_inv en d0 sl"
  using assms(2)
proof (induction rule: reachable.induct)
  case (start fs)
  then show ?case
    using assms(1) by (simp add: enrollment_inv_def initial_loop_def loop_ok_def env_ok_def)
next
  case (iterate sl i)
  obtain s l where sl: "sl = (s, l)" by fastforce
  obtain s' l' qs where it: "enrollment_iteration en i (s, l) = ((s', l'), qs)"
    by (metis prod_cases3 surj_pair)
  then show ?case
    using iterate.IH iteration_loop_ok[OF it assms(1)] iteration_keeps[OF it]
    by (auto simp: enrollment_inv_def sl keeps_def)
next
  case (disk s l fs)
  then show ?case
    by (simp add: enrollment_inv_def)
qed

text \<open>Consecutive failures double the delay up to its maximum: after \<open>n\<close> retries in a row from a settled loop
  the next delay is \<open>min (2^n * minimum) maximum\<close>.\<close>

theorem enrollment_backoff:
  assumes "env_ok en" "lp_retry_delay l = en_min en"
  shows "lp_retry_delay ((retry_loop en ^^ n) l) = min (2 ^ n * en_min en) (en_max en) \<and>
    lp_delay (retry_loop en ((retry_loop en ^^ n) l)) = min (2 ^ n * en_min en) (en_max en)"
proof -
  have "lp_retry_delay ((retry_loop en ^^ n) l) = min (2 ^ n * en_min en) (en_max en)"
  proof (induction n)
    case (Suc n)
    have pos: "0 < en_max en"
      using assms(1) by (simp add: env_ok_def)
    have "lp_retry_delay ((retry_loop en ^^ Suc n) l) = min (2 * lp_retry_delay ((retry_loop en ^^ n) l)) (en_max en)"
      by (simp add: retry_loop_def)
    then show ?case
      using Suc pos by (simp add: min_def)
  qed (use assms in \<open>simp add: env_ok_def\<close>)
  then show ?thesis
    by (simp add: retry_loop_def)
qed

section \<open>The registration state\<close>

lemma refresh_again:
  assumes "refresh_config en s0 = Inr s" "refresh_config en s = Inr s2"
  shows "conf s2 = conf s \<and> hs_files s2 = hs_files s"
  using assms by (auto simp: refresh_config_def Let_def split: if_splits sum.splits)

lemma discard_for_state_conf: "refresh_config en s0 = Inr s \<Longrightarrow> conf (discard_for_state en i st s) = conf s"
proof (cases "refresh_config en s")
  case (Inr s2)
  assume "refresh_config en s0 = Inr s"
  from refresh_again[OF this Inr] show ?thesis
    by (simp add: discard_for_state_def Inr discard_keeps(2))
qed (simp add: discard_for_state_def)

lemma states_differ:
  "RegistrationActive \<noteq> RegistrationPending" "RegistrationActive \<noteq> RegistrationIdentityConflict"
  "RegistrationActive \<noteq> RegistrationNeedsSetupToken" "RegistrationPending \<noteq> RegistrationIdentityConflict"
  "RegistrationPending \<noteq> RegistrationNeedsSetupToken" "RegistrationIdentityConflict \<noteq> RegistrationNeedsSetupToken"
  by (simp_all add: registration_defs)

text \<open>C20: When the host counts as registered after an iteration, there is one of three reasons: the configuration on
  disk already said so; or it could not be taken over (it is unreadable or names another host), and the daemon, which
  asked nobody, keeps the registration it had before; or the backend answered the registration of this iteration, sent with a fresh token
  to a secure endpoint, with a 2xx status.\<close>

theorem registered_only_when_accepted:
  assumes "enrollment_iteration en i (s0, l) = ((s', l'), qs)" "cf_registration_state (conf s') = RegistrationActive"
  shows "(\<exists>s. refresh_config en s0 = Inr s \<and> cf_registration_state (conf s) = RegistrationActive) \<or>
    (\<exists>e. refresh_config en s0 = Inl e \<and> s' = s0 \<and> cf_registration_state (conf s0) = RegistrationActive \<and> qs = []) \<or>
    (\<exists>s q1 q2 response. refresh_config en s0 = Inr s \<and> qs = [q1, q2] \<and> enrollment_request_ok (cf_endpoint (conf s)) q2 \<and>
       ei_client i q2 = Inr response \<and> 200 \<le> rs_status response \<and> rs_status response < 300)"
  using assms(1)
proof (cases rule: iteration_cases)
  case (unreadable e)
  then show ?thesis
    using assms(2) by blast
next
  case (attempt s s1 r)
  show ?thesis
  proof (cases "cf_registration_state (conf s) = RegistrationActive")
    case False
    then have s1: "s1 = s" "cf_registration_state (conf s) = RegistrationPending"
      using attempt(2) by auto
    from attempt(3)[unfolded s1(1)] show ?thesis
    proof (cases rule: attempt_cases)
      case (enrolled s2 s3 q1 q2 response)
      then show ?thesis
        using attempt(1) refresh_again[OF attempt(1) enrolled(1)] by metis
    next
      case (conflict s2 s3)
      then show ?thesis
        using assms(2) save_keeps[OF conflict(3)] states_differ by (simp add: discard_keeps(2))
    next
      case early
      then show ?thesis
        using assms(2) s1(2) states_differ(1) by simp
    next
      case (failed s2)
      then have "conf s' = conf s"
        using refresh_again[OF attempt(1) failed(1)] by simp
      then show ?thesis
        using assms(2) s1(2) states_differ(1) by simp
    qed
  qed (use attempt(1) in blast)
next
  case (settled s)
  then show ?thesis
    using assms(2) discard_for_state_conf[OF settled(1)] by metis
next
  case (migrate s)
  have "cf_registration_state (conf s') \<noteq> RegistrationActive"
    using migrate(2) save_keeps states_differ
    by (auto simp: migrate(3) discard_keeps(2) split: sum.splits)
  then show ?thesis
    using assms(2) by simp
qed (use assms(2) in auto)

text \<open>A host whose identity the backend has rejected stays as it is: while the configuration says so, an
  iteration makes no request, keeps the configuration and waits for the poll interval.\<close>

theorem identity_conflict_rests:
  assumes "refresh_config en s0 = Inr s" "cf_registration_state (conf s) = RegistrationIdentityConflict"
  shows "\<exists>s'. enrollment_iteration en i (s0, l) = ((s', rest_loop en l), []) \<and> conf s' = conf s \<and> lp_delay (rest_loop en l) = en_poll en"
  using assms discard_for_state_conf[OF assms(1)] states_differ
  by (simp add: enrollment_iteration_def rest_loop_def)

text \<open>C36: An agent that still waits for a setup token and cannot write its configuration retries without waiting:
  the iteration changes nothing and sets the delay to zero, so the loop runs at full speed until the write
  succeeds.\<close>

theorem failed_migration_spins:
  assumes "refresh_config en s0 = Inr s" "cf_registration_state (conf s) = RegistrationNeedsSetupToken"
    "en_config_path en \<noteq> []" "\<not> ei_writable i"
  shows "\<exists>l'. enrollment_iteration en i (s0, l) = ((s, l'), []) \<and> lp_delay l' = 0 \<and>
    (\<exists>s2. refresh_config en s = Inr s2 \<and> cf_registration_state (conf s2) = RegistrationNeedsSetupToken)"
proof -
  have "\<exists>s2. refresh_config en s = Inr s2"
    using assms(1,3) by (auto simp: refresh_config_def configure_backend_def Let_def split: if_splits sum.splits)
  then obtain s2 where s2: "refresh_config en s = Inr s2"
    by blast
  have "save_registration_state en (ei_writable i) RegistrationPending s = fail ''write failed''"
    using assms(3,4) by (simp add: save_registration_state_def Let_def)
  then show ?thesis
    using assms(1,2) s2 refresh_again[OF assms(1) s2] states_differ by (simp add: enrollment_iteration_def)
qed

section \<open>Progress\<close>





end
