(* ===== verification/Agent_System.thy ===== *)
theory Agent_System
  imports Capture Enrollment
begin

text \<open>
  The whole daemon: its workers (the connection handler, \<open>herdrLoop\<close>, \<open>uploadLoop\<close> and \<open>enrollmentLoop\<close>) act
  on one queue, one configuration and two channels, in any interleaving, while other processes edit the
  files and switch the capture. An action is one transaction-like step of one worker; a run is any sequence
  of actions.
\<close>

section \<open>Actions\<close>

record agent_system =
  sy_host :: host_state
  sy_loop :: loop_state
  sy_dirty :: "herdr_dirty_event gomap"

abbreviation sy_daemon :: "agent_system \<Rightarrow> daemon" where
  "sy_daemon s \<equiv> hs_daemon (sy_host s)"

abbreviation sy_queue :: "agent_system \<Rightarrow> queue" where
  "sy_queue s \<equiv> dm_queue (sy_daemon s)"

definition put_daemon :: "daemon \<Rightarrow> agent_system \<Rightarrow> agent_system" where
  "put_daemon d s = s\<lparr>sy_host := (sy_host s)\<lparr>hs_daemon := d\<rparr>\<rparr>"

definition put_queue :: "queue \<Rightarrow> agent_system \<Rightarrow> agent_system" where
  "put_queue q s = put_daemon ((sy_daemon s)\<lparr>dm_queue := q\<rparr>) s"

definition loop_of :: "agent_system \<Rightarrow> herdr_loop" where
  "loop_of s = \<lparr>hl_daemon = sy_daemon s, hl_dirty = sy_dirty s\<rparr>"

definition put_loop :: "herdr_loop \<Rightarrow> agent_system \<Rightarrow> agent_system" where
  "put_loop l s = (put_daemon (hl_daemon l) s)\<lparr>sy_dirty := hl_dirty l\<rparr>"

datatype agent_action =
  Client "string result" gotime bool string
| ReceiveSignal
| DrainSignal surroundings string
| Baseline surroundings herdr_dirty_event
| UploadOne upload_view
| Woken
| Enroll enrollment_input
| EditFiles file_system
| SwitchCapture bool

fun agent_do ::
  "environment \<Rightarrow> enrollment_env \<Rightarrow> (string \<Rightarrow> string) \<Rightarrow> agent_action \<Rightarrow> agent_system \<Rightarrow> agent_system \<times> http_request list" where
  "agent_do env en sha256_hex (Client uuid now peer_ok input) s =
     (put_daemon (snd (handle_connection sha256_hex uuid now peer_ok input (sy_daemon s))) s, [])"
| "agent_do env en sha256_hex ReceiveSignal s = (put_loop (receive_dirty (loop_of s)) s, [])"
| "agent_do env en sha256_hex (DrainSignal su key) s = (put_loop (drain_one env sha256_hex su key (loop_of s)) s, [])"
| "agent_do env en sha256_hex (Baseline su e) s =
     (put_daemon (reconcile_signal env sha256_hex su (e\<lparr>de_baseline := True\<rparr>) (sy_daemon s)) s, [])"
| "agent_do env en sha256_hex (UploadOne v) s =
     (case upload_once (v\<lparr>uv_config := dm_config (sy_daemon s)\<rparr>) (sy_queue s) of
        (_, q, requests) \<Rightarrow> (put_queue q s, requests))"
| "agent_do env en sha256_hex Woken s = (put_daemon ((sy_daemon s)\<lparr>dm_wake := False\<rparr>) s, [])"
| "agent_do env en sha256_hex (Enroll i) s =
     (case enrollment_iteration en i (sy_host s, sy_loop s) of
        ((h, l), requests) \<Rightarrow> (s\<lparr>sy_host := h, sy_loop := l\<rparr>, requests))"
| "agent_do env en sha256_hex (EditFiles fs) s = (s\<lparr>sy_host := (sy_host s)\<lparr>hs_files := fs\<rparr>\<rparr>, [])"
| "agent_do env en sha256_hex (SwitchCapture on) s = (put_queue (set_herdr_capture_enabled on (sy_queue s)) s, [])"

text \<open>An action with surroundings that behave; the time of an action that deletes expired events.\<close>

fun action_ok :: "agent_action \<Rightarrow> bool" where
  "action_ok (DrainSignal su key) = surroundings_ok su"
| "action_ok (Baseline su e) = surroundings_ok su"
| "action_ok _ = True"

fun action_time :: "agent_action \<Rightarrow> gotime option" where
  "action_time (Client uuid now peer_ok input) = Some now"
| "action_time (DrainSignal su key) = Some (su_now su)"
| "action_time (Baseline su e) = Some (su_now su)"
| "action_time (UploadOne v) = Some (uv_now v)"
| "action_time _ = None"

fun agent_run ::
  "environment \<Rightarrow> enrollment_env \<Rightarrow> (string \<Rightarrow> string) \<Rightarrow> agent_action list \<Rightarrow> agent_system \<Rightarrow> agent_system \<times> http_request list" where
  "agent_run env en sha256_hex [] s = (s, [])"
| "agent_run env en sha256_hex (a # as) s =
     (case agent_do env en sha256_hex a s of (s', requests) \<Rightarrow>
        (case agent_run env en sha256_hex as s' of (s'', rest) \<Rightarrow> (s'', requests @ rest)))"

lemma agent_run_Cons:
  "fst (agent_run env en sha256_hex (a # as) s) = fst (agent_run env en sha256_hex as (fst (agent_do env en sha256_hex a s)))"
  "snd (agent_run env en sha256_hex (a # as) s) =
     snd (agent_do env en sha256_hex a s) @ snd (agent_run env en sha256_hex as (fst (agent_do env en sha256_hex a s)))"
  by (simp_all add: case_prod_beta)

declare agent_run.simps(2) [simp del]

lemma put_simps [simp]:
  "sy_host (put_daemon d s) = (sy_host s)\<lparr>hs_daemon := d\<rparr>" "sy_loop (put_daemon d s) = sy_loop s"
  "sy_dirty (put_daemon d s) = sy_dirty s" "sy_daemon (put_queue q s) = (sy_daemon s)\<lparr>dm_queue := q\<rparr>"
  "sy_dirty (put_queue q s) = sy_dirty s" "sy_daemon (put_loop l s) = hl_daemon l" "sy_dirty (put_loop l s) = hl_dirty l"
  "hl_daemon (loop_of s) = sy_daemon s" "hl_dirty (loop_of s) = sy_dirty s" "loop_of (put_loop l s) = l"
  by (simp_all add: put_daemon_def put_queue_def put_loop_def loop_of_def)

section \<open>The rows of the queue are valid events\<close>

definition row_valid :: "string \<times> string \<times> string \<times> int \<Rightarrow> bool" where
  "row_valid v = (case v of (i, body, source, expires) \<Rightarrow>
     (case unmarshal_host_event body of Inl _ \<Rightarrow> False | Inr e \<Rightarrow> host_event_valid e \<and> source = event_source e))"

definition rows_valid :: "queue \<Rightarrow> bool" where
  "rows_valid q \<longleftrightarrow> list_all (\<lambda>r. row_valid (row_view r)) (q_events q)"

lemma rows_valid_same: "same_rows q q' \<Longrightarrow> rows_valid q' = rows_valid q"
proof -
  assume "same_rows q q'"
  then have "list_all row_valid (map row_view (q_events q')) = list_all row_valid (map row_view (q_events q))"
    by (simp add: same_rows_def)
  then show ?thesis
    by (simp add: rows_valid_def list.pred_map comp_def)
qed

lemma rows_valid_subset: "rows_valid q \<Longrightarrow> set (q_events q') \<subseteq> set (q_events q) \<Longrightarrow> rows_valid q'"
  by (auto simp: rows_valid_def list_all_iff)

lemma valid_source: "host_event_valid e \<Longrightarrow> event_source e = ''codex'' \<or> event_source e = ''herdr''"
  using valid_codex_shape[of e] by (auto simp: protocol_consts)

lemma classified_source:
  assumes "unmarshal_host_event body = Inr e" "host_event_valid e"
  shows "fst (classify body now) = event_source e"
proof (cases "event_source e = SourceHerdr")
  case True
  then obtain t where "ev_target e = Some t"
    using valid_herdr_shape[OF assms(2)] by blast
  then show ?thesis
    using assms True by (simp add: classify_def protocol_consts)
next
  case False
  then show ?thesis
    using assms valid_source[OF assms(2)] by (simp add: classify_def protocol_consts)
qed

lemma new_row_valid:
  assumes "marshal_host_event e = Inr body" "host_event_wf e" "host_event_valid e"
  shows "row_valid (row_view (new_row backend i body now)) \<and> pe_source (new_row backend i body now) = event_source e"
proof -
  have u: "unmarshal_host_event body = Inr e"
    using host_codec.decode_encode[OF assms(2,1)] .
  have "pe_source (new_row backend i body now) = event_source e"
    using classified_source[OF u assms(3), of now] by (cases "classify body now") (simp add: new_row_def)
  then show ?thesis
    using u assms(3) by (simp add: row_valid_def row_view_def)
qed

lemma enqueue_rows_valid:
  "rows_valid q \<Longrightarrow> marshal_host_event e = Inr body \<Longrightarrow> host_event_wf e \<Longrightarrow> host_event_valid e \<Longrightarrow>
     rows_valid (enqueue_event i body now q)"
  using enqueue_subset[of i body now q] new_row_valid[of e body "q_backend q" i now]
  by (auto simp: rows_valid_def list_all_iff)

text \<open>A reconciliation only adds valid rows.\<close>

lemma send_rows_valid:
  assumes "send_transition env uuid binding now t a s = Inr s'" "t = type_to_send b row a" "agent_wf a"
    "session_wf (hb_session_id binding)" "\<not> is_zero_time now" "rows_valid (fst s)"
  shows "rows_valid (fst s')"
proof (cases "t = []")
  case True
  then show ?thesis
    using assms(1,6) by (simp add: send_transition_def)
next
  case False
  then obtain e body i where e: "agent_event env binding now t a = Some e" "marshal_host_event e = Inr body"
      "s' = (enqueue_event i body now (fst s), Suc (snd s))"
    using assms(1) by (auto simp: send_transition_def split: option.splits sum.splits)
  have "host_event_valid e" "host_event_wf e"
    using agent_event_some[OF assms(3-5) assms(2)[symmetric] False, of env] e(1) by auto
  then show ?thesis
    using enqueue_rows_valid[OF assms(6) e(2)] e(3) by simp
qed

lemma agents_rows_valid:
  assumes "reconcile_agents env uuid binding baseline now as s = Inr s'" "list_all agent_wf as"
    "session_wf (hb_session_id binding)" "\<not> is_zero_time now" "rows_valid (fst s)"
  shows "rows_valid (fst s')"
  using assms(1,2,5)
proof (induction as arbitrary: s)
  case (Cons a as)
  obtain s1 where s1: "reconcile_agent env uuid binding baseline now a s = Inr s1"
      "reconcile_agents env uuid binding baseline now as s1 = Inr s'"
    using Cons.prems(1) by (auto split: sum.splits)
  have "rows_valid (observe_agent binding now a (fst s))"
    using rows_valid_subset[OF Cons.prems(3) observe_events] .
  then have "rows_valid (fst s1)"
    using send_rows_valid[OF s1(1)[unfolded reconcile_agent_observe] agent_transition_def _ assms(3,4)] Cons.prems(2) by simp
  then show ?case
    using Cons.IH[OF s1(2)] Cons.prems(2) by simp
qed simp

lemma reconcile_rows_valid:
  assumes "reconcile_herdr env uuid binding agents incarnation baseline now q = Inr q'" "list_all agent_wf agents"
    "session_wf (hb_session_id binding)" "\<not> is_zero_time now" "rows_valid q"
  shows "rows_valid q'"
proof (cases "binding_active (hb_binding_key binding) q")
  case True
  show ?thesis
  proof (cases rule: reconcile_cases[OF assms(1) True])
    case (1 stored q2 n)
    have "rows_valid (begin_incarnation binding (hb_incarnation stored) incarnation now q)"
      using rows_valid_subset[OF assms(5) begin_events] .
    then have "rows_valid q2"
      using agents_rows_valid[OF 1(4) assms(2-4)] by simp
    then show ?thesis
      using rows_valid_subset remove_events 1(5) by blast
  qed
qed (use reconcile_inactive(1)[OF assms(1)] assms(5) in simp)

lemma rows_valid_events: "q_events q' = q_events q \<Longrightarrow> rows_valid q' = rows_valid q"
  by (simp add: rows_valid_def)

lemma reconcile_signal_valid:
  assumes "capture_inv sha256_hex d" "surroundings_ok su" "rows_valid (dm_queue d)"
  shows "rows_valid (dm_queue (reconcile_signal env sha256_hex su e d))"
proof -
  have b: "bindings_ok sha256_hex (q_bindings (dm_queue d))"
    using assms(1) by (simp add: capture_inv_def)
  have now: "\<not> is_zero_time (su_now su)"
    using assms(2) by (simp add: surroundings_ok_def)
  show ?thesis
  proof (cases rule: reconcile_signal_cases[OF b assms(2), where env = env and e = e])
    case (2 q')
    then show ?thesis
      using assms(3) rows_valid_events[OF 2(2)] by simp
  next
    case (3 q' q'' binding agents incarnation)
    have "rows_valid q'"
      using assms(3) 3(2) rows_valid_events by blast
    then show ?thesis
      using reconcile_rows_valid[OF 3(8,6,7) now] 3(1) by simp
  qed (use assms(3) in simp)
qed

text \<open>An upload only removes rows and postpones one.\<close>

lemma retry_views: "map row_view (q_events (retry i n t q)) = map row_view (q_events q)"
  by (simp add: retry_def row_view_def)

lemma upload_once_views:
  assumes "upload_once v q = (again, q', reqs)"
  shows "row_view ` set (q_events q') \<subseteq> row_view ` set (q_events q)" "q_bindings q' = q_bindings q" "q_adapter q' = q_adapter q"
proof -
  have n: "set (q_events q1) \<subseteq> set (q_events q) \<and> q_bindings q1 = q_bindings q \<and> q_adapter q1 = q_adapter q"
    if "next_for_backend now b q = (res, q1)" for now b res q1
  proof -
    have next': "next_event now (trim_right (CHR ''/'') b) q = (res, q1)"
      using that by (simp add: next_for_backend_def)
    have "q_events q1 = delete_expired (unix now) (q_events q)"
      using next_event_some(2) next_event_none(3) next' by (cases res) blast+
    then show ?thesis
      using next_event_others[OF next'] by (auto simp: delete_expired_def)
  qed
  have "row_view ` set (q_events q') \<subseteq> row_view ` set (q_events q) \<and> q_bindings q' = q_bindings q \<and> q_adapter q' = q_adapter q"
    using assms
  proof (cases rule: upload_once_cases)
    case (none err)
    then show ?thesis using n[OF none(1)] by blast
  next
    case (finished ev q1)
    then show ?thesis using n[OF finished(1)] by (auto simp: complete_def)
  next
    case (failed ev q1)
    have "row_view ` set (q_events q') = row_view ` set (q_events q1)"
      using arg_cong[OF retry_views, of set] unfolding failed(3) by simp
    then show ?thesis using n[OF failed(1)] failed(3) by (auto simp: retry_def)
  qed simp
  then show "row_view ` set (q_events q') \<subseteq> row_view ` set (q_events q)" "q_bindings q' = q_bindings q" "q_adapter q' = q_adapter q"
    by blast+
qed

lemma rows_valid_views: "row_view ` set (q_events q') \<subseteq> row_view ` set (q_events q) \<Longrightarrow> rows_valid q \<Longrightarrow> rows_valid q'"
  by (auto simp: rows_valid_def list_all_iff)

section \<open>The invariant\<close>

definition system_inv :: "(string \<Rightarrow> string) \<Rightarrow> agent_system \<Rightarrow> bool" where
  "system_inv sha256_hex s \<longleftrightarrow> loop_inv sha256_hex (loop_of s) \<and> rows_valid (sy_queue s)"

lemma daemon_step_rows:
  "daemon_step sha256_hex now d d' \<Longrightarrow> rows_valid (dm_queue d) \<Longrightarrow>
     rows_valid (dm_queue d') \<and> q_bindings (dm_queue d') = q_bindings (dm_queue d) \<and> q_adapter (dm_queue d') = q_adapter (dm_queue d)"
  by (induction rule: daemon_step.induct) (auto intro: enqueue_rows_valid)

lemma set_capture_bindings: "bindings_ok sha256_hex (q_bindings (set_herdr_capture_enabled on q)) = bindings_ok sha256_hex (q_bindings q)"
  by (simp add: set_herdr_capture_enabled_def Let_def bindings_ok_map)

lemma set_capture_events: "set (q_events (set_herdr_capture_enabled on q)) \<subseteq> set (q_events q)"
  by (auto simp: set_herdr_capture_enabled_def Let_def)

lemma agent_do_inv:
  assumes "system_inv sha256_hex s" "action_ok a"
  shows "system_inv sha256_hex (fst (agent_do env en sha256_hex a s))"
proof -
  have inv: "loop_inv sha256_hex (loop_of s)" "rows_valid (sy_queue s)" "capture_inv sha256_hex (sy_daemon s)"
    using assms(1) by (simp_all add: system_inv_def loop_inv_def)
  have daemon: "system_inv sha256_hex (put_daemon d s)" if "capture_inv sha256_hex d" "rows_valid (dm_queue d)" for d
    using inv that by (simp add: system_inv_def loop_inv_def)
  show ?thesis
  proof (cases a)
    case (Client uuid now peer_ok input)
    obtain reply d where h: "handle_connection sha256_hex uuid now peer_ok input (sy_daemon s) = (reply, d)"
      by fastforce
    note step = handle_connection_step[OF h]
    have "capture_inv sha256_hex d"
      using daemon_step_ok[OF step] daemon_step_rows[OF step inv(2)] inv(3) by (simp add: capture_inv_def)
    then show ?thesis
      using daemon daemon_step_rows[OF step inv(2)] h by (simp add: Client)
  next
    case ReceiveSignal
    have "sy_queue (put_loop (receive_dirty (loop_of s)) s) = sy_queue s"
      by (simp add: receive_dirty_def split: list.splits)
    then show ?thesis
      using receive_dirty_inv[OF inv(1)] inv(2) by (simp add: ReceiveSignal system_inv_def)
  next
    case (DrainSignal su key)
    then have "rows_valid (dm_queue (hl_daemon (drain_one env sha256_hex su key (loop_of s))))"
      using reconcile_signal_valid[OF inv(3)] inv(2) assms(2) by (auto simp: drain_one_def split: option.splits)
    then show ?thesis
      using drain_one_inv[OF inv(1)] assms(2) by (simp add: DrainSignal system_inv_def)
  next
    case (Baseline su e)
    then show ?thesis
      using daemon reconcile_signal_keeps(1)[OF inv(3)] reconcile_signal_valid[OF inv(3)] inv(2) assms(2) by simp
  next
    case (UploadOne v)
    obtain again q reqs where u: "upload_once (v\<lparr>uv_config := dm_config (sy_daemon s)\<rparr>) (sy_queue s) = (again, q, reqs)"
      by (metis prod_cases3)
    have "queue_ok (sy_queue s)"
      using inv(3) by (simp add: capture_inv_def daemon_ok_def)
    then have "capture_inv sha256_hex ((sy_daemon s)\<lparr>dm_queue := q\<rparr>)"
      using upload_once_ok(1)[OF _ u] upload_once_views(2)[OF u] inv(3) by (simp add: capture_inv_def daemon_ok_def)
    then show ?thesis
      using daemon rows_valid_views[OF upload_once_views(1)[OF u] inv(2)] by (simp add: UploadOne u put_queue_def)
  next
    case Woken
    then show ?thesis
      using daemon[of "(sy_daemon s)\<lparr>dm_wake := False\<rparr>"] inv(2,3) by (simp add: capture_inv_def daemon_ok_def)
  next
    case (Enroll i)
    obtain h l reqs where e: "enrollment_iteration en i (sy_host s, sy_loop s) = ((h, l), reqs)"
      by (metis prod.collapse)
    have k: "keeps (sy_host s) h"
      by (rule iteration_keeps[OF e])
    then have same: "same_rows (sy_queue s) (dm_queue (hs_daemon h))"
      by (simp add: keeps_def)
    have "rows_valid (dm_queue (hs_daemon h))"
      using rows_valid_same[OF same] inv(2) by blast
    moreover have "capture_inv sha256_hex (hs_daemon h)"
      using k same inv(3) by (simp add: keeps_def capture_inv_def daemon_ok_def same_rows_def)
    ultimately have "capture_inv sha256_hex (hs_daemon h)" "rows_valid (dm_queue (hs_daemon h))"
      by blast+
    then show ?thesis
      using inv(1) by (simp add: Enroll e system_inv_def loop_inv_def loop_of_def)
  next
    case (EditFiles fs)
    then show ?thesis
      using inv(1,2) by (simp add: system_inv_def loop_inv_def loop_of_def)
  next
    case (SwitchCapture on)
    have "queue_ok (set_herdr_capture_enabled on (sy_queue s))"
      using set_capture_ok inv(3) by (simp add: capture_inv_def daemon_ok_def queue_ok_def)
    then have "capture_inv sha256_hex ((sy_daemon s)\<lparr>dm_queue := set_herdr_capture_enabled on (sy_queue s)\<rparr>)"
      using inv(3) set_capture_bindings by (simp add: capture_inv_def daemon_ok_def)
    then show ?thesis
      using daemon rows_valid_subset[OF inv(2) set_capture_events] by (simp add: SwitchCapture put_queue_def)
  qed
qed

lemma agent_run_inv:
  "system_inv sha256_hex s \<Longrightarrow> list_all action_ok as \<Longrightarrow> system_inv sha256_hex (fst (agent_run env en sha256_hex as s))"
proof (induction as arbitrary: s)
  case (Cons a as)
  then show ?case
    using agent_do_inv[OF Cons.prems(1), of a env en] by (simp add: agent_run_Cons)
qed simp

section \<open>Uploaded events are valid\<close>

definition event_request_valid :: "http_request \<Rightarrow> bool" where
  "event_request_valid r \<longleftrightarrow>
     (case unmarshal_host_event (rq_body r) of Inl _ \<Rightarrow> False | Inr e \<Rightarrow> host_event_valid e)"

lemma without_metadata_valid: "host_event_valid e \<Longrightarrow> host_event_valid (without_metadata e)"
  by (auto simp: host_event_valid_def without_metadata_def event_source_def split: if_splits option.splits)

lemma upload_bodies:
  "list_all (\<lambda>r. rq_body r = qe_body ev \<or> (\<exists>ev'. stripped ev = Inr ev' \<and> rq_body r = qe_body ev'))
     (snd (upload_to_backend ul c ev k))"
  using upload_requests[of ul c ev k] by (auto simp: upload_request_def Let_def)

lemma stripped_valid:
  assumes "unmarshal_host_event (qe_body ev) = Inr e" "host_event_valid e" "stripped ev = Inr ev'"
  shows "\<exists>e'. unmarshal_host_event (qe_body ev') = Inr e' \<and> host_event_valid e'"
proof -
  have d: "decoded ev = e" "host_event_wf e"
    using decode_encoded[OF assms(1)] decode_host_event_wf[of "qe_body ev"] by (simp_all add: decoded_def)
  obtain body where b: "marshal_host_event (without_metadata e) = Inr body" "qe_body ev' = body"
    using assms(3) d(1) by (auto simp: stripped_def split: sum.splits)
  have "host_event_wf (without_metadata e)"
    using d(2) by (simp add: host_event_wf_def without_metadata_def)
  then show ?thesis
    using host_codec.decode_encode[OF _ b(1)] b(2) without_metadata_valid[OF assms(2)] by auto
qed

lemma upload_once_request:
  assumes "upload_once v q = (again, q', reqs)" "reqs \<noteq> []"
  obtains ev q1 r where "next_for_backend (uv_now v) (cf_endpoint (uv_config v)) q = (Inr ev, q1)" "r \<in> set (q_events q)"
    "qe_event_id ev = pe_event_id r" "qe_body ev = pe_body r"
    "reqs = snd (upload_to_backend (uv_uplink v) (uv_config v) ev 0)"
proof -
  obtain ev q1 where n: "next_for_backend (uv_now v) (cf_endpoint (uv_config v)) q = (Inr ev, q1)"
      "reqs = snd (upload_to_backend (uv_uplink v) (uv_config v) ev 0)"
    using assms by (auto simp: upload_once_def split: if_splits prod.splits sum.splits)
  obtain r where "r \<in> set (q_events q1)" "qe_event_id ev = pe_event_id r" "qe_body ev = pe_body r"
      "q_events q1 = delete_expired (unix (uv_now v)) (q_events q)"
    using next_for_backend_row[OF n(1)] by metis
  then show ?thesis
    using that n by (auto simp: delete_expired_def)
qed

lemma upload_once_valid:
  assumes "upload_once v q = (again, q', reqs)" "rows_valid q"
  shows "list_all event_request_valid reqs"
proof (cases "reqs = []")
  case False
  obtain ev q1 r where u: "r \<in> set (q_events q)" "qe_body ev = pe_body r"
      "reqs = snd (upload_to_backend (uv_uplink v) (uv_config v) ev 0)"
    using upload_once_request[OF assms(1) False] by metis
  have "row_valid (row_view r)"
    using u(1) assms(2) by (simp add: rows_valid_def list_all_iff)
  then obtain e where e: "unmarshal_host_event (qe_body ev) = Inr e" "host_event_valid e"
    by (auto simp: row_valid_def row_view_def u(2) split: sum.splits)
  then show ?thesis
    using upload_bodies[of ev "uv_uplink v" "uv_config v" 0] stripped_valid[OF e] unfolding u(3) list_all_iff event_request_valid_def
    by fastforce
qed simp

end
