(* ===== verification/Agent_Runs.thy ===== *)
theory Agent_Runs
  imports Agent_System
begin

text \<open>
  What holds of every run of the daemon: what becomes of a queued Codex event, and that a switched-off
  capture stays silent.
\<close>

section \<open>A Codex event is kept\<close>

definition codex_rows :: "queue \<Rightarrow> pending_event list" where
  "codex_rows q = filter (\<lambda>r. pe_source r = ''codex'') (q_events q)"

lemma enqueue_keeps_row:
  assumes "events_ok (q_events q)" "length (codex_rows q) < 500" "r \<in> set (q_events q)" "pe_source r = ''codex''"
    "unix now < pe_expires_at r"
  shows "r \<in> set (q_events (enqueue_event i body now q))"
proof -
  let ?row = "new_row (q_backend q) i body now"
  let ?rows = "insert_or_ignore ?row (q_events q)"
  have d: "distinct (map pe_event_id ?rows)"
    using assms(1) by (simp add: events_ok_def insert_distinct)
  have "length (filter (\<lambda>r. pe_source r = ''codex'') ?rows) \<le> Suc (length (codex_rows q))"
    by (simp add: insert_or_ignore_def codex_rows_def)
  then have n: "length (filter (\<lambda>r. pe_source r = ''codex'') ?rows) \<le> 500"
    using assms(2) by simp
  have "r \<in> set (filter (\<lambda>r. pe_source r = ''codex'') (delete_expired (unix now) ?rows))"
    using assms(3-5) by (simp add: insert_or_ignore_def delete_expired_def)
  then have "r \<in> set (trim_queue (pe_session_id ?row) (unix now) ?rows)"
    unfolding trim_keeps_codex[OF d n, of "pe_session_id ?row", symmetric] by simp
  then show ?thesis
    by (simp add: enqueue_event_def Let_def)
qed

lemma daemon_step_keeps_row:
  assumes "daemon_step sha256_hex now d d'" "events_ok (q_events (dm_queue d))" "length (codex_rows (dm_queue d)) < 500"
    "r \<in> set (q_events (dm_queue d))" "pe_source r = ''codex''" "unix now < pe_expires_at r"
  shows "r \<in> set (q_events (dm_queue d'))"
  using assms by (induction rule: daemon_step.induct) (simp_all add: enqueue_keeps_row)

text \<open>The backend has taken the event: it answered a request with the event's identifier and body with 2xx or 409.\<close>

definition taken :: "uplink \<Rightarrow> string \<Rightarrow> string \<Rightarrow> http_request \<Rightarrow> bool" where
  "taken ul i body q \<longleftrightarrow> http_header ''X-NovaScale-Event-ID'' q = Some i \<and> rq_body q = body \<and>
     (case ul_answer ul 0 q of Inl _ \<Rightarrow> False | Inr status \<Rightarrow> 200 \<le> status \<and> status < 300 \<or> status = 409)"

lemma upload_keeps_row:
  assumes "upload_once v q = (again, q', reqs)" "events_ok (q_events q)" "rows_valid q" "r \<in> set (q_events q)"
    "pe_source r = ''codex''" "unix (uv_now v) < pe_expires_at r"
  shows "row_view r \<in> row_view ` set (q_events q') \<or> (\<exists>x \<in> set reqs. taken (uv_uplink v) (pe_event_id r) (pe_body r) x)"
proof -
  have kept: "r \<in> set (q_events q1)" if "next_for_backend (uv_now v) b q = (res, q1)" for b res q1
  proof -
    have next': "next_event (uv_now v) (trim_right (CHR ''/'') b) q = (res, q1)"
      using that by (simp add: next_for_backend_def)
    have "q_events q1 = delete_expired (unix (uv_now v)) (q_events q)"
      using next_event_some(2) next_event_none(3) next' by (cases res) blast+
    then show ?thesis
      using assms(4,6) by (simp add: delete_expired_def)
  qed
  from assms(1) show ?thesis
  proof (cases rule: upload_once_cases)
    case idle
    then show ?thesis using assms(4) by simp
  next
    case (none err)
    then show ?thesis using kept by blast
  next
    case (failed ev q1)
    have "row_view ` set (q_events q') = row_view ` set (q_events q1)"
      using arg_cong[OF retry_views, of set] unfolding failed(3) by simp
    then show ?thesis using kept[OF failed(1)] by blast
  next
    case (finished ev q1)
    show ?thesis
    proof (cases "qe_event_id ev = pe_event_id r")
      case False
      then show ?thesis
        using kept[OF finished(1)] by (auto simp: finished(3) complete_def)
    next
      case True
      obtain x where x: "x \<in> set (q_events q1)" "qe_event_id ev = pe_event_id x" "qe_body ev = pe_body x"
          "q_events q1 = delete_expired (unix (uv_now v)) (q_events q)"
        using next_for_backend_row[OF finished(1)] by metis
      then have "x \<in> set (q_events q)"
        by (simp add: delete_expired_def)
      then have xr: "x = r"
        using id_unique[of pe_event_id "q_events q" x r] assms(2,4) x(2) True by (simp add: events_ok_def)
      have "row_valid (row_view r)"
        using assms(3,4) by (simp add: rows_valid_def list_all_iff)
      then obtain e where e: "unmarshal_host_event (qe_body ev) = Inr e" "host_event_valid e" "event_source e = ''codex''"
        using assms(5) by (auto simp: row_valid_def row_view_def x(3) xr split: sum.splits)
      have d: "decoded ev = e"
        using decode_encoded[OF e(1)] by (simp add: decoded_def)
      have plain: "event_source e \<noteq> SourceHerdr" "ev_herdr_metadata e = None" "ev_event_type e \<noteq> EventTestNotification"
        using e(3) valid_codex_shape[OF e(2)] by (auto simp: protocol_consts event_type_valid_def event_type_defs)
      have "upload_to_backend (uv_uplink v) (uv_config v) ev 0 = (Inr (), reqs)"
        using assms(1) finished(1,2) by (auto simp: upload_once_def split: if_splits sum.splits prod.splits)
      from codex_upload_taken[OF this] plain show ?thesis
        unfolding d by (auto simp: taken_def request_headers x xr)
    qed
  qed
qed

text \<open>One action of the daemon.\<close>

definition taken_by :: "agent_action \<Rightarrow> string \<Rightarrow> string \<Rightarrow> http_request \<Rightarrow> bool" where
  "taken_by a i body q \<longleftrightarrow> (case a of UploadOne v \<Rightarrow> taken (uv_uplink v) i body q | _ \<Rightarrow> False)"

lemma live_codex_row:
  assumes "r \<in> set rows" "pe_source r = ''codex''" "unix now < pe_expires_at r" "live_codex now rows' = live_codex now rows"
  shows "r \<in> set rows'"
proof -
  have "r \<in> set (live_codex now rows')"
    unfolding assms(4) using assms(1-3) by (simp add: live_codex_def)
  then show ?thesis by (simp add: live_codex_def)
qed

lemma action_keeps_row:
  assumes "system_inv sha256_hex s" "action_ok a" "r \<in> set (q_events (sy_queue s))" "pe_source r = ''codex''"
    "length (codex_rows (sy_queue s)) < 500" "\<And>t. action_time a = Some t \<Longrightarrow> unix t < pe_expires_at r"
  shows "row_view r \<in> row_view ` set (q_events (sy_queue (fst (agent_do env en sha256_hex a s)))) \<or>
    (\<exists>q \<in> set (snd (agent_do env en sha256_hex a s)). taken_by a (pe_event_id r) (pe_body r) q)"
proof -
  have inv: "capture_inv sha256_hex (sy_daemon s)" "rows_valid (sy_queue s)" "events_ok (q_events (sy_queue s))"
    using assms(1) by (simp_all add: system_inv_def loop_inv_def capture_inv_def daemon_ok_def queue_ok_def)
  have signal: "r \<in> set (q_events (dm_queue (reconcile_signal env sha256_hex su e (sy_daemon s))))"
    if "surroundings_ok su" "unix (su_now su) < pe_expires_at r" for su e
    using live_codex_row[OF assms(3,4) that(2)] reconcile_signal_keeps(3)[OF inv(1) that(1)] by blast
  show ?thesis
  proof (cases a)
    case (Client uuid now peer_ok input)
    obtain reply d where h: "handle_connection sha256_hex uuid now peer_ok input (sy_daemon s) = (reply, d)"
      by fastforce
    have "r \<in> set (q_events (dm_queue d))"
      using daemon_step_keeps_row[OF handle_connection_step[OF h] inv(3) assms(5,3,4)] assms(6) Client by simp
    then show ?thesis by (simp add: Client h)
  next
    case ReceiveSignal
    have "sy_queue (put_loop (receive_dirty (loop_of s)) s) = sy_queue s"
      by (simp add: receive_dirty_def split: list.splits)
    then show ?thesis using assms(3) by (simp add: ReceiveSignal)
  next
    case (DrainSignal su key)
    then have "r \<in> set (q_events (dm_queue (hl_daemon (drain_one env sha256_hex su key (loop_of s)))))"
      using signal assms(2,3,6) by (auto simp: drain_one_def split: option.splits)
    then show ?thesis by (simp add: DrainSignal)
  next
    case (Baseline su e)
    then show ?thesis using signal assms(2,6) by simp
  next
    case (UploadOne v)
    let ?v = "v\<lparr>uv_config := dm_config (sy_daemon s)\<rparr>"
    obtain again q reqs where u: "upload_once ?v (sy_queue s) = (again, q, reqs)"
      by (metis prod_cases3)
    show ?thesis
      using upload_keeps_row[OF u inv(3,2) assms(3,4)] assms(6) by (simp add: UploadOne u taken_by_def)
  next
    case (Enroll i)
    obtain h l reqs where e: "enrollment_iteration en i (sy_host s, sy_loop s) = ((h, l), reqs)"
      by (metis prod.collapse)
    have "map row_view (q_events (dm_queue (hs_daemon h))) = map row_view (q_events (sy_queue s))"
      using iteration_keeps[OF e] by (simp add: keeps_def same_rows_def)
    from arg_cong[OF this, of set] show ?thesis
      using assms(3) by (simp add: Enroll e)
  next
    case (SwitchCapture on)
    then show ?thesis
      using assms(3,4) by (auto simp: set_herdr_capture_enabled_def Let_def is_herdr_def)
  qed (use assms(3) in simp_all)
qed

section \<open>Runs\<close>

text \<open>A run during which an event does not expire and the 500 places of the queue are not used up by Codex events.\<close>

fun roomy ::
  "environment \<Rightarrow> enrollment_env \<Rightarrow> (string \<Rightarrow> string) \<Rightarrow> int \<Rightarrow> agent_action list \<Rightarrow> agent_system \<Rightarrow> bool" where
  "roomy env en sha256_hex expiry [] s = True"
| "roomy env en sha256_hex expiry (a # as) s =
     (length (codex_rows (sy_queue s)) < 500 \<and> (case action_time a of None \<Rightarrow> True | Some t \<Rightarrow> unix t < expiry) \<and>
      roomy env en sha256_hex expiry as (fst (agent_do env en sha256_hex a s)))"

lemma view_fields: "row_view r = row_view x \<Longrightarrow> pe_event_id r = pe_event_id x \<and> pe_body r = pe_body x \<and>
    pe_source r = pe_source x \<and> pe_expires_at r = pe_expires_at x"
  by (simp add: row_view_def)

lemma run_keeps_row:
  assumes "system_inv sha256_hex s" "list_all action_ok as" "r \<in> set (q_events (sy_queue s))" "pe_source r = ''codex''"
    "roomy env en sha256_hex (pe_expires_at r) as s"
  shows "row_view r \<in> row_view ` set (q_events (sy_queue (fst (agent_run env en sha256_hex as s)))) \<or>
    (\<exists>a \<in> set as. \<exists>q \<in> set (snd (agent_run env en sha256_hex as s)). taken_by a (pe_event_id r) (pe_body r) q)"
  using assms
proof (induction as arbitrary: s r)
  case (Cons a as)
  let ?s = "fst (agent_do env en sha256_hex a s)"
  have t: "unix t < pe_expires_at r" if "action_time a = Some t" for t
    using Cons.prems(5) that by simp
  have ok: "action_ok a" and rest: "list_all action_ok as" and room: "length (codex_rows (sy_queue s)) < 500"
    "roomy env en sha256_hex (pe_expires_at r) as ?s"
    using Cons.prems(2,5) by simp_all
  have "row_view r \<in> row_view ` set (q_events (sy_queue ?s)) \<or>
      (\<exists>q \<in> set (snd (agent_do env en sha256_hex a s)). taken_by a (pe_event_id r) (pe_body r) q)"
    using action_keeps_row[OF Cons.prems(1) ok Cons.prems(3,4) room(1)] t by blast
  then show ?case
  proof (elim disjE bexE)
    fix q assume "q \<in> set (snd (agent_do env en sha256_hex a s))" "taken_by a (pe_event_id r) (pe_body r) q"
    then show ?thesis by (auto simp: agent_run_Cons)
  next
    assume "row_view r \<in> row_view ` set (q_events (sy_queue ?s))"
    then obtain x where x: "x \<in> set (q_events (sy_queue ?s))" "row_view r = row_view x" by blast
    note f = view_fields[OF x(2)]
    have "system_inv sha256_hex ?s"
      using agent_do_inv[OF Cons.prems(1) ok] .
    from Cons.IH[OF this rest x(1)] Cons.prems(4) room(2) show ?thesis
      using f x(2) by (auto simp: agent_run_Cons)
  qed
qed simp

section \<open>A silent capture\<close>

definition silent :: "queue \<Rightarrow> bool" where
  "silent q \<longleftrightarrow> q_adapter q \<noteq> Some True \<and> capture_off q"

lemma silent_step:
  assumes "silent q" "row_view ` set (q_events q') \<subseteq> row_view ` set (q_events q)" "q_bindings q' = q_bindings q"
    "q_panes q' = q_panes q" "q_adapter q' = q_adapter q"
  shows "silent q'"
proof -
  have "\<not> is_herdr x" if "x \<in> set (q_events q')" for x
  proof -
    have "row_view x \<in> row_view ` set (q_events q)"
      using subsetD[OF assms(2) imageI[OF that]] .
    then obtain r where r: "r \<in> set (q_events q)" "row_view x = row_view r"
      by (rule imageE)
    have "\<not> is_herdr r"
      using assms(1) r(1) by (simp add: silent_def capture_off_def list_all_iff)
    moreover have "pe_source x = pe_source r"
      using view_fields[OF r(2)] by blast
    ultimately show ?thesis by (simp add: is_herdr_def)
  qed
  then have "list_all (\<lambda>x. \<not> is_herdr x) (q_events q')"
    by (simp add: list_all_iff)
  then show ?thesis
    using assms(1,3-5) by (simp add: silent_def capture_off_def)
qed

lemma enqueue_codex_silent:
  assumes "silent q" "marshal_host_event e = Inr body" "host_event_wf e" "host_event_valid e" "event_source e = SourceCodex"
  shows "silent (enqueue_event i body now q)"
proof -
  have "\<not> is_herdr (new_row (q_backend q) i body now)"
    using new_row_valid[OF assms(2-4)] assms(5) by (simp add: is_herdr_def protocol_consts)
  then have "\<not> is_herdr r" if "r \<in> set (q_events (enqueue_event i body now q))" for r
    using that enqueue_subset[of i body now q] assms(1) by (auto simp: silent_def capture_off_def list_all_iff)
  then show ?thesis
    using assms(1) by (simp add: silent_def capture_off_def list_all_iff)
qed

lemma daemon_step_silent: "daemon_step sha256_hex now d d' \<Longrightarrow> silent (dm_queue d) \<Longrightarrow> silent (dm_queue d')"
  by (induction rule: daemon_step.induct) (auto intro: enqueue_codex_silent)

lemma upload_once_panes:
  assumes "upload_once v q = (again, q', reqs)"
  shows "q_panes q' = q_panes q"
proof -
  have n: "q_panes q1 = q_panes q" if "next_for_backend now b q = (res, q1)" for now b res q1
    using next_event_others that by (auto simp: next_for_backend_def)
  show ?thesis
    using assms by (cases rule: upload_once_cases) (auto simp: complete_def retry_def n)
qed

lemma same_rows_views: "same_rows q q' \<Longrightarrow> row_view ` set (q_events q') = row_view ` set (q_events q)"
  unfolding same_rows_def by (metis list.set_map)

lemma action_silent:
  assumes "silent (sy_queue s)" "a \<noteq> SwitchCapture True"
  shows "silent (sy_queue (fst (agent_do env en sha256_hex a s)))"
proof -
  have off: "reconcile_signal env sha256_hex su e (sy_daemon s) = sy_daemon s" for su e
    using assms(1) by (simp add: silent_def reconcile_signal_off)
  show ?thesis
  proof (cases a)
    case (Client uuid now peer_ok input)
    obtain reply d where h: "handle_connection sha256_hex uuid now peer_ok input (sy_daemon s) = (reply, d)"
      by fastforce
    then show ?thesis
      using daemon_step_silent[OF handle_connection_step[OF h] assms(1)] by (simp add: Client)
  next
    case (UploadOne v)
    obtain again q reqs where u: "upload_once (v\<lparr>uv_config := dm_config (sy_daemon s)\<rparr>) (sy_queue s) = (again, q, reqs)"
      by (metis prod_cases3)
    have "silent q"
      by (rule silent_step[OF assms(1) upload_once_views(1)[OF u] upload_once_views(2)[OF u] upload_once_panes[OF u] upload_once_views(3)[OF u]])
    then show ?thesis by (simp add: UploadOne u)
  next
    case (Enroll i)
    obtain h l reqs where e: "enrollment_iteration en i (sy_host s, sy_loop s) = ((h, l), reqs)"
      by (metis prod.collapse)
    have same: "same_rows (sy_queue s) (dm_queue (hs_daemon h))"
      using iteration_keeps[OF e] by (simp add: keeps_def)
    have "silent (dm_queue (hs_daemon h))"
      by (rule silent_step[OF assms(1)]) (use same same_rows_views[OF same] in \<open>simp_all add: same_rows_def\<close>)
    then show ?thesis by (simp add: Enroll e)
  next
    case (SwitchCapture on)
    then have "on = False"
      using assms(2) by simp
    moreover have "q_adapter (set_herdr_capture_enabled False q) \<noteq> Some True" for q
      by (simp add: set_herdr_capture_enabled_def)
    ultimately show ?thesis
      using disable_capture by (simp add: SwitchCapture silent_def)
  qed (use assms(1) off in \<open>auto simp: drain_one_def receive_dirty_def split: option.splits list.splits\<close>)
qed

lemma run_silent:
  "silent (sy_queue s) \<Longrightarrow> SwitchCapture True \<notin> set as \<Longrightarrow> silent (sy_queue (fst (agent_run env en sha256_hex as s)))"
  by (induction as arbitrary: s) (auto simp: agent_run_Cons action_silent)

end
