(* ===== verification/Delivery.thy ===== *)
theory Delivery
  imports Daemon
begin

text \<open>
  From a Codex hook or a Herdr plugin to the daemon: what the hook lets out of its payload, that an event
  it sends is acknowledged and queued, that the daemon stores exactly what it acknowledges, and that a
  repeated event is stored once.
\<close>

section \<open>The hook payload\<close>

definition hook_field :: "string \<Rightarrow> bool" where
  "hook_field k \<longleftrightarrow> is_field ''session_id'' k \<or> is_field ''turn_id'' k \<or> is_field ''hook_event_name'' k \<or>
     is_field ''request_id'' k \<or> is_field ''tool_use_id'' k"

lemma dec_members_keep:
  "(\<And>k v x. \<not> keep k \<Longrightarrow> f k v x = (x, True)) \<Longrightarrow> dec_members f (filter (\<lambda>(k, v). keep k) ms) x = dec_members f ms x"
  by (induction ms arbitrary: x) (auto split: prod.splits)

lemma hook_member_other: "\<not> hook_field k \<Longrightarrow> hook_input_member k v x = (x, True)"
  by (simp add: hook_field_def hook_input_member_def)

lemma read_hook_object:
  assumes "json_parse input = Some (JObj ms)" "length input \<le> MaxHookInput"
  shows "read_hook_input input =
    (let (i, ok) = dec_members hook_input_member ms zero_hook_input in if ok then Inr i else fail ''invalid hook JSON'')"
  using assms by (auto simp: read_hook_input_def json_parse_def Let_def split: option.splits if_splits prod.splits)

text \<open>C9: Nothing but the five whitelisted members of a hook payload influences the event the hook sends: two
  payloads within the size limit that agree on these members are normalised alike, whatever their tool
  input, assistant output or other members are.\<close>

theorem hook_forwards_identifiers_only:
  assumes "json_parse input = Some (JObj ms)" "json_parse input' = Some (JObj ms')"
    "length input \<le> MaxHookInput" "length input' \<le> MaxHookInput"
    "filter (\<lambda>(k, v). hook_field k) ms = filter (\<lambda>(k, v). hook_field k) ms'"
  shows "normalize_hook input now = normalize_hook input' now"
  using assms dec_members_keep[of hook_field hook_input_member, OF hook_member_other]
  by (simp add: normalize_hook_def read_hook_object) (metis (no_types, lifting))

definition sample_hook_members :: "(string \<times> json) list" where
  "sample_hook_members = [(''session_id'', JStr ''thread''), (''turn_id'', JStr ''turn''),
     (''hook_event_name'', JStr ''PermissionRequest''), (''tool_use_id'', JStr ''call_1'')]"

definition sample_payload :: string where
  "sample_payload = json_print (JObj (sample_hook_members @ [(''tool_input'', JStr ''rm -rf /'')]))"

lemma sample_payload_parses:
  "json_parse sample_payload = Some (JObj (sample_hook_members @ [(''tool_input'', JStr ''rm -rf /'')]))"
  "json_parse (json_print (JObj sample_hook_members)) = Some (JObj sample_hook_members)"
proof -
  have ok: "json_ok (JObj (sample_hook_members @ [(''tool_input'', JStr ''rm -rf /'')]))" "json_ok (JObj sample_hook_members)"
    by code_simp+
  then show "json_parse sample_payload = Some (JObj (sample_hook_members @ [(''tool_input'', JStr ''rm -rf /'')]))"
    "json_parse (json_print (JObj sample_hook_members)) = Some (JObj sample_hook_members)"
    unfolding sample_payload_def by (simp_all only: json_parse_print)
qed

lemma sample_payload_length: "length sample_payload \<le> MaxHookInput" "length (json_print (JObj sample_hook_members)) \<le> MaxHookInput"
proof -
  have "length sample_payload = 125" "length (json_print (JObj sample_hook_members)) = 101"
    by code_simp+
  then show "length sample_payload \<le> MaxHookInput" "length (json_print (JObj sample_hook_members)) \<le> MaxHookInput"
    by (simp_all add: MaxHookInput_def)
qed

theorem hook_forwards_identifiers_only_witness:
  "normalize_hook sample_payload zero_time = normalize_hook (json_print (JObj sample_hook_members)) zero_time"
proof -
  have "filter (\<lambda>(k, v). hook_field k) (sample_hook_members @ [(''tool_input'', JStr ''rm -rf /'')]) =
     filter (\<lambda>(k, v). hook_field k) sample_hook_members"
    by code_simp
  then show ?thesis
    by (rule hook_forwards_identifiers_only[OF sample_payload_parses sample_payload_length])
qed

definition hook_input_wf :: "codex_hook_input \<Rightarrow> bool" where
  "hook_input_wf i \<longleftrightarrow> list_all valid_utf8 [ci_session_id i, ci_turn_id i, ci_hook_event_name i, ci_request_id i, ci_tool_use_id i]"

lemma dec_hook_input_wf: "json_ok j \<Longrightarrow> hook_input_wf i \<Longrightarrow> hook_input_wf (fst (dec_struct hook_input_member j i))"
  by (erule (1) dec_struct_inv) (simp add: hook_input_member_def hook_input_wf_def fst_store dec_string_utf8)

lemma read_hook_input_ok: "read_hook_input input = Inr i \<Longrightarrow> hook_input_wf i \<and> length input \<le> MaxHookInput"
proof -
  assume "read_hook_input input = Inr i"
  then obtain j rest where j: "parse_prefix (take (MaxHookInput + 1) input) = Some (j, rest)"
    "dec_struct hook_input_member j zero_hook_input = (i, True)" "length input \<le> MaxHookInput"
    by (auto simp: read_hook_input_def Let_def split: option.splits prod.splits if_splits)
  have "hook_input_wf zero_hook_input"
    by (simp add: hook_input_wf_def zero_hook_input_def)
  then show ?thesis
    using dec_hook_input_wf[OF parse_prefix_ok[OF j(1)]] j(2,3) by (metis fst_conv)
qed

lemma normalize_hook_ok:
  assumes "normalize_hook input now = Inr e"
  shows "hook_event_wf e \<and> he_protocol_version e = Version \<and> event_type_valid (he_event_type e) \<and>
    he_thread_id e \<noteq> [] \<and> he_turn_id e \<noteq> [] \<and> he_occurred_at e = utc now \<and> length input \<le> MaxHookInput"
proof -
  obtain i where i: "read_hook_input input = Inr i" "hook_input_event now i = Inr e"
    using assms by (auto simp: normalize_hook_def split: sum.splits)
  have "valid_utf8 EventApprovalRequired" "valid_utf8 EventTurnStopped"
    by code_simp+
  then show ?thesis
    using read_hook_input_ok[OF i(1)] i(2)
    by (auto simp: hook_input_event_def hook_input_wf_def hook_event_wf_def event_type_valid_def Let_def Version_def
        int64_def split: if_splits)
qed

lemma normalized_event_valid:
  assumes "normalize_hook input now = Inr e" "\<not> is_zero_time now"
  shows "validate_hook_event e \<longleftrightarrow>
    valid_id (he_thread_id e) \<and> valid_id (he_turn_id e) \<and> (he_request_id e = [] \<or> valid_id (he_request_id e))"
  using normalize_hook_ok[OF assms(1)] assms(2)
  by (auto simp: validate_hook_event_def host_event_valid_def is_zero_time_def utc_def)

section \<open>Requests are told apart\<close>

lemma dec_members_skip: "list_all (\<lambda>(k, v). \<forall>x. f k v x = (x, True)) ms \<Longrightarrow> dec_members f ms x = (x, True)"
  by (induction ms arbitrary: x) auto

lemma info_member_other: "\<not> is_field ''type'' k \<Longrightarrow> info_request_member k v x = (x, True)"
  by (simp add: info_request_member_def)

lemma hook_keys_no_info:
  "info_request_member ''protocolVersion'' v x = (x, True)" "info_request_member ''eventType'' v x = (x, True)"
  "info_request_member ''threadId'' v x = (x, True)" "info_request_member ''turnId'' v x = (x, True)"
  "info_request_member ''requestId'' v x = (x, True)" "info_request_member ''occurredAt'' v x = (x, True)"
  by (simp_all add: info_request_member_def is_field_ascii ascii_def byte_def fold_rune_def)

lemma hook_keys_no_signal:
  "dirty_event_member ''protocolVersion'' v x = (x, True)" "dirty_event_member ''eventType'' v x = (x, True)"
  "dirty_event_member ''threadId'' v x = (x, True)" "dirty_event_member ''turnId'' v x = (x, True)"
  "dirty_event_member ''requestId'' v x = (x, True)" "dirty_event_member ''occurredAt'' v x = (x, True)"
  by (simp_all add: dirty_event_member_def is_field_ascii ascii_def byte_def fold_rune_def)

lemma hook_json_not_info:
  assumes "hook_event_json e = Some j"
  shows "dec_struct info_request_member j x = (x, True)" "dec_struct dirty_event_member j y = (y, True)"
  using assms
  by (auto simp: hook_event_json_def opt_member_def hook_keys_no_info hook_keys_no_signal split: option.splits)

lemma dirty_json_not_info:
  "dec_struct info_request_member (dirty_event_json s) \<lparr>dq_type = []\<rparr> = (\<lparr>dq_type = de_type s\<rparr>, True)"
proof -
  have f: "\<not> is_field ''type'' ''bindingKey''" "\<not> is_field ''type'' ''paneId''" "\<not> is_field ''type'' ''socketPath''"
    "\<not> is_field ''type'' ''baseline''"
    by (simp_all add: is_field_ascii ascii_def byte_def fold_rune_def)
  show ?thesis
    by (simp add: dirty_event_json_def dec_members_append dec_opt_member info_request_member_def f store_def)
qed

lemma parse_line:
  assumes "json_ok j" "length (encode_line j) \<le> n"
  shows "parse_prefix (take n (encode_line j)) = Some (j, [CHR 10])"
  using assms parse_prefix_layout[of j "\<lambda>_. []" "'':''" "[CHR 10]" 0]
  by (simp add: encode_line_def json_print_def layout_ok_def all_ws_def skip_ws_def is_ws_def ends_value_def)

section \<open>Replies\<close>

lemma read_replies:
  "read_ipc_response accepted = Inr \<lparr>ir_accepted = True, ir_error = []\<rparr>"
  "valid_utf8 msg \<Longrightarrow> read_ipc_response (rejected msg) = Inr \<lparr>ir_accepted = False, ir_error = msg\<rparr>"
  using response_codec.decode_encode[of "\<lparr>ir_accepted = True, ir_error = []\<rparr>" accepted]
    response_codec.decode_encode[of "\<lparr>ir_accepted = False, ir_error = msg\<rparr>" "rejected msg"]
  by (simp_all add: ipc_response_line_def accepted_def rejected_def)

lemma json_layout_depth: "json_layout (\<lambda>_. []) colon d v = json_layout (\<lambda>_. []) colon e v"
proof (induction v arbitrary: d e)
  case (JArr vs)
  then have "map (json_layout (\<lambda>_. []) colon (Suc d)) vs = map (json_layout (\<lambda>_. []) colon (Suc e)) vs"
    by (intro map_cong) auto
  then show ?case by (simp only: json_layout.simps)
next
  case (JObj ms)
  have "map (\<lambda>(k, v). json_quote k @ colon @ json_layout (\<lambda>_. []) colon (Suc d) v) ms =
      map (\<lambda>(k, v). json_quote k @ colon @ json_layout (\<lambda>_. []) colon (Suc e) v) ms"
  proof (rule map_cong [OF refl])
    fix x assume x: "x \<in> set ms"
    obtain k v where "x = (k, v)" by fastforce
    then show "(case x of (k, v) \<Rightarrow> json_quote k @ colon @ json_layout (\<lambda>_. []) colon (Suc d) v) =
        (case x of (k, v) \<Rightarrow> json_quote k @ colon @ json_layout (\<lambda>_. []) colon (Suc e) v)"
      using JObj[of x v "Suc d" "Suc e"] x by simp
  qed
  then show ?case by (simp only: json_layout.simps)
qed simp_all

lemma print_object:
  "json_print (JObj ((k, v) # ms)) = CHR ''{'' # json_quote k @ CHR '':'' # json_print v @
     (if ms = [] then ''}'' else CHR '','' # tl (json_print (JObj ms)))"
  by (cases ms) (auto simp: json_print_def json_layout_depth)

lemma quoted_names: "json_quote ''accepted'' = dquote # ''accepted'' @ [dquote]" "json_quote ''version'' = dquote # ''version'' @ [dquote]"
  "json_quote ''capabilities'' = dquote # ''capabilities'' @ [dquote]"
  by code_simp+

lemma reply_texts:
  "rejected msg ! 12 = CHR ''f''" "accepted ! 12 = CHR ''t''" "accepted ! 2 = CHR ''a''"
  "encode_line (info_response_json (daemon_info d)) ! 2 \<noteq> CHR ''a''"
  by (simp_all add: rejected_def accepted_def encode_line_def ipc_response_json_def info_response_json_def daemon_info_def
      daemon_capabilities_def opt_member_def print_object quoted_names) (simp_all add: json_print_def)

lemma replies_differ: "rejected msg \<noteq> accepted" "encode_line (info_response_json (daemon_info d)) \<noteq> accepted"
proof -
  have "CHR ''f'' \<noteq> CHR ''t''"
    by simp
  then show "rejected msg \<noteq> accepted" "encode_line (info_response_json (daemon_info d)) \<noteq> accepted"
    using reply_texts(1,2,3) reply_texts(4)[of d] by metis+
qed

section \<open>Delivery\<close>

lemma encoded_hook_event:
  assumes "encode_hook_event e = Inr line" "hook_event_wf e"
  obtains j where "hook_event_json e = Some j" "line = encode_line j" "json_ok j"
    "dec_struct hook_event_member j zero_hook_event = (e, True)"
  using assms hook_event_json_ok dec_hook_event_json
  by (auto simp: encode_hook_event_def encode_line_def split: option.splits)

lemma handle_hook_line:
  assumes "encode_hook_event e = Inr line" "hook_event_wf e" "length line \<le> MaxIPCMessage"
  shows "handle_connection sha256_hex uuid now True line d = handle_hook_event sha256_hex uuid now e d"
proof -
  obtain j where j: "hook_event_json e = Some j" "line = encode_line j" "json_ok j"
    "dec_struct hook_event_member j zero_hook_event = (e, True)"
    using encoded_hook_event[OF assms(1,2)] .
  have "DaemonInfoRequestType \<noteq> []" "HerdrDirtyEventType \<noteq> []"
    by (simp_all add: protocol_consts)
  then show ?thesis
    using parse_line[OF j(3)] assms(3)
    by (simp add: handle_connection_def handle_value_def j(2,4) hook_json_not_info[OF j(1)] zero_dirty_event_def)
qed

lemma marshal_of_hook:
  assumes "encode_hook_event e = Inr line"
  obtains body where "marshal_host_event (host_event_of e) = Inr body"
  using assms by (auto simp: encode_hook_event_def hook_event_json_def marshal_host_event_def host_event_json_def
      host_event_of_def split: option.splits)

lemma handle_valid_event:
  assumes "encode_hook_event e = Inr line" "hook_event_wf e" "length line \<le> MaxIPCMessage" "validate_hook_event e"
    "event_id sha256_hex uuid (cf_host_id (dm_config d)) e = Inr i"
  obtains body where "unmarshal_host_event body = Inr (host_event_of e)"
    "handle_connection sha256_hex uuid now True line d =
       (accepted, d\<lparr>dm_queue := enqueue_event i body now (dm_queue d), dm_wake := True\<rparr>)"
proof -
  obtain body where body: "marshal_host_event (host_event_of e) = Inr body"
    using marshal_of_hook[OF assms(1)] .
  then have "unmarshal_host_event body = Inr (host_event_of e)"
    using host_codec.decode_encode host_event_of_wf[OF assms(2)] by blast
  then show ?thesis
    using that handle_hook_line[OF assms(1-3)] assms(4,5) body by (simp add: handle_hook_event_def)
qed

text \<open>C3: An event that the hook makes of a payload and sends over the socket is accepted by the daemon and its
  host event is put into the queue under the event's identifier, as long as the payload's identifiers are
  well formed and the encoded event fits into one message; the hook's client reports success.\<close>

theorem hook_event_delivered:
  assumes "normalize_hook payload now = Inr e" "\<not> is_zero_time now"
    "valid_id (he_thread_id e)" "valid_id (he_turn_id e)" "he_request_id e = [] \<or> valid_id (he_request_id e)"
    "encode_hook_event e = Inr line" "length line \<le> MaxIPCMessage"
    "event_id sha256_hex uuid (cf_host_id (dm_config d)) e = Inr i"
  shows "\<exists>body. unmarshal_host_event body = Inr (host_event_of e) \<and> host_event_valid (host_event_of e) \<and>
    handle_connection sha256_hex uuid later True line d =
      (accepted, d\<lparr>dm_queue := enqueue_event i body later (dm_queue d), dm_wake := True\<rparr>) \<and>
    send_ipc e (\<lambda>request. Some (fst (handle_connection sha256_hex uuid later True request d))) = Inr ()"
proof -
  have e: "hook_event_wf e" "validate_hook_event e"
    using normalize_hook_ok[OF assms(1)] normalized_event_valid[OF assms(1,2)] assms(3-5) by simp_all
  obtain body where b: "unmarshal_host_event body = Inr (host_event_of e)"
    "handle_connection sha256_hex uuid later True line d =
       (accepted, d\<lparr>dm_queue := enqueue_event i body later (dm_queue d), dm_wake := True\<rparr>)"
    using handle_valid_event[OF assms(6) e(1) assms(7) e(2) assms(8)] .
  have "send_ipc e (\<lambda>request. Some (fst (handle_connection sha256_hex uuid later True request d))) = Inr ()"
    using read_replies(1) by (simp add: send_ipc_def send_hook_ipc_def assms(6) b(2) read_ipc_response_def)
  then show ?thesis
    using b validated_host_event[OF e(2)] by blast
qed

lemma handle_signal_reply:
  "handle_signal sha256_hex s d = (reply, d') \<Longrightarrow>
     (if reply = accepted then check_signal sha256_hex s = None \<and> length (dm_dirty d) < herdr_dirty_capacity \<and>
        d' = d\<lparr>dm_dirty := dm_dirty d @ [s]\<rparr> else d' = d)"
  using replies_differ(1) by (auto simp: handle_signal_def split: option.splits if_splits)

lemma handle_hook_event_reply:
  assumes "hook_event_wf e" "handle_hook_event sha256_hex uuid now e d = (reply, d')"
  shows "if reply = accepted then \<exists>h body i. host_event_valid h \<and> event_source h = SourceCodex \<and>
      unmarshal_host_event body = Inr h \<and> d' = d\<lparr>dm_queue := enqueue_event i body now (dm_queue d), dm_wake := True\<rparr>
    else d' = d"
proof (cases "validate_hook_event e")
  case True
  then have h: "host_event_valid (host_event_of e)" "event_source (host_event_of e) = SourceCodex"
    using validated_host_event by auto
  have "marshal_host_event (host_event_of e) = Inr body \<Longrightarrow> unmarshal_host_event body = Inr (host_event_of e)" for body
    using host_codec.decode_encode host_event_of_wf[OF assms(1)] by blast
  then show ?thesis
    using assms(2) True h replies_differ(1) unfolding handle_hook_event_def by (fastforce split: sum.splits)
next
  case False
  then show ?thesis
    using assms(2) replies_differ(1) by (auto simp: handle_hook_event_def)
qed

text \<open>C5: What the daemon answers is what it did: a rejected request and an information request leave it as it
  was, and an acknowledged one came from a verified peer and put exactly one valid event into the queue or
  one checked signal into the channel.\<close>

theorem acknowledged_iff_stored:
  assumes "handle_connection sha256_hex uuid now peer_ok input d = (reply, d')"
  shows "if reply = accepted
    then peer_ok \<and>
      ((\<exists>e body i. host_event_valid e \<and> event_source e = SourceCodex \<and> unmarshal_host_event body = Inr e \<and>
          d' = d\<lparr>dm_queue := enqueue_event i body now (dm_queue d), dm_wake := True\<rparr>) \<or>
       (\<exists>s. check_signal sha256_hex s = None \<and> length (dm_dirty d) < herdr_dirty_capacity \<and>
          d' = d\<lparr>dm_dirty := dm_dirty d @ [s]\<rparr>))
    else d' = d"
proof (cases "peer_ok \<and> parse_prefix (take MaxIPCMessage input) \<noteq> None")
  case False
  then show ?thesis
    using assms replies_differ(1) by (auto simp: handle_connection_def split: if_splits option.splits)
next
  case True
  then obtain raw rest where raw: "parse_prefix (take MaxIPCMessage input) = Some (raw, rest)"
    by auto
  obtain info iok where i: "dec_struct info_request_member raw \<lparr>dq_type = []\<rparr> = (info, iok)" by fastforce
  obtain s sok where s: "dec_struct dirty_event_member raw zero_dirty_event = (s, sok)" by fastforce
  obtain e eok where e: "dec_struct hook_event_member raw zero_hook_event = (e, eok)" by fastforce
  have wf: "hook_event_wf e"
    using dec_hook_event_wf[OF parse_prefix_ok[OF raw] zero_wf(2)] e by simp
  have "handle_value sha256_hex uuid now raw d = (reply, d')"
    using assms raw True by (simp add: handle_connection_def)
  then have "(if iok \<and> dq_type info = DaemonInfoRequestType then (encode_line (info_response_json (daemon_info d)), d)
      else if sok \<and> de_type s = HerdrDirtyEventType then handle_signal sha256_hex s d
      else if \<not> eok then (rejected ''invalid event'', d) else handle_hook_event sha256_hex uuid now e d) = (reply, d')"
    by (simp only: handle_value_def i s e Let_def prod.case)
  then consider "reply = encode_line (info_response_json (daemon_info d))" "d' = d"
    | "handle_signal sha256_hex s d = (reply, d')" | "reply = rejected ''invalid event''" "d' = d"
    | "handle_hook_event sha256_hex uuid now e d = (reply, d')"
    by (metis prod.inject)
  then show ?thesis
  proof cases
    case 2
    then show ?thesis using handle_signal_reply[OF 2] True by (cases "reply = accepted") auto
  next
    case 4
    then show ?thesis using handle_hook_event_reply[OF wf 4] True by (cases "reply = accepted") simp_all
  qed (use replies_differ in simp_all)
qed

definition sample_daemon :: daemon where
  "sample_daemon = \<lparr>dm_config = sample_config, dm_version = ''0.1.0'', dm_queue = empty_queue, dm_dirty = [], dm_wake = False\<rparr>"

theorem acknowledged_iff_stored_witness:
  "handle_connection (\<lambda>s. s) (Inl ErrNoRows) (at_time 0) False ''{}'' sample_daemon = (rejected ''unauthorized peer'', sample_daemon) \<and>
   rejected ''unauthorized peer'' \<noteq> accepted"
proof -
  have h: "handle_connection (\<lambda>s. s) (Inl ErrNoRows) (at_time 0) False ''{}'' sample_daemon = (rejected ''unauthorized peer'', sample_daemon)"
    by (simp add: handle_connection_def)
  then show ?thesis
    using acknowledged_iff_stored[OF h] by (auto split: if_splits)
qed

text \<open>Whatever bytes any client sends, verified or not, the daemon stays within its bounds: the queue keeps
  its limits and distinct identifiers, the channel holds at most 128 signals, and every buffered signal has
  passed the checks of the daemon. Each request is one step of the abstract transition relation.\<close>

theorem connection_keeps_daemon_ok:
  assumes "daemon_ok sha256_hex d" "handle_connection sha256_hex uuid now peer_ok input d = (reply, d')"
  shows "daemon_ok sha256_hex d' \<and> daemon_step sha256_hex now d d'"
  using daemon_step_ok[OF handle_connection_step[OF assms(2)] assms(1)] handle_connection_step[OF assms(2)] by blast

theorem connection_keeps_daemon_ok_witness:
  "\<forall>input. daemon_ok id (snd (handle_connection id (Inl ErrNoRows) (at_time 0) True input sample_daemon))"
proof (rule allI)
  fix input
  have "events_ok []"
    by (simp add: events_ok_def herdr_count_def)
  then have "daemon_ok id sample_daemon"
    by (simp add: daemon_ok_def sample_daemon_def queue_ok_def empty_queue_def herdr_dirty_capacity_def)
  then show "daemon_ok id (snd (handle_connection id (Inl ErrNoRows) (at_time 0) True input sample_daemon))"
    using connection_keeps_daemon_ok[of id sample_daemon "Inl ErrNoRows" "at_time 0" True input]
    by (cases "handle_connection id (Inl ErrNoRows) (at_time 0) True input sample_daemon") simp
qed

section \<open>Repeated events\<close>

lemma valid_id_no_newline: "valid_id v \<Longrightarrow> CHR 10 \<notin> set v"
proof -
  have "chr 10 = CHR 10" by code_simp
  then show "valid_id v \<Longrightarrow> CHR 10 \<notin> set v"
    by (simp add: valid_id_def contains_any_iff)
qed

lemma event_key_inj:
  assumes "event_key host e = event_key host f" "validate_hook_event e" "validate_hook_event f"
  shows "he_event_type e = he_event_type f \<and> he_thread_id e = he_thread_id f \<and> he_turn_id e = he_turn_id f \<and>
    he_request_id e = he_request_id f"
proof -
  have nl: "CHR 10 \<notin> set (he_event_type e)" "CHR 10 \<notin> set (he_thread_id e)" "CHR 10 \<notin> set (he_turn_id e)"
    if "validate_hook_event e" for e
  proof -
    have "event_type_valid (he_event_type e)" "valid_id (he_thread_id e)" "valid_id (he_turn_id e)"
      using valid_codex_shape[of "host_event_of e"] validated_host_event[OF that]
      by (simp_all add: host_event_of_def protocol_consts)
    then show "CHR 10 \<notin> set (he_event_type e)" "CHR 10 \<notin> set (he_thread_id e)" "CHR 10 \<notin> set (he_turn_id e)"
      by (auto simp: event_type_valid_def EventApprovalRequired_def EventTurnStopped_def valid_id_no_newline)
  qed
  note k = assms(1)[unfolded event_key_def, simplified]
  show ?thesis
    using k nl[OF assms(2)] nl[OF assms(3)] split_first by metis
qed

lemma enqueue_again:
  "i \<in> set (event_ids q) \<Longrightarrow> set (q_events (enqueue_event i body now q)) \<subseteq> set (q_events q)"
  using keep_ranked_set keep_newest_set delete_expired_set
  unfolding event_ids_def set_map by (simp add: enqueue_duplicate trim_queue_def) blast

text \<open>C16: The hook may be run twice for one request. Two valid events of a host that carry a request identifier get
  the same event identifier exactly when they agree on type, thread, turn and request, provided the hash does not
  collide on them; an event without a request identifier (a stopped turn, for instance) is stored under the UUID that
  is drawn for it, so nothing tells two runs of its hook apart from two events; and an event whose identifier is still
  queued adds no row to the queue.\<close>

theorem repeated_event_stored_once:
  assumes "validate_hook_event e" "validate_hook_event f"
    "sha256_hex (event_key host e) = sha256_hex (event_key host f) \<Longrightarrow> event_key host e = event_key host f"
    "event_id sha256_hex uuid host e = Inr i"
  shows "(he_request_id e \<noteq> [] \<and> he_request_id f \<noteq> [] \<longrightarrow>
      (event_id sha256_hex uuid' host f = Inr i \<longleftrightarrow>
        he_event_type f = he_event_type e \<and> he_thread_id f = he_thread_id e \<and> he_turn_id f = he_turn_id e \<and>
        he_request_id f = he_request_id e)) \<and>
    (he_request_id e = [] \<longrightarrow> uuid = Inr i) \<and>
    (i \<in> set (event_ids q) \<longrightarrow> set (q_events (enqueue_event i body now q)) \<subseteq> set (q_events q))"
proof -
  have "event_id sha256_hex uuid' host f = Inr i \<longleftrightarrow>
      he_event_type f = he_event_type e \<and> he_thread_id f = he_thread_id e \<and> he_turn_id f = he_turn_id e \<and>
      he_request_id f = he_request_id e" if r: "he_request_id e \<noteq> []" "he_request_id f \<noteq> []"
  proof -
    have i: "sha256_hex (event_key host e) = i"
      using r(1) assms(4) by (simp add: event_id_def)
    have "event_key host e = event_key host f \<longleftrightarrow> he_event_type f = he_event_type e \<and>
        he_thread_id f = he_thread_id e \<and> he_turn_id f = he_turn_id e \<and> he_request_id f = he_request_id e"
      using event_key_inj[OF _ assms(1,2), of host] by (metis event_key_def)
    moreover have "event_id sha256_hex uuid' host f = Inr i \<longleftrightarrow> event_key host e = event_key host f"
      using r(2) assms(3) i by (metis event_id_def Inr_inject)
    ultimately show ?thesis by simp
  qed
  then show ?thesis
    using enqueue_again assms(4) by (auto simp: event_id_def)
qed

definition request_event :: hook_event where
  "request_event = \<lparr>he_protocol_version = Version, he_event_type = EventApprovalRequired, he_thread_id = ''thread'',
     he_turn_id = ''turn'', he_request_id = ''call_1'', he_occurred_at = at_time 1700000000\<rparr>"

definition pending_queue :: queue where
  "pending_queue = empty_queue\<lparr>q_events := [codex_row (event_key ''host'' request_event) 1700000000]\<rparr>"

text \<open>The witness instantiates the hash with the identity.\<close>

theorem repeated_event_stored_once_witness:
  "event_id (\<lambda>s. s) (Inl ErrNoRows) ''host'' request_event = Inr (event_key ''host'' request_event) \<and>
   (\<forall>body now. set (q_events (enqueue_event (event_key ''host'' request_event) body now pending_queue)) \<subseteq> set (q_events pending_queue))"
proof -
  have "validate_hook_event request_event" "he_request_id request_event \<noteq> []"
    "event_id (\<lambda>s. s) (Inl ErrNoRows) ''host'' request_event = Inr (event_key ''host'' request_event)"
    "event_key ''host'' request_event \<in> set (event_ids pending_queue)"
    by code_simp+
  then show ?thesis
    using repeated_event_stored_once[of request_event request_event "\<lambda>s. s" "''host''" "Inl ErrNoRows"] by blast
qed

definition request_line :: string where
  "request_line = (case encode_hook_event request_event of Inr line \<Rightarrow> line | Inl _ \<Rightarrow> [])"

theorem hook_event_delivered_witness:
  "\<forall>later. send_ipc request_event (\<lambda>request. Some (fst (handle_connection (\<lambda>s. s) (Inl ErrNoRows) later True request sample_daemon))) = Inr ()"
proof -
  have "read_hook_input sample_payload = Inr \<lparr>ci_session_id = ''thread'', ci_turn_id = ''turn'',
      ci_hook_event_name = ''PermissionRequest'', ci_request_id = [], ci_tool_use_id = ''call_1''\<rparr>"
    unfolding read_hook_object[OF sample_payload_parses(1) sample_payload_length(1)] by code_simp
  then have n: "normalize_hook sample_payload (at_time 1700000000) = Inr request_event"
    by (simp add: normalize_hook_def hook_input_event_def request_event_def Let_def at_time_def utc_def)
  have z: "\<not> is_zero_time (at_time 1700000000)"
    by code_simp
  have v: "valid_id (he_thread_id request_event)" "valid_id (he_turn_id request_event)" "valid_id (he_request_id request_event)"
    by code_simp+
  have line: "encode_hook_event request_event = Inr request_line" "length request_line = 147"
    by code_simp+
  have i: "event_id (\<lambda>s. s) (Inl ErrNoRows) (cf_host_id (dm_config sample_daemon)) request_event =
      Inr (event_key (cf_host_id (dm_config sample_daemon)) request_event)"
    by (simp add: event_id_def request_event_def)
  show ?thesis
    using hook_event_delivered[OF n z v(1,2) disjI2[OF v(3)] line(1) _ i] line(2)
    by (auto simp: MaxIPCMessage_def)
qed

section \<open>Signals of the plugin\<close>

lemma normalized_signal_checked:
  assumes "normalize_herdr_hook sha256_hex trigger payload socket = Inr s"
    "\<And>x. length (sha256_hex x) = 64 \<and> hex_decodes (sha256_hex x)"
  shows "check_signal sha256_hex s = None \<and> de_type s = HerdrDirtyEventType"
proof -
  have sock: "\<not> bad_socket_text socket"
    using assms(1) by (auto simp: normalize_herdr_hook_def split: if_splits)
  then have a: "is_abs socket"
    by (simp add: bad_socket_text_def)
  have "\<not> bad_socket_text (clean_path socket)"
    using sock clean_path_length[OF a] clean_path_chars[OF a] by (auto simp: bad_socket_text_def contains_any_iff)
  moreover have "length (herdr_binding_key sha256_hex x) = 64" "hex_decodes (herdr_binding_key sha256_hex x)" for x
    using assms(2) by (simp_all add: herdr_binding_key_def)
  ultimately show ?thesis
    using assms(1) by (auto simp: normalize_herdr_hook_def check_signal_def bad_socket_text_def Let_def split: if_splits sum.splits)
qed

text \<open>A signal the Herdr plugin makes of a hook passes every check of the daemon and is buffered for the
  reconciler, if the channel has room: the two ends agree on the binding key of a cleaned socket path, the
  bounds of its text and the rules for panes.\<close>

theorem herdr_signal_delivered:
  assumes "normalize_herdr_hook sha256_hex trigger payload socket = Inr s"
    "\<And>x. length (sha256_hex x) = 64 \<and> hex_decodes (sha256_hex x)"
    "dirty_event_wf s" "encode_dirty_event s = Inr line" "length line \<le> MaxIPCMessage"
    "length (dm_dirty d) < herdr_dirty_capacity"
  shows "handle_connection sha256_hex uuid now True line d = (accepted, d\<lparr>dm_dirty := dm_dirty d @ [s]\<rparr>)"
proof -
  have s: "check_signal sha256_hex s = None" "de_type s = HerdrDirtyEventType"
    using normalized_signal_checked[OF assms(1,2)] by simp_all
  have line: "line = encode_line (dirty_event_json s)"
    using assms(4) by (simp add: encode_dirty_event_def encode_line_def)
  have "HerdrDirtyEventType \<noteq> DaemonInfoRequestType"
    by (simp add: protocol_consts)
  then show ?thesis
    using s assms(5,6) parse_line[OF dirty_event_json_ok[OF assms(3)], of MaxIPCMessage]
    by (simp add: handle_connection_def handle_value_def line dirty_json_not_info dec_dirty_event_json handle_signal_def
        split: prod.splits)
qed

definition startup_signal :: herdr_dirty_event where
  "startup_signal = \<lparr>de_type = HerdrDirtyEventType, de_binding_key = replicate 64 (CHR ''a''), de_pane_id = [],
     de_socket_path = ''/run/herdr.sock'', de_baseline = True\<rparr>"

theorem herdr_signal_delivered_witness:
  "normalize_herdr_hook (\<lambda>_. replicate 64 (CHR ''a'')) ''startup'' [] ''/run/./herdr.sock'' = Inr startup_signal \<and>
   snd (handle_connection (\<lambda>_. replicate 64 (CHR ''a'')) (Inl ErrNoRows) (at_time 0) True
     (encode_line (dirty_event_json startup_signal)) sample_daemon) = sample_daemon\<lparr>dm_dirty := [startup_signal]\<rparr>"
proof -
  have n: "normalize_herdr_hook (\<lambda>_. replicate 64 (CHR ''a'')) ''startup'' [] ''/run/./herdr.sock'' = Inr startup_signal"
  proof -
    have "clean_path ''/run/./herdr.sock'' = ''/run/herdr.sock''" "is_abs ''/run/./herdr.sock''"
      "\<not> contains_any ''/run/./herdr.sock'' [chr 0, chr 13, chr 10]"
      by code_simp+
    then show ?thesis
      by (simp add: normalize_herdr_hook_def bad_socket_text_def herdr_binding_key_def startup_signal_def)
  qed
  have h: "length (replicate 64 (CHR ''a'')) = 64 \<and> hex_decodes (replicate 64 (CHR ''a''))"
    by code_simp
  have w: "dirty_event_wf startup_signal" "length (encode_line (dirty_event_json startup_signal)) = 162"
    by code_simp+
  have e: "encode_dirty_event startup_signal = Inr (encode_line (dirty_event_json startup_signal))"
    by (simp only: encode_dirty_event_def encode_line_def)
  have l: "length (encode_line (dirty_event_json startup_signal)) \<le> MaxIPCMessage"
    unfolding w(2) by (simp add: MaxIPCMessage_def)
  have r: "length (dm_dirty sample_daemon) < herdr_dirty_capacity" "dm_dirty sample_daemon = []"
    by (simp_all add: herdr_dirty_capacity_def sample_daemon_def)
  show ?thesis
    using n herdr_signal_delivered[OF n h w(1) e l r(1), of "Inl ErrNoRows" "at_time 0"] r(2) by (metis append_Nil snd_conv)
qed

end
