(* ===== verification/Enrollment_Samples.thy ===== *)
theory Enrollment_Samples
  imports Enrollment Delivery
begin

text \<open>
  Concrete runs of the enrollment loop: each theorem of \<open>Enrollment\<close> is applied to a configuration file, a
  backend and a daemon on which its hypotheses hold.
\<close>

definition sample_enrollment :: enrollment_env where
  "sample_enrollment = \<lparr>en_config_path = ''/c/config.json'', en_legacy_path = ''/c/pending-setup-token'',
     en_signer = \<lparr>sg_sha256 = (\<lambda>s. s), sg_sign = toy_sign, sg_key = replicate 64 (CHR ''k'')\<rparr>,
     en_poll = 5 * second, en_min = second, en_max = 60 * second\<rparr>"

definition host_with :: "string \<Rightarrow> host_state" where
  "host_with state =
     (let c = sample_config\<lparr>cf_registration_state := state\<rparr>
      in \<lparr>hs_daemon = sample_daemon\<lparr>dm_config := c\<rparr>,
          hs_files = (\<lambda>p. if p = ''/c/config.json''
            then Some \<lparr>fi_mode = 384, fi_content = (case config_text c of Inr t \<Rightarrow> t | Inl _ \<Rightarrow> [])\<rparr> else None)\<rparr>)"

definition token_body :: string where
  "token_body = json_print (JObj [(''enrollmentToken'', JStr (b64_encode (replicate 32 (CHR ''t'')))),
     (''expiresAt'', JStr ''2023-11-14T23:13:20Z'')])"

definition sample_input :: "bool \<Rightarrow> enrollment_input" where
  "sample_input writable = \<lparr>ei_lock = True, ei_writable = writable, ei_removable = True, ei_now = at_time 1700000000,
     ei_client = (\<lambda>_. Inr \<lparr>rs_status = 200, rs_body = Inr token_body\<rparr>)\<rparr>"

definition refreshed :: "string \<Rightarrow> host_state" where
  "refreshed state = (case refresh_config sample_enrollment (host_with state) of Inr s \<Rightarrow> s | Inl _ \<Rightarrow> host_with state)"

lemma refreshed_ok:
  "refresh_config sample_enrollment (host_with RegistrationPending) = Inr (refreshed RegistrationPending)"
  "refresh_config sample_enrollment (host_with RegistrationIdentityConflict) = Inr (refreshed RegistrationIdentityConflict)"
  "refresh_config sample_enrollment (host_with RegistrationNeedsSetupToken) = Inr (refreshed RegistrationNeedsSetupToken)"
proof -
  have "is_ok (refresh_config sample_enrollment (host_with RegistrationPending))"
    "is_ok (refresh_config sample_enrollment (host_with RegistrationIdentityConflict))"
    "is_ok (refresh_config sample_enrollment (host_with RegistrationNeedsSetupToken))"
    by code_simp+
  then show "refresh_config sample_enrollment (host_with RegistrationPending) = Inr (refreshed RegistrationPending)"
    "refresh_config sample_enrollment (host_with RegistrationIdentityConflict) = Inr (refreshed RegistrationIdentityConflict)"
    "refresh_config sample_enrollment (host_with RegistrationNeedsSetupToken) = Inr (refreshed RegistrationNeedsSetupToken)"
    by (auto simp: refreshed_def is_ok_iff)
qed

lemma refreshed_state:
  "cf_registration_state (conf (refreshed RegistrationPending)) = RegistrationPending"
  "cf_registration_state (conf (refreshed RegistrationIdentityConflict)) = RegistrationIdentityConflict"
  "cf_registration_state (conf (refreshed RegistrationNeedsSetupToken)) = RegistrationNeedsSetupToken"
  by code_simp+

lemma sample_env_ok: "env_ok sample_enrollment"
  by (simp add: env_ok_def sample_enrollment_def)


theorem enrollment_reachable_witness:
  "\<forall>i fs. enrollment_inv sample_enrollment sample_daemon
     (fst (enrollment_iteration sample_enrollment i (\<lparr>hs_daemon = sample_daemon, hs_files = fs\<rparr>, initial_loop sample_enrollment)))"
  by (intro allI enrollment_reachable[OF sample_env_ok] reachable.intros)

theorem enrollment_backoff_witness:
  "lp_delay (retry_loop sample_enrollment ((retry_loop sample_enrollment ^^ 6) (initial_loop sample_enrollment))) = 60 * second"
  using enrollment_backoff[OF sample_env_ok, of "initial_loop sample_enrollment" 6]
  by (simp add: initial_loop_def sample_enrollment_def)

theorem identity_conflict_rests_witness:
  "\<forall>i l. snd (enrollment_iteration sample_enrollment i (host_with RegistrationIdentityConflict, l)) = []"
  using identity_conflict_rests[OF refreshed_ok(2) refreshed_state(2)] by (metis snd_conv)

theorem failed_migration_spins_witness:
  "\<forall>l. \<exists>l'. enrollment_iteration sample_enrollment (sample_input False) (host_with RegistrationNeedsSetupToken, l) =
     ((refreshed RegistrationNeedsSetupToken, l'), []) \<and> lp_delay l' = 0"
  using failed_migration_spins[OF refreshed_ok(3) refreshed_state(3), of "sample_input False"]
  by (auto simp: sample_enrollment_def sample_input_def)


text \<open>The witness of \<open>registered_only_when_accepted\<close> runs the same iteration.\<close>

theorem registered_only_when_accepted_witness:
  "\<exists>s' l' qs. enrollment_iteration sample_enrollment (sample_input True) (host_with RegistrationPending, initial_loop sample_enrollment) =
     ((s', l'), qs) \<and> (\<exists>q1 q2 response. qs = [q1, q2] \<and> ei_client (sample_input True) q2 = Inr response \<and>
       200 \<le> rs_status response \<and> rs_status response < 300)"
proof -
  obtain s' l' qs where run: "enrollment_iteration sample_enrollment (sample_input True)
      (host_with RegistrationPending, initial_loop sample_enrollment) = ((s', l'), qs)"
    by (metis prod_cases3 surj_pair)
  have "(case enrollment_iteration sample_enrollment (sample_input True) (host_with RegistrationPending, initial_loop sample_enrollment) of
      ((s', _), _) \<Rightarrow> cf_registration_state (conf s')) = RegistrationActive"
    by code_simp
  then have "cf_registration_state (conf s') = RegistrationActive"
    by (simp add: run)
  then show ?thesis
    using registered_only_when_accepted[OF run] run refreshed_ok(1) refreshed_state(1) states_differ by auto
qed

end
