(* ===== verification/Reconcile_Repeat.thy ===== *)
theory Reconcile_Repeat
  imports Reconcile
begin

text \<open>
  The stored panes after \<open>ReconcileHerdr\<close> and the consequence for a repeated snapshot. The table of panes
  is used through the laws of an upsert table, stated as a locale.
\<close>

section \<open>Upsert tables\<close>

locale upsert_table =
  fixes key :: "'r \<Rightarrow> 'k" and find_row :: "'k \<Rightarrow> 'r list \<Rightarrow> 'r option" and put_row :: "'r \<Rightarrow> 'r list \<Rightarrow> 'r list"
  assumes find_put: "find_row k (put_row r rows) = (if k = key r then Some r else find_row k rows)"
begin

lemma find_put_all:
  "distinct (map f as) \<Longrightarrow> (\<And>a b. a \<in> set as \<Longrightarrow> b \<in> set as \<Longrightarrow> key (g a) = key (g b) \<Longrightarrow> f a = f b) \<Longrightarrow> a \<in> set as \<Longrightarrow>
     find_row (key (g a)) (foldl (\<lambda>rows a. put_row (g a) rows) rows as) = Some (g a)"
proof (induction as arbitrary: rows rule: rev_induct)
  case (snoc b as)
  show ?case
  proof (cases "a = b")
    case False
    then have a: "a \<in> set as"
      using snoc.prems by auto
    moreover have "f a \<noteq> f b"
      using snoc.prems(1) imageI[OF a, of f] by auto
    ultimately have "key (g a) \<noteq> key (g b)"
      using snoc.prems(2)[of a b] by auto
    then show ?thesis
      using snoc a by (auto simp: find_put)
  qed (simp add: find_put)
qed simp

lemma find_put_other:
  "(\<And>a. a \<in> set as \<Longrightarrow> key (g a) \<noteq> k) \<Longrightarrow> find_row k (foldl (\<lambda>rows a. put_row (g a) rows) rows as) = find_row k rows"
  by (induction as arbitrary: rows) (auto simp: find_put)

end

definition pane_key :: "herdr_pane \<Rightarrow> string \<times> string" where
  "pane_key p = (hp_binding_key p, hp_pane_id p)"

definition lookup_pane :: "string \<times> string \<Rightarrow> herdr_pane list \<Rightarrow> herdr_pane option" where
  "lookup_pane k rows = find_pane (fst k) (snd k) rows"

lemma find_none_put: "find P xs = None \<Longrightarrow> P r \<Longrightarrow> find P (xs @ [r]) = Some r"
  by (induction xs) auto

lemma find_append_other: "\<not> P r \<Longrightarrow> find P (xs @ [r]) = find P xs"
  by (induction xs) auto

lemma find_map_replace: "find P xs \<noteq> None \<Longrightarrow> P r \<Longrightarrow> find P (map (\<lambda>x. if P x then r else x) xs) = Some r"
  by (induction xs) auto

lemma find_map_unchanged: "(\<And>x. Q x \<Longrightarrow> \<not> P x) \<Longrightarrow> \<not> P r \<Longrightarrow> find P (map (\<lambda>x. if Q x then r else x) xs) = find P xs"
  by (induction xs) auto

interpretation panes: upsert_table pane_key lookup_pane put_pane
proof
  fix k and r :: herdr_pane and rows
  let ?Q = "\<lambda>o1. hp_binding_key o1 = hp_binding_key r \<and> hp_pane_id o1 = hp_pane_id r"
  show "lookup_pane k (put_pane r rows) = (if k = pane_key r then Some r else lookup_pane k rows)"
  proof (cases "k = pane_key r")
    case True
    then show ?thesis
      using find_none_put[of ?Q rows r] find_map_replace[of ?Q rows r]
      by (cases "find ?Q rows") (auto simp: lookup_pane_def put_pane_def pane_key_def find_pane_def)
  next
    case False
    then have "\<not> (hp_binding_key r = fst k \<and> hp_pane_id r = snd k)"
      by (cases k) (auto simp: pane_key_def)
    then show ?thesis
      using False by (auto simp: lookup_pane_def put_pane_def find_pane_def intro!: find_append_other find_map_unchanged)
  qed
qed

section \<open>The panes of a snapshot\<close>

definition pane_seen :: "string \<Rightarrow> herdr_pane list \<Rightarrow> herdr_agent \<Rightarrow> bool" where
  "pane_seen key rows a \<longleftrightarrow>
     (case find_pane key (ha_pane_id a) rows of
        None \<Rightarrow> False
      | Some p \<Rightarrow> hp_terminal_id p = ha_terminal_id a \<and> hp_sequence p = ha_sequence a \<and> hp_status p = ha_status a)"

lemma observed_key: "pane_key (observed_pane key now a) = (key, ha_pane_id a)"
  by (simp add: pane_key_def observed_pane_def)

lemma observed_all:
  assumes "distinct (map ha_pane_id as)" "a \<in> set as"
  shows "find_pane key (ha_pane_id a) (foldl (\<lambda>ps a. put_pane (observed_pane key now a) ps) rows as)
       = Some (observed_pane key now a)"
  using panes.find_put_all[of ha_pane_id as "observed_pane key now" a rows] assms
  by (simp add: observed_key lookup_pane_def)

lemma find_filter: "(\<And>x. P x \<Longrightarrow> Q x) \<Longrightarrow> find P (filter Q xs) = find P xs"
  by (induction xs) auto

lemma put_pane_keys: "pane_key ` set (put_pane r rows) = insert (pane_key r) (pane_key ` set rows)"
  by (auto simp: put_pane_def pane_key_def find_pane_def find_None_iff image_iff split: if_splits option.splits)

text \<open>After a reconciliation the panes of the binding are those of the snapshot, each as it was observed.\<close>

lemma reconcile_panes:
  assumes "reconcile_herdr env uuid binding agents incarnation baseline now q = Inr q'"
    "binding_active (hb_binding_key binding) q" "list_all agent_wf agents" "session_wf (hb_session_id binding)" "\<not> is_zero_time now" "events_ok (q_events q)"
    "distinct (map ha_pane_id agents)"
  shows "\<forall>a \<in> set agents. find_pane (hb_binding_key binding) (ha_pane_id a) (q_panes q')
           = Some (observed_pane (hb_binding_key binding) now a)"
    "hp_pane_id ` {p \<in> set (q_panes q'). hp_binding_key p = hb_binding_key binding} \<subseteq> ha_pane_id ` set agents"
    "\<exists>b. find_binding (hb_binding_key binding) q' = Some b \<and> hb_incarnation b = incarnation \<and> hb_enabled b"
    "q_adapter q' = Some True"
proof -
  let ?key = "hb_binding_key binding"
  from reconcile_cases[OF assms(1,2)] obtain stored q2 n where r: "find_binding ?key q = Some stored" "hb_enabled stored"
    "q_adapter q = Some True"
    "reconcile_agents env uuid binding (baseline \<or> incarnation \<noteq> hb_incarnation stored) now agents
       (begin_incarnation binding (hb_incarnation stored) incarnation now q, 0) = Inr (q2, n)"
    "q' = foldl (\<lambda>q pane. remove_pane binding pane q) q2 (removed_panes ?key agents (q_panes q2))"
    by blast
  let ?q1 = "begin_incarnation binding (hb_incarnation stored) incarnation now q"
  have q2: "q_bindings q2 = q_bindings ?q1" "q_adapter q2 = Some True"
    "q_panes q2 = foldl (\<lambda>ps a. put_pane (observed_pane ?key now a) ps) (q_panes ?q1) agents"
    using agents_rows[OF r(4) assms(3-5)] begin_ok[OF assms(6)] r(3) by auto
  let ?gone = "removed_panes ?key agents (q_panes q2)"
  have q': "q_bindings q' = q_bindings ?q1" "q_adapter q' = Some True"
    "q_panes q' = filter (\<lambda>x. \<not> (hp_binding_key x = ?key \<and> hp_pane_id x \<in> set ?gone)) (q_panes q2)"
    using remove_all_rows[of binding q2 ?gone now] r(5) q2 by auto
  have kept: "p \<notin> set ?gone" if "p \<in> ha_pane_id ` set agents" for p
    using that by (auto simp: removed_panes_def) (metis image_eqI)
  show "\<forall>a \<in> set agents. find_pane ?key (ha_pane_id a) (q_panes q') = Some (observed_pane ?key now a)"
  proof
    fix a assume a: "a \<in> set agents"
    have "find_pane ?key (ha_pane_id a) (q_panes q') = find_pane ?key (ha_pane_id a) (q_panes q2)"
      unfolding q'(3) find_pane_def using kept a by (intro find_filter) auto
    then show "find_pane ?key (ha_pane_id a) (q_panes q') = Some (observed_pane ?key now a)"
      using observed_all[OF assms(7) a] q2(3) by simp
  qed
  show "hp_pane_id ` {p \<in> set (q_panes q'). hp_binding_key p = ?key} \<subseteq> ha_pane_id ` set agents"
    by (auto simp: q'(3) removed_panes_def)
  have "find_binding ?key ?q1 = Some (stored\<lparr>hb_incarnation := incarnation, hb_updated_at := unix now\<rparr>)"
  proof -
    have "find (\<lambda>b. hb_binding_key b = k) (map (\<lambda>c. if hb_binding_key c = k then f c else c) bs) =
        map_option f (find (\<lambda>b. hb_binding_key b = k) bs)" if "\<And>c. hb_binding_key (f c) = hb_binding_key c"
      for k bs and f :: "herdr_binding \<Rightarrow> herdr_binding"
      using that by (induction bs) auto
    then show ?thesis
      using r(1) by (simp add: find_binding_def begin_incarnation_def Let_def)
  qed
  then show "\<exists>b. find_binding ?key q' = Some b \<and> hb_incarnation b = incarnation \<and> hb_enabled b"
    using r(2) q'(1) by (simp add: find_binding_def)
  show "q_adapter q' = Some True" by (rule q'(2))
qed

section \<open>A repeated snapshot\<close>

lemma seen_not_initial:
  "find_pane key (ha_pane_id a) rows = Some p \<Longrightarrow> hp_terminal_id p = ha_terminal_id a \<Longrightarrow> hp_sequence p = ha_sequence a \<Longrightarrow>
     \<not> initial_observation (find_pane key (ha_pane_id a) rows) a \<and> type_to_send b (find_pane key (ha_pane_id a) rows) a = []"
  by (simp add: initial_observation_def type_to_send_def pane_state_def)

lemma find_other_pane:
  "(key, pane) \<noteq> pane_key p \<Longrightarrow> find_pane key pane (put_pane p rows) = find_pane key pane rows"
  using panes.find_put[of "(key, pane)" p rows] by (simp add: lookup_pane_def)

lemma repeat_agents:
  assumes "distinct (map ha_pane_id as)" "\<forall>a \<in> set as. pane_seen (hb_binding_key binding) (q_panes (fst s)) a"
  shows "\<exists>s'. reconcile_agents env uuid binding b now as s = Inr s' \<and> q_events (fst s') = q_events (fst s) \<and>
    pane_key ` set (q_panes (fst s')) \<subseteq> pane_key ` set (q_panes (fst s)) \<union> (\<lambda>a. (hb_binding_key binding, ha_pane_id a)) ` set as"
  using assms
proof (induction as arbitrary: s)
  case (Cons a as)
  let ?key = "hb_binding_key binding"
  obtain p where p: "find_pane ?key (ha_pane_id a) (q_panes (fst s)) = Some p" "hp_terminal_id p = ha_terminal_id a"
      "hp_sequence p = ha_sequence a"
    using Cons.prems(2) by (auto simp: pane_seen_def split: option.splits)
  note quiet = seen_not_initial[OF p]
  let ?q1 = "observe_agent binding now a (fst s)"
  have e: "q_events ?q1 = q_events (fst s)"
    using quiet by (simp add: observe_agent_def Let_def)
  have step: "reconcile_agent env uuid binding b now a s = Inr (?q1, snd s)"
    using quiet by (simp add: reconcile_agent_observe agent_transition_def send_transition_def)
  have seen: "\<forall>c \<in> set as. pane_seen ?key (q_panes ?q1) c"
  proof
    fix c assume c: "c \<in> set as"
    then have "ha_pane_id c \<noteq> ha_pane_id a"
      using Cons.prems(1) imageI[OF c, of ha_pane_id] by (metis distinct.simps(2) list.set_map list.simps(9))
    then have "find_pane ?key (ha_pane_id c) (q_panes ?q1) = find_pane ?key (ha_pane_id c) (q_panes (fst s))"
      by (simp add: find_other_pane observed_key)
    then show "pane_seen ?key (q_panes ?q1) c"
      using Cons.prems(2) c by (simp add: pane_seen_def)
  qed
  obtain s' where s': "reconcile_agents env uuid binding b now as (?q1, snd s) = Inr s'" "q_events (fst s') = q_events ?q1"
      "pane_key ` set (q_panes (fst s')) \<subseteq> pane_key ` set (q_panes ?q1) \<union> (\<lambda>a. (?key, ha_pane_id a)) ` set as"
    using Cons.IH[of "(?q1, snd s)"] Cons.prems(1) seen by auto
  have "pane_key ` set (q_panes ?q1) = insert (?key, ha_pane_id a) (pane_key ` set (q_panes (fst s)))"
    by (simp add: put_pane_keys observed_key)
  then show ?case
    using s' step e by auto
qed auto

lemma repeat_no_removal:
  assumes "pane_key ` set rows' \<subseteq> pane_key ` set rows \<union> (\<lambda>a. (key, ha_pane_id a)) ` set as"
    "hp_pane_id ` {p \<in> set rows. hp_binding_key p = key} \<subseteq> ha_pane_id ` set as"
  shows "removed_panes key as rows' = []"
proof -
  have "hp_pane_id p \<in> ha_pane_id ` set as" if "p \<in> set rows'" "hp_binding_key p = key" for p
  proof -
    have "pane_key p \<in> pane_key ` set rows \<union> (\<lambda>a. (key, ha_pane_id a)) ` set as"
      using assms(1) that(1) by blast
    then show ?thesis
      using assms(2) that(2) by (auto simp: pane_key_def)
  qed
  then show ?thesis
    by (auto simp: removed_panes_def filter_empty_conv)
qed

lemma reconcile_repeat:
  assumes "reconcile_herdr env uuid binding agents incarnation baseline now q = Inr q1"
    "list_all agent_wf agents" "session_wf (hb_session_id binding)" "\<not> is_zero_time now" "events_ok (q_events q)"
    "distinct (map ha_pane_id agents)"
  shows "\<exists>q2. reconcile_herdr env uuid' binding agents incarnation baseline' now' q1 = Inr q2 \<and> q_events q2 = q_events q1"
proof (cases "binding_active (hb_binding_key binding) q")
  case True
  let ?key = "hb_binding_key binding"
  note panes = reconcile_panes[OF assms(1) True assms(2-6)]
  obtain b where b: "find_binding ?key q1 = Some b" "hb_incarnation b = incarnation" "hb_enabled b"
    using panes(3) by blast
  let ?start = "begin_incarnation binding incarnation incarnation now' q1"
  have start: "q_events ?start = q_events q1" "q_panes ?start = q_panes q1"
    by (simp_all add: begin_incarnation_def Let_def)
  have "\<forall>a \<in> set agents. pane_seen ?key (q_panes (fst (?start, 0 :: nat))) a"
    using panes(1) start(2) by (auto simp: pane_seen_def observed_pane_def)
  from repeat_agents[OF assms(6) this, of env uuid' baseline' now'] obtain s' where s':
      "reconcile_agents env uuid' binding baseline' now' agents (?start, 0) = Inr s'" "q_events (fst s') = q_events q1"
      "pane_key ` set (q_panes (fst s')) \<subseteq> pane_key ` set (q_panes q1) \<union> (\<lambda>a. (?key, ha_pane_id a)) ` set agents"
    unfolding start fst_conv by blast
  have "removed_panes ?key agents (q_panes (fst s')) = []"
    using repeat_no_removal[OF s'(3) panes(2)] .
  then show ?thesis
    using b panes(4) s' by (cases s') (simp add: reconcile_herdr_def Let_def)
next
  case False
  then show ?thesis
    using reconcile_inactive[OF assms(1)] by blast
qed

section \<open>Properties\<close>

definition sample_env :: environment where
  "sample_env = \<lparr>env_xdg_config_home = [], env_home = Some ''/h''\<rparr>"

definition sample_binding :: herdr_binding where
  "sample_binding = \<lparr>hb_binding_key = ''k'', hb_session_id = ''s'', hb_socket_path = ''/h/.config/herdr/herdr.sock'',
     hb_incarnation = ''1:2:3'', hb_updated_at = 100, hb_enabled = True\<rparr>"

text \<open>A pane that was seen working and is now blocked.\<close>

definition sample_agent :: herdr_agent where
  "sample_agent = zero_agent\<lparr>ha_terminal_id := ''t'', ha_pane_id := ''p'', ha_agent := ''claude'', ha_status := ''blocked'',
     ha_sequence := 2\<rparr>"

definition watched_queue :: queue where
  "watched_queue = sample_queue\<lparr>q_bindings := [sample_binding], q_adapter := Some True,
     q_panes := [(observed_pane ''k'' (at_time 110) sample_agent)\<lparr>hp_sequence := 1, hp_status := ''working''\<rparr>]\<rparr>"

definition sample_reconcile :: "bool \<Rightarrow> queue result" where
  "sample_reconcile baseline =
     reconcile_herdr sample_env (\<lambda>n. Inr ''uuid'') sample_binding [sample_agent] ''1:2:3'' baseline (at_time 130) watched_queue"

definition result_queue :: "queue result \<Rightarrow> queue" where
  "result_queue r = (case r of Inr q \<Rightarrow> q | Inl _ \<Rightarrow> empty_queue)"

lemma sample_reconcile_ok: "sample_reconcile b = Inr (result_queue (sample_reconcile b))"
proof -
  have "is_ok (sample_reconcile True)" "is_ok (sample_reconcile False)"
    by code_simp+
  then show ?thesis
    by (cases b) (auto simp: is_ok_iff result_queue_def)
qed

lemma sample_reconcile_ids: "map pe_event_id (q_events (result_queue (sample_reconcile False))) = [''c1'', ''h1'', ''c2'', ''uuid'']"
  by code_simp

lemma sample_reconcile_wf:
  "list_all agent_wf [sample_agent]" "session_wf (hb_session_id sample_binding)" "\<not> is_zero_time (at_time 130)"
  "events_ok (q_events watched_queue)" "distinct (map ha_pane_id [sample_agent])"
  "binding_active (hb_binding_key sample_binding) watched_queue"
  by code_simp+

text \<open>A baseline observation, and the first observation of a new incarnation of the server, is silent: it
  adds no event, whatever the agents report.\<close>

theorem reconcile_baseline_silent:
  assumes "reconcile_herdr env uuid binding agents incarnation baseline now q = Inr q'"
    "baseline \<or> (\<forall>b. find_binding (hb_binding_key binding) q = Some b \<longrightarrow> hb_incarnation b \<noteq> incarnation)"
  shows "set (q_events q') \<subseteq> set (q_events q)"
  using assms by (rule reconcile_silent)

theorem reconcile_baseline_silent_witness:
  "set (q_events (result_queue (sample_reconcile True))) \<subseteq> set (q_events watched_queue)"
  using reconcile_baseline_silent[OF sample_reconcile_ok[of True, unfolded sample_reconcile_def]]
  by (simp add: sample_reconcile_def)

text \<open>C24: Reconciling the same snapshot again never sends or drops an event, if no pane is listed twice in it:
  whatever the trigger, the time and the baseline flag of the second run, the pending events are the same. The
  condition is needed, and \<open>ReadHerdrAgents\<close> does not check it (\<open>twin_pane_notifies_again\<close>).\<close>

theorem reconcile_repeat_quiet:
  assumes "reconcile_herdr env uuid binding agents incarnation baseline now q = Inr q1"
    "list_all agent_wf agents" "session_wf (hb_session_id binding)" "\<not> is_zero_time now" "events_ok (q_events q)"
    "distinct (map ha_pane_id agents)"
  shows "\<exists>q2. reconcile_herdr env uuid' binding agents incarnation baseline' now' q1 = Inr q2 \<and> q_events q2 = q_events q1"
  using assms by (rule reconcile_repeat)

theorem reconcile_repeat_quiet_witness:
  "\<exists>q2. reconcile_herdr sample_env (\<lambda>n. Inr ''other'') sample_binding [sample_agent] ''1:2:3'' False (at_time 140)
       (result_queue (sample_reconcile False)) = Inr q2 \<and> map pe_event_id (q_events q2) = [''c1'', ''h1'', ''c2'', ''uuid'']"
  using reconcile_repeat_quiet[OF sample_reconcile_ok[of False, unfolded sample_reconcile_def] sample_reconcile_wf(1-5),
      of "\<lambda>n. Inr ''other''" False "at_time 140"] sample_reconcile_ids
  unfolding sample_reconcile_def by metis

text \<open>A server that lists one pane twice, working and blocked: a second run of the same snapshot drops the pending
  event and enqueues another.\<close>

definition working_twin :: herdr_agent where
  "working_twin = sample_agent\<lparr>ha_status := ''working'', ha_sequence := 5\<rparr>"

definition blocked_twin :: herdr_agent where
  "blocked_twin = sample_agent\<lparr>ha_sequence := 6\<rparr>"

definition twin_run :: "string \<Rightarrow> queue \<Rightarrow> queue" where
  "twin_run i q = result_queue (reconcile_herdr sample_env (\<lambda>n. Inr i) sample_binding [working_twin, blocked_twin] ''1:2:3'' False (at_time 130) q)"

lemma twin_pane_notifies_again:
  "map pe_event_id (q_events (twin_run ''first'' watched_queue)) = [''c1'', ''h1'', ''c2'', ''first'']"
  "map pe_event_id (q_events (twin_run ''second'' (twin_run ''first'' watched_queue))) = [''c1'', ''c2'', ''second'']"
  by code_simp+

text \<open>After a reconciliation of an active binding the stored panes of the binding are exactly those of the
  snapshot, each with the terminal, sequence and status it reported, so a removed pane leaves no state.\<close>

theorem reconcile_stores_snapshot:
  assumes "reconcile_herdr env uuid binding agents incarnation baseline now q = Inr q'"
    "binding_active (hb_binding_key binding) q" "list_all agent_wf agents" "session_wf (hb_session_id binding)"
    "\<not> is_zero_time now" "events_ok (q_events q)" "distinct (map ha_pane_id agents)"
  shows "list_all (\<lambda>a. find_pane (hb_binding_key binding) (ha_pane_id a) (q_panes q')
           = Some (observed_pane (hb_binding_key binding) now a)) agents \<and>
    list_all (\<lambda>p. hp_binding_key p = hb_binding_key binding \<longrightarrow> hp_pane_id p \<in> ha_pane_id ` set agents) (q_panes q')"
  using reconcile_panes(1,2)[OF assms] by (auto simp: list_all_iff)

theorem reconcile_stores_snapshot_witness:
  "find_pane ''k'' ''p'' (q_panes (result_queue (sample_reconcile False))) = Some (observed_pane ''k'' (at_time 130) sample_agent)"
  using reconcile_stores_snapshot[OF sample_reconcile_ok[of False, unfolded sample_reconcile_def] sample_reconcile_wf(6,1-5)]
  by (simp add: sample_binding_def sample_agent_def sample_reconcile_def)

end
