(* ===== verification/Reconcile_Properties.thy ===== *)
theory Reconcile_Properties
  imports Reconcile_Repeat Agent_System
begin

text \<open>
  What \<open>ReconcileHerdr\<close> of \<open>internal/agent/herdr_state.go\<close> leaves alone: the rows of the other bindings, the Codex
  events and the validity of the queue.
\<close>

section \<open>The other bindings\<close>

definition other_panes :: "string \<Rightarrow> queue \<Rightarrow> herdr_pane list" where
  "other_panes key q = filter (\<lambda>p. hp_binding_key p \<noteq> key) (q_panes q)"

definition other_bindings :: "string \<Rightarrow> queue \<Rightarrow> herdr_binding list" where
  "other_bindings key q = filter (\<lambda>b. hb_binding_key b \<noteq> key) (q_bindings q)"

lemma put_pane_other:
  "hp_binding_key p = key \<Longrightarrow> filter (\<lambda>p. hp_binding_key p \<noteq> key) (put_pane p rows) = filter (\<lambda>p. hp_binding_key p \<noteq> key) rows"
proof -
  assume k: "hp_binding_key p = key"
  have "filter (\<lambda>p. hp_binding_key p \<noteq> key) (map (\<lambda>o1. if hp_binding_key o1 = key \<and> hp_pane_id o1 = hp_pane_id p then p else o1) rows) =
      filter (\<lambda>p. hp_binding_key p \<noteq> key) rows"
    using k by (induction rows) auto
  then show ?thesis
    using k by (auto simp: put_pane_def)
qed

lemma put_panes_other:
  "filter (\<lambda>p. hp_binding_key p \<noteq> key) (foldl (\<lambda>ps a. put_pane (observed_pane key now a) ps) rows as) =
     filter (\<lambda>p. hp_binding_key p \<noteq> key) rows"
  by (induction as arbitrary: rows) (simp_all add: put_pane_other observed_pane_def)

lemma begin_other:
  "other_panes (hb_binding_key b) (begin_incarnation b previous incarnation now q) = other_panes (hb_binding_key b) q"
  "other_bindings (hb_binding_key b) (begin_incarnation b previous incarnation now q) = other_bindings (hb_binding_key b) q"
proof -
  have m: "filter (\<lambda>b. hb_binding_key b \<noteq> key) (map (\<lambda>c. if hb_binding_key c = key then c\<lparr>hb_incarnation := i, hb_updated_at := t\<rparr> else c) bs) =
      filter (\<lambda>b. hb_binding_key b \<noteq> key) bs" for key i t bs
    by (induction bs) auto
  show "other_panes (hb_binding_key b) (begin_incarnation b previous incarnation now q) = other_panes (hb_binding_key b) q"
    by (simp add: other_panes_def begin_incarnation_def Let_def)
  show "other_bindings (hb_binding_key b) (begin_incarnation b previous incarnation now q) = other_bindings (hb_binding_key b) q"
    by (simp add: other_bindings_def begin_incarnation_def Let_def m)
qed

lemma filter_drop_own: "filter (\<lambda>p. f p \<noteq> key) (filter (\<lambda>x. \<not> (f x = key \<and> Q x)) xs) = filter (\<lambda>p. f p \<noteq> key) xs"
  by (induction xs) auto

lemma reconcile_others:
  assumes "reconcile_herdr env uuid binding agents incarnation baseline now q = Inr q'"
    "list_all agent_wf agents" "session_wf (hb_session_id binding)" "\<not> is_zero_time now" "events_ok (q_events q)"
  shows "other_panes (hb_binding_key binding) q' = other_panes (hb_binding_key binding) q \<and>
    other_bindings (hb_binding_key binding) q' = other_bindings (hb_binding_key binding) q"
proof (cases "binding_active (hb_binding_key binding) q")
  case True
  let ?key = "hb_binding_key binding"
  from reconcile_cases[OF assms(1) True] obtain stored q2 n where "find_binding ?key q = Some stored" "hb_enabled stored"
    "q_adapter q = Some True" and r: "reconcile_agents env uuid binding (baseline \<or> incarnation \<noteq> hb_incarnation stored) now agents
       (begin_incarnation binding (hb_incarnation stored) incarnation now q, 0) = Inr (q2, n)"
    "q' = foldl (\<lambda>q pane. remove_pane binding pane q) q2 (removed_panes ?key agents (q_panes q2))"
    by blast
  let ?q1 = "begin_incarnation binding (hb_incarnation stored) incarnation now q"
  have q2: "q_bindings q2 = q_bindings ?q1" "q_panes q2 = foldl (\<lambda>ps a. put_pane (observed_pane ?key now a) ps) (q_panes ?q1) agents"
    using agents_rows[OF r(1) assms(2-4)] begin_ok[OF assms(5)] by simp_all
  note gone = remove_all_rows[of binding q2 "removed_panes ?key agents (q_panes q2)" now, folded r(2)]
  have "q_panes q' = filter (\<lambda>x. \<not> (hp_binding_key x = ?key \<and> hp_pane_id x \<in> set (removed_panes ?key agents (q_panes q2)))) (q_panes q2)"
    using gone by blast
  then have "filter (\<lambda>p. hp_binding_key p \<noteq> ?key) (q_panes q') = filter (\<lambda>p. hp_binding_key p \<noteq> ?key) (q_panes q2)"
    by (simp only: filter_drop_own)
  moreover have "q_bindings q' = q_bindings ?q1"
    using gone q2(1) by simp
  ultimately have q': "q_bindings q' = q_bindings ?q1" "filter (\<lambda>p. hp_binding_key p \<noteq> ?key) (q_panes q') = filter (\<lambda>p. hp_binding_key p \<noteq> ?key) (q_panes q2)"
    by blast+
  then show ?thesis
    using begin_other[of binding "hb_incarnation stored" incarnation now q] q2(2)
    by (simp add: other_panes_def other_bindings_def put_panes_other)
qed (use reconcile_inactive(1)[OF assms(1)] in simp)

section \<open>One reconciliation\<close>

text \<open>C23: A reconciliation of checked agents only adds events that the queue classes as Herdr events of its own
  session and of a pane of the snapshot, leaves every row a valid event if all were, keeps every live Codex event and
  the bounds of the queue, and leaves the panes and the bindings under every other key as they were.\<close>

theorem reconcile_sound:
  assumes "reconcile_herdr env uuid binding agents incarnation baseline now q = Inr q'"
    "list_all agent_wf agents" "session_wf (hb_session_id binding)" "\<not> is_zero_time now" "events_ok (q_events q)"
  shows "set (q_events q') \<subseteq> set (q_events q) \<union> {r. own_row binding agents r} \<and>
    (rows_valid q \<longrightarrow> rows_valid q') \<and>
    live_codex now (q_events q') = live_codex now (q_events q) \<and> events_ok (q_events q') \<and>
    other_panes (hb_binding_key binding) q' = other_panes (hb_binding_key binding) q \<and>
    other_bindings (hb_binding_key binding) q' = other_bindings (hb_binding_key binding) q"
  using reconcile_rows[OF assms] reconcile_ok[OF assms(1,5)] reconcile_others[OF assms] reconcile_rows_valid[OF assms(1-4)] by simp

theorem reconcile_sound_witness:
  "\<exists>q'. sample_reconcile False = Inr q' \<and> map pe_event_id (q_events q') = [''c1'', ''h1'', ''c2'', ''uuid''] \<and>
     set (q_events q') \<subseteq> set (q_events watched_queue) \<union> {r. own_row sample_binding [sample_agent] r}"
  using reconcile_sound[OF sample_reconcile_ok[of False, unfolded sample_reconcile_def] sample_reconcile_wf(1-4)]
    sample_reconcile_ids sample_reconcile_ok[of False] by (auto simp: sample_reconcile_def)

end
