(* ===== verification/Agent_Properties.thy ===== *)
theory Agent_Properties
  imports Agent_Runs Enrollment_Samples Reconcile_Properties
begin

text \<open>
  The properties of the daemon as a whole, each applied to a concrete run.
\<close>

section \<open>Discovery is a run of baselines\<close>

fun baseline_actions ::
  "environment \<Rightarrow> (string \<Rightarrow> string) \<Rightarrow> (nat \<Rightarrow> surroundings) \<Rightarrow> nat \<Rightarrow> string list \<Rightarrow> daemon \<Rightarrow> agent_action list" where
  "baseline_actions env sha256_hex w i [] d = []"
| "baseline_actions env sha256_hex w i (socket # sockets) d =
     (if su_cancelled (w i) then []
      else if unbound sha256_hex socket (dm_queue d)
      then Baseline (w i) (baseline_signal sha256_hex socket) #
        baseline_actions env sha256_hex w (Suc i) sockets (reconcile_signal env sha256_hex (w i) (baseline_signal sha256_hex socket) d)
      else baseline_actions env sha256_hex w (Suc i) sockets d)"

lemma baseline_signal_again [simp]: "(baseline_signal sha256_hex socket)\<lparr>de_baseline := True\<rparr> = baseline_signal sha256_hex socket"
  by (simp add: baseline_signal_def)

lemma put_daemon_again [simp]: "put_daemon d (put_daemon d' s) = put_daemon d s"
  by (simp add: put_daemon_def)

lemma discovery_run:
  "agent_run env en sha256_hex (baseline_actions env sha256_hex w i sockets d) (put_daemon d s) =
     (put_daemon (discover_sockets env sha256_hex w i sockets d) s, [])"
proof (induction env sha256_hex w i sockets d rule: discover_sockets.induct)
  case (2 env sha256_hex w i socket sockets d)
  then show ?case
    by (auto simp: agent_run.simps)
qed simp

lemma discovery_keeps:
  assumes "capture_inv sha256_hex d" "\<And>n. surroundings_ok (w n)"
  shows "capture_inv sha256_hex (discover_sockets env sha256_hex w i sockets d) \<and>
    set (q_events (dm_queue (discover_sockets env sha256_hex w i sockets d))) \<subseteq> set (q_events (dm_queue d))"
  using assms
proof (induction env sha256_hex w i sockets d rule: discover_sockets.induct)
  case (2 env sha256_hex w i socket sockets d)
  let ?d = "if unbound sha256_hex socket (dm_queue d)
    then reconcile_signal env sha256_hex (w i) (baseline_signal sha256_hex socket) d else d"
  have d: "capture_inv sha256_hex ?d" "set (q_events (dm_queue ?d)) \<subseteq> set (q_events (dm_queue d))"
    using reconcile_signal_keeps(1)[OF 2(2) 2(3)] reconcile_signal_silent[OF 2(2) 2(3)] 2(2) by (simp_all add: baseline_signal_def)
  show ?case
  proof (cases "su_cancelled (w i)")
    case True
    then show ?thesis using 2(2) by simp
  next
    case False
    have "capture_inv sha256_hex (discover_sockets env sha256_hex w (Suc i) sockets ?d) \<and>
        set (q_events (dm_queue (discover_sockets env sha256_hex w (Suc i) sockets ?d))) \<subseteq> set (q_events (dm_queue ?d))"
      by (rule 2(1)[OF False d(1) 2(3)])
    then show ?thesis
      using d(2) False unfolding discover_sockets.simps by (simp only: if_False) blast
  qed
qed simp

lemma start_keeps:
  assumes "capture_inv sha256_hex d" "\<And>n. surroundings_ok (w n)"
  shows "capture_inv sha256_hex (snd (start_bindings env sha256_hex w i bs d)) \<and>
    set (q_events (dm_queue (snd (start_bindings env sha256_hex w i bs d)))) \<subseteq> set (q_events (dm_queue d))"
  using assms
proof (induction env sha256_hex w i bs d rule: start_bindings.induct)
  case (2 env sha256_hex w i b bs d)
  let ?e = "\<lparr>de_type = [], de_binding_key = hb_binding_key b, de_pane_id = [], de_socket_path = [], de_baseline = True\<rparr>"
  let ?d = "reconcile_signal env sha256_hex (w i) ?e d"
  have d: "capture_inv sha256_hex ?d" "set (q_events (dm_queue ?d)) \<subseteq> set (q_events (dm_queue d))"
    using reconcile_signal_keeps(1)[OF 2(2) 2(3)] reconcile_signal_silent[OF 2(2) 2(3)] by simp_all
  show ?case
  proof (cases "su_cancelled (w i)")
    case True
    then show ?thesis using 2(2) by simp
  next
    case False
    then show ?thesis using 2(1)[OF False d(1) 2(3)] d(2) by auto
  qed
qed simp

section \<open>Properties\<close>

text \<open>The invariant of the daemon. In every run of its workers, whatever the clients send, the backend answers
  and other processes do to the files and the capture switch, the queue keeps its bounds, the channel and the
  map of signals hold at most 128 checked signals under their own keys, there are at most 128 bindings with
  distinct keys and sessions, and every queued row is a valid event classed by its source.\<close>

theorem agent_run_keeps_invariant:
  assumes "system_inv sha256_hex s" "list_all action_ok as"
  shows "system_inv sha256_hex (fst (agent_run env en sha256_hex as s))"
  using assms by (rule agent_run_inv)

text \<open>C8: Everything the uploader ever sends is a valid host event, also the event re-encoded without its metadata.\<close>

theorem uploaded_events_valid:
  assumes "system_inv sha256_hex s" "list_all action_ok as"
  shows "list_all event_request_valid
    (snd (agent_do env en sha256_hex (UploadOne v) (fst (agent_run env en sha256_hex as s))))"
proof -
  let ?s = "fst (agent_run env en sha256_hex as s)"
  obtain again q reqs where u: "upload_once (v\<lparr>uv_config := dm_config (sy_daemon ?s)\<rparr>) (sy_queue ?s) = (again, q, reqs)"
    by (metis prod_cases3)
  have "rows_valid (sy_queue ?s)"
    using agent_run_inv[OF assms] by (simp add: system_inv_def)
  then show ?thesis
    using upload_once_valid[OF u] by (simp add: u)
qed

text \<open>No notification of Codex is lost on the way. While fewer than 500 Codex events are queued and its week has
  not passed, a queued Codex event is, after any run of the daemon, still queued with its body and source, or
  some request of the run carried its identifier and body and was answered with 2xx or 409.\<close>

theorem codex_event_kept_or_taken:
  assumes "system_inv sha256_hex s" "list_all action_ok as" "r \<in> set (q_events (sy_queue s))" "pe_source r = ''codex''"
    "roomy env en sha256_hex (pe_expires_at r) as s"
  shows "row_view r \<in> row_view ` set (q_events (sy_queue (fst (agent_run env en sha256_hex as s)))) \<or>
    (\<exists>a \<in> set as. \<exists>q \<in> set (snd (agent_run env en sha256_hex as s)). taken_by a (pe_event_id r) (pe_body r) q)"
  using assms by (rule run_keeps_row)

text \<open>C25: A capture that was switched off stays silent. From then on, until it is switched on again, no run leaves a
  Herdr event in the queue, a stored pane or an enabled binding, whatever servers are found and signals arrive.\<close>

theorem capture_off_stays_silent:
  assumes "SwitchCapture True \<notin> set as"
  shows "capture_off (sy_queue (fst (agent_run env en sha256_hex (SwitchCapture False # as) s)))"
proof -
  have "silent (set_herdr_capture_enabled False (sy_queue s))"
    using disable_capture by (simp add: silent_def set_herdr_capture_enabled_def)
  then show ?thesis
    using run_silent[of "put_queue (set_herdr_capture_enabled False (sy_queue s)) s" as] assms
    by (simp add: agent_run_Cons silent_def)
qed

text \<open>Starting the daemon and discovering servers never notifies: the baselines of the stored bindings and of
  every socket found add no event and keep the bounds, whatever the servers report.\<close>

theorem discovery_never_notifies:
  assumes "capture_inv sha256_hex d" "\<And>n. surroundings_ok (w n)" "\<And>n. surroundings_ok (w' n)"
    "start_loop env sha256_hex w w' sockets d = Some l"
  shows "set (q_events (dm_queue (hl_daemon l))) \<subseteq> set (q_events (dm_queue d)) \<and> loop_inv sha256_hex l"
proof -
  obtain d' where d': "start_bindings env sha256_hex w 0 (herdr_bindings (dm_queue d)) d = (False, d')"
      "l = \<lparr>hl_daemon = discover_herdr env sha256_hex w' sockets d', hl_dirty = []\<rparr>"
    using assms(4) by (auto simp: start_loop_def split: prod.splits bool.splits)
  have s: "capture_inv sha256_hex d'" "set (q_events (dm_queue d')) \<subseteq> set (q_events (dm_queue d))"
    using start_keeps[where w = w and env = env and i = 0 and bs = "herdr_bindings (dm_queue d)", OF assms(1,2)] d'(1) by simp_all
  then show ?thesis
    using discovery_keeps[where w = w' and env = env and i = 0 and sockets = sockets, OF s(1) assms(3)] d'(2) by (auto simp: discover_herdr_def loop_inv_def)
qed

text \<open>A baseline that a client asked for is not lost by coalescing: while its key waits in the map, further
  signals for any key keep the baseline mark.\<close>

theorem baseline_survives_coalescing:
  assumes "map_ok dirty" "length dirty < 128" "de_baseline e"
  shows "old_baseline (foldl (\<lambda>m x. accept_dirty x m) (accept_dirty e dirty) es) (de_binding_key e)"
proof -
  have step: "map_ok (accept_dirty x m) \<and> (old_baseline m key \<longrightarrow> old_baseline (accept_dirty x m) key)" if "map_ok m" for x m key
    using that by (auto simp: accept_dirty_def old_baseline_def map_get_put split: option.splits)
  have "map_ok m \<Longrightarrow> old_baseline m key \<Longrightarrow> old_baseline (foldl (\<lambda>m x. accept_dirty x m) m es) key" for m key
    by (induction es arbitrary: m) (simp_all add: step)
  moreover have "old_baseline (accept_dirty e dirty) (de_binding_key e)"
    using assms by (simp add: accept_dirty_def old_baseline_def map_get_put)
  ultimately show ?thesis
    using step[OF assms(1)] by blast
qed

section \<open>A concrete daemon\<close>

definition stop_row :: pending_event where
  "stop_row = new_row (Some ''https://b.example'') ''e1'' sample_stop_body (at_time 1700000000)"

definition live_queue :: queue where
  "live_queue = empty_queue\<lparr>q_events := [stop_row], q_backend := Some ''https://b.example'', q_adapter := Some True,
     q_last_source := ''codex''\<rparr>"

definition live_system :: agent_system where
  "live_system = \<lparr>sy_host = \<lparr>hs_daemon = sample_daemon\<lparr>dm_queue := live_queue\<rparr>, hs_files = (\<lambda>_. None)\<rparr>,
     sy_loop = initial_loop sample_enrollment, sy_dirty = []\<rparr>"

text \<open>A server that answers with one blocked agent, and one that cannot be reached.\<close>

definition sample_surroundings :: "bool \<Rightarrow> surroundings" where
  "sample_surroundings up = \<lparr>su_cancelled = False,
     su_read = (\<lambda>socket. if up then Inr ([sample_agent], ''1:2:3'') else fail ''Herdr socket unavailable''),
     su_binding_id = Inr ''s'', su_event_id = (\<lambda>n. Inr ''h1''), su_bind_now = at_time 1700000050, su_now = at_time 1700000050\<rparr>"

lemma sample_surroundings_ok: "surroundings_ok (sample_surroundings up)"
proof -
  have "agent_wf sample_agent" "session_wf ''s''" "\<not> is_zero_time (at_time 1700000050)"
    by code_simp+
  then show ?thesis
    by (auto simp: surroundings_ok_def sample_surroundings_def split: if_splits)
qed

lemma live_system_inv: "system_inv (\<lambda>s. s) live_system"
proof -
  have "row_valid (row_view stop_row)" "pe_source stop_row = ''codex''"
    by code_simp+
  then show ?thesis
    by (simp add: system_inv_def loop_inv_def loop_of_def live_system_def capture_inv_def daemon_ok_def queue_ok_def
        live_queue_def sample_daemon_def herdr_dirty_capacity_def rows_valid_def bindings_ok_def empty_queue_def
        events_ok_def is_herdr_def herdr_count_def)
qed

definition sample_actions :: "agent_action list" where
  "sample_actions =
     [Baseline (sample_surroundings True) (baseline_signal (\<lambda>s. s) ''/h/.config/herdr/herdr.sock''),
      UploadOne (test_view 1), SwitchCapture False, ReceiveSignal, Woken]"

lemma sample_actions_ok: "list_all action_ok sample_actions"
  by (simp add: sample_actions_def sample_surroundings_ok)

theorem agent_run_keeps_invariant_witness:
  "system_inv (\<lambda>s. s) (fst (agent_run sample_env sample_enrollment (\<lambda>s. s) sample_actions live_system))"
  by (rule agent_run_keeps_invariant[OF live_system_inv sample_actions_ok])

theorem uploaded_events_valid_witness:
  "list_all event_request_valid (snd (agent_do sample_env sample_enrollment (\<lambda>s. s) (UploadOne (test_view 0))
     (fst (agent_run sample_env sample_enrollment (\<lambda>s. s) sample_actions live_system))))"
  by (rule uploaded_events_valid[OF live_system_inv sample_actions_ok])

theorem codex_event_kept_or_taken_witness:
  "row_view stop_row \<in> row_view ` set (q_events (sy_queue (fst (agent_run sample_env sample_enrollment (\<lambda>s. s) sample_actions live_system))))"
proof -
  have "\<not> taken_by a (pe_event_id stop_row) (pe_body stop_row) q" if "a \<in> set sample_actions" for a q
    using that by (auto simp: sample_actions_def taken_by_def taken_def test_view_def test_uplink_def)
  moreover have "pe_source stop_row = ''codex''" "stop_row \<in> set (q_events (sy_queue live_system))"
    "roomy sample_env sample_enrollment (\<lambda>s. s) (pe_expires_at stop_row) sample_actions live_system"
    by code_simp+
  ultimately show ?thesis
    using codex_event_kept_or_taken[OF live_system_inv sample_actions_ok] by blast
qed

theorem capture_off_stays_silent_witness:
  "capture_off (sy_queue (fst (agent_run sample_env sample_enrollment (\<lambda>s. s)
     [SwitchCapture False, Baseline (sample_surroundings True) (baseline_signal (\<lambda>s. s) ''/h/.config/herdr/herdr.sock'')] live_system)))"
  by (rule capture_off_stays_silent) simp

theorem baseline_survives_coalescing_witness:
  "old_baseline (foldl (\<lambda>m x. accept_dirty x m) (accept_dirty (baseline_signal (\<lambda>s. s) ''/a'') [])
     [(baseline_signal (\<lambda>s. s) ''/a'')\<lparr>de_baseline := False, de_pane_id := ''p''\<rparr>]) ''/a''"
proof -
  have "de_binding_key (baseline_signal (\<lambda>s. s) ''/a'') = ''/a''" "de_baseline (baseline_signal (\<lambda>s. s) ''/a'')"
    by code_simp+
  then show ?thesis
    using baseline_survives_coalescing[of "[]" "baseline_signal (\<lambda>s. s) ''/a''"
        "[(baseline_signal (\<lambda>s. s) ''/a'')\<lparr>de_baseline := False, de_pane_id := ''p''\<rparr>]"]
    by (simp del: foldl.simps foldl_Cons)
qed

theorem discovery_never_notifies_witness:
  "\<exists>l. start_loop sample_env (\<lambda>s. s) (\<lambda>_. sample_surroundings False) (\<lambda>_. sample_surroundings True)
       [''/h/.config/herdr/herdr.sock''] (sy_daemon live_system) = Some l \<and>
     map hb_session_id (q_bindings (dm_queue (hl_daemon l))) = [''s''] \<and>
     set (q_events (dm_queue (hl_daemon l))) \<subseteq> set (q_events live_queue)"
proof -
  let ?start = "start_loop sample_env (\<lambda>s. s) (\<lambda>_. sample_surroundings False) (\<lambda>_. sample_surroundings True)
       [''/h/.config/herdr/herdr.sock''] (sy_daemon live_system)"
  have "(case ?start of None \<Rightarrow> False | Some l \<Rightarrow> map hb_session_id (q_bindings (dm_queue (hl_daemon l))) = [''s''])"
    by code_simp
  then obtain l where l: "?start = Some l" "map hb_session_id (q_bindings (dm_queue (hl_daemon l))) = [''s'']"
    by (auto split: option.splits)
  have "capture_inv (\<lambda>s. s) (sy_daemon live_system)"
    using live_system_inv by (simp add: system_inv_def loop_inv_def loop_of_def)
  moreover have "sy_queue live_system = live_queue"
    by (simp add: live_system_def)
  ultimately show ?thesis
    using discovery_never_notifies[OF _ sample_surroundings_ok sample_surroundings_ok l(1)] l by auto
qed

end
