(* ===== verification/Plugin_Properties.thy ===== *)
theory Plugin_Properties
  imports Plugin_Setup Agent_Properties
begin

text \<open>
  What the set-up of the Herdr plugin guarantees: when it changes anything, that it is silent, and what a status
  that says ready means.
\<close>

section \<open>Guards\<close>

lemma install_guards:
  assumes "install_herdr sx later client printable sockets ap socket binary version s = (r, s')" "s' \<noteq> s \<or> is_ok r"
  obtains c info manifest where "load_config (ap_config_file ap) (ss_files s) = Inr c"
    "fst (herdr_backend_supported client (cf_endpoint c)) = Inr ()" "read_daemon_info (sx_daemon sx) = Inr info"
    "HerdrCapability \<in> set (dr_capabilities info)" "HerdrHostCaptureCapability \<in> set (dr_capabilities info)"
    "herdr_manifest printable binary = Inr manifest" "is_abs binary"
  using assms by (auto simp: install_herdr_def herdr_manifest_def split: sum.splits if_splits)

lemma backend_support:
  assumes "fst (herdr_backend_supported client endpoint) = Inr ()"
  obtains base response where "parse_notification_endpoint endpoint = Inr base"
    "client (capabilities_request base) = Inr response" "rs_status response = 200"
  using assms by (auto simp: herdr_backend_supported_def Let_def split: sum.splits if_splits)

text \<open>The plugin is only installed on a host that can use it. The installation changes a file, the database or the
  registry, or reports success, only after the configured backend answered its capabilities with status 200, a running
  daemon named both Herdr capabilities, and the path of the agent is absolute; in every other case it is an error that
  leaves everything as it was.\<close>

theorem install_only_when_supported:
  assumes "install_herdr sx later client printable sockets ap socket binary version s = (r, s')" "s' \<noteq> s \<or> is_ok r"
  shows "\<exists>c base response info. load_config (ap_config_file ap) (ss_files s) = Inr c \<and>
    parse_notification_endpoint (cf_endpoint c) = Inr base \<and> client (capabilities_request base) = Inr response \<and>
    rs_status response = 200 \<and> read_daemon_info (sx_daemon sx) = Inr info \<and>
    {HerdrCapability, HerdrHostCaptureCapability} \<subseteq> set (dr_capabilities info) \<and> is_abs binary"
proof -
  obtain c info where g: "load_config (ap_config_file ap) (ss_files s) = Inr c"
      "fst (herdr_backend_supported client (cf_endpoint c)) = Inr ()" "read_daemon_info (sx_daemon sx) = Inr info"
      "HerdrCapability \<in> set (dr_capabilities info)" "HerdrHostCaptureCapability \<in> set (dr_capabilities info)" "is_abs binary"
    by (rule install_guards[OF assms])
  then show ?thesis
    using backend_support[OF g(2)] by (metis empty_subsetI insert_subset)
qed

section \<open>Silence\<close>

definition setup_ok :: "setup_system \<Rightarrow> bool" where
  "setup_ok sx \<longleftrightarrow>
     (\<forall>i socket agents incarnation. sx_read sx i socket = Inr (agents, incarnation) \<longrightarrow> list_all agent_wf agents) \<and>
     (\<forall>i sid. sx_binding_id sx i = Inr sid \<longrightarrow> session_wf sid) \<and> (\<forall>i. \<not> is_zero_time (sx_now sx i))"

definition queue_inv :: "(string \<Rightarrow> string) \<Rightarrow> queue \<Rightarrow> bool" where
  "queue_inv sha256_hex q \<longleftrightarrow> queue_ok q \<and> bindings_ok sha256_hex (q_bindings q) \<and> rows_valid q"

text \<open>No event is added, and the invariant of the queue stays.\<close>

definition quiet_step :: "(string \<Rightarrow> string) \<Rightarrow> queue \<Rightarrow> queue \<Rightarrow> bool" where
  "quiet_step sha256_hex q q' \<longleftrightarrow> (queue_inv sha256_hex q \<longrightarrow> queue_inv sha256_hex q') \<and> set (q_events q') \<subseteq> set (q_events q)"

lemma quiet_refl [simp]: "quiet_step sha256_hex q q"
  by (simp add: quiet_step_def)

lemma quiet_trans: "quiet_step sha256_hex q q' \<Longrightarrow> quiet_step sha256_hex q' q'' \<Longrightarrow> quiet_step sha256_hex q q''"
  by (auto simp: quiet_step_def)

lemma bind_quiet:
  assumes "bind_herdr sha256_hex uuid socket now q = (r, q')" "\<And>s. uuid = Inr s \<Longrightarrow> session_wf s" "queue_inv sha256_hex q"
  shows "queue_inv sha256_hex q'" "set (q_events q') \<subseteq> set (q_events q)"
  using bind_herdr_bindings[OF assms(1) _ assms(2)] assms(3) by (auto simp: queue_inv_def queue_ok_def rows_valid_def)

lemma reconcile_quiet:
  assumes "reconcile_herdr env uuid binding agents incarnation True now q = Inr q'" "queue_inv sha256_hex q"
  shows "queue_inv sha256_hex q'" "set (q_events q') \<subseteq> set (q_events q)"
proof -
  show s: "set (q_events q') \<subseteq> set (q_events q)"
    using reconcile_silent[OF assms(1)] by simp
  show "queue_inv sha256_hex q'"
    using assms(2) reconcile_ok[OF assms(1)] reconcile_bindings[OF assms(1), of sha256_hex] rows_valid_subset[OF _ s]
    by (simp add: queue_inv_def queue_ok_def)
qed

lemma baseline_quiet:
  assumes "setup_ok sx" "queue_inv (sx_sha256 sx) q"
  shows "queue_inv (sx_sha256 sx) (snd (baseline_sockets sx i sockets q)) \<and>
    set (q_events (snd (baseline_sockets sx i sockets q))) \<subseteq> set (q_events q)"
  using assms
proof (induction sockets arbitrary: i q)
  case (Cons socket sockets)
  show ?case
  proof (cases "sx_read sx i socket")
    case (Inl e)
    then show ?thesis using Cons by simp
  next
    case (Inr ai)
    obtain agents incarnation where r: "sx_read sx i socket = Inr (agents, incarnation)"
      using Inr by (cases ai) simp
    obtain res q1 where b: "bind_herdr (sx_sha256 sx) (sx_binding_id sx i) socket (sx_now sx i) q = (res, q1)"
      by fastforce
    have sid: "session_wf s" if "sx_binding_id sx i = Inr s" for s
      using assms(1) that by (simp add: setup_ok_def)
    note q1 = bind_quiet[OF b sid Cons.prems(2)]
    show ?thesis
    proof (cases res)
      case (Inl e)
      then show ?thesis using r b q1 by simp
    next
      case binding: (Inr binding)
      show ?thesis
      proof (cases "reconcile_herdr (sx_env sx) (sx_event_id sx i) binding agents incarnation True (sx_now sx i) q1")
        case (Inl e)
        then show ?thesis using r b q1 binding by simp
      next
        case rec: (Inr q2)
        note q2 = reconcile_quiet[OF rec q1(1)]
        show ?thesis using Cons.IH[OF assms(1) q2(1), of "Suc i"] r b q1 q2 binding rec by auto
      qed
    qed
  qed
qed simp

lemma inspect_quiet:
  assumes "setup_ok sx" "queue_inv (sx_sha256 sx) q" "inspect_binding sx allowed (sx_read sx 0 socket) socket q = (b, q')"
  shows "queue_inv (sx_sha256 sx) q' \<and> set (q_events q') \<subseteq> set (q_events q)"
proof (cases "q' = q")
  case False
  then obtain agents incarnation r q1 where "sx_read sx 0 socket = Inr (agents, incarnation)"
      and bind: "bind_herdr (sx_sha256 sx) (sx_binding_id sx 0) socket (sx_now sx 0) q = (r, q1)"
      and rest: "q' = q1 \<or> (\<exists>b. reconcile_herdr (sx_env sx) (sx_event_id sx 0) b agents incarnation True (sx_now sx 0) q1 = Inr q')"
    using assms(3) by (auto simp: inspect_binding_def Let_def split: sum.splits if_splits prod.splits)
  have sid: "session_wf s" if "sx_binding_id sx 0 = Inr s" for s
    using assms(1) that by (simp add: setup_ok_def)
  note q1 = bind_quiet[OF bind sid assms(2)]
  then show ?thesis
    using rest reconcile_quiet[OF _ q1(1)] by blast
qed (use assms(2) in simp)

text \<open>A database file with valid rows, whatever columns it has.\<close>

definition database_inv :: "(string \<Rightarrow> string) \<Rightarrow> database \<Rightarrow> bool" where
  "database_inv sha256_hex db \<longleftrightarrow> queue_inv sha256_hex (open_database db)"

lemma open_again [simp]: "open_database (Some (event_columns, q)) = open_queue event_columns q"
  by (simp add: open_database_def)

lemma open_current: "q_events (open_queue event_columns q) = q_events q" "q_bindings (open_queue event_columns q) = q_bindings q"
  by (simp_all add: open_queue_def migrate_rows_def add_column_def event_columns_def)

lemma open_inv [simp]: "queue_inv sha256_hex (open_queue event_columns q) = queue_inv sha256_hex q"
  by (simp add: queue_inv_def queue_ok_def rows_valid_def open_current)

lemma state_simps [simp]:
  "ss_database (put_database q s) = Some (event_columns, q)" "ss_files (put_database q s) = ss_files s"
  "ss_trace (put_database q s) = ss_trace s" "ss_database (add_trace ps s) = ss_database s" "ss_files (add_trace ps s) = ss_files s"
  "ss_database (write_manifest ap m s) = ss_database s"
  by (simp_all add: put_database_def add_trace_def write_manifest_def Let_def)

abbreviation stored_events :: "setup_state \<Rightarrow> pending_event set" where
  "stored_events s \<equiv> set (q_events (open_database (ss_database s)))"

lemma inspect_herdr_quiet:
  assumes "setup_ok sx" "database_inv (sx_sha256 sx) (ss_database s)" "inspect_herdr sx ap socket version s = (r, s')"
  shows "database_inv (sx_sha256 sx) (ss_database s') \<and> stored_events s' \<subseteq> stored_events s"
proof (cases "ss_database s")
  case None
  then have "ss_database s' = None"
    using assms(3) by (auto simp: inspect_herdr_def Let_def add_trace_def split: sum.splits prod.splits if_splits)
  then show ?thesis
    using assms(2) None by simp
next
  case (Some db)
  let ?q = "open_database (ss_database s)"
  have q: "queue_inv (sx_sha256 sx) ?q"
    using assms(2) by (simp add: database_inv_def)
  have "s' = s \<or> ss_database s' = Some (event_columns, ?q) \<or>
      (\<exists>allowed b q'. inspect_binding sx allowed (sx_read sx 0 socket) socket ?q = (b, q') \<and> ss_database s' = Some (event_columns, q'))"
    using assms(3) Some by (auto simp: inspect_herdr_def Let_def split: sum.splits prod.splits if_splits)
  then show ?thesis
  proof (elim disjE exE conjE)
    fix allowed b q' assume a: "inspect_binding sx allowed (sx_read sx 0 socket) socket ?q = (b, q')"
      "ss_database s' = Some (event_columns, q')"
    show ?thesis
      using inspect_quiet[OF assms(1) q a(1)] a(2) by (simp add: database_inv_def open_current)
  qed (use q assms(2) in \<open>simp_all add: database_inv_def open_current\<close>)
qed

text \<open>Installing the plugin never notifies. However many servers with whatever agents are found, and wherever it
  fails, no event is added to the queue, and the bounds, the bindings and the rows of the database stay valid.\<close>

theorem install_never_notifies:
  assumes "install_herdr sx later client printable sockets ap socket binary version s = (r, s')" "setup_ok sx" "setup_ok later"
    "sx_sha256 later = sx_sha256 sx" "database_inv (sx_sha256 sx) (ss_database s)"
  shows "stored_events s' \<subseteq> stored_events s \<and> database_inv (sx_sha256 sx) (ss_database s')"
proof (cases "s' = s")
  case False
  obtain c info manifest where g: "load_config (ap_config_file ap) (ss_files s) = Inr c"
    "fst (herdr_backend_supported client (cf_endpoint c)) = Inr ()" "read_daemon_info (sx_daemon sx) = Inr info"
    "HerdrCapability \<in> set (dr_capabilities info)" "HerdrHostCaptureCapability \<in> set (dr_capabilities info)"
    "herdr_manifest printable binary = Inr manifest"
    using install_guards[OF assms(1)] False by metis
  define q where "q = open_database (ss_database s)"
  define q1 where "q1 = set_herdr_capture_enabled True q"
  have q: "queue_inv (sx_sha256 sx) q"
    using assms(5) by (simp add: database_inv_def q_def)
  have q1: "queue_inv (sx_sha256 sx) q1" "q_events q1 = q_events q"
    using q by (simp_all add: q1_def set_herdr_capture_enabled_def queue_inv_def queue_ok_def rows_valid_def)
  obtain res q2 where b: "baseline_sockets sx 0 (sockets @ (if socket \<noteq> [] then [socket] else [])) q1 = (res, q2)"
    by fastforce
  have q2: "queue_inv (sx_sha256 sx) q2" "set (q_events q2) \<subseteq> set (q_events q)"
    using baseline_quiet[OF assms(2) q1(1), of 0 "sockets @ (if socket \<noteq> [] then [socket] else [])"] b q1(2) by auto
  have "ss_database s' = Some (event_columns, q) \<or> ss_database s' = Some (event_columns, q2) \<or>
      (\<exists>t. ss_database t = Some (event_columns, q2) \<and> inspect_herdr later ap socket version t = (r, s'))"
    using assms(1) g b unfolding install_herdr_def
    by (auto simp: Let_def q_def q1_def split: sum.splits prod.splits)
  then show ?thesis
  proof (elim disjE exE conjE)
    fix t assume t: "ss_database t = Some (event_columns, q2)" "inspect_herdr later ap socket version t = (r, s')"
    have "database_inv (sx_sha256 later) (ss_database t)"
      using q2(1) t(1) assms(4) by (simp add: database_inv_def)
    from inspect_herdr_quiet[OF assms(3) this t(2)] show ?thesis
      using q2 t(1) assms(4) by (auto simp: open_current q_def)
  qed (use q q2 in \<open>auto simp: database_inv_def open_current q_def\<close>)
qed (use assms(5) in simp)

section \<open>Readiness\<close>

lemma capture_on_adapter: "capture_on q \<longleftrightarrow> q_adapter q = Some True"
  by (simp add: capture_on_def capture_enabled_def split: option.splits)

lemma base_status_daemon:
  "base_status sx c version = (st, capabilities) \<Longrightarrow> HerdrCapability \<in> set capabilities \<Longrightarrow>
     \<exists>info. read_daemon_info (sx_daemon sx) = Inr info \<and> dr_capabilities info = capabilities \<and>
       hs_registration_state st = dr_registration_state info"
  by (auto simp: base_status_def Let_def split: sum.splits)

text \<open>What of a binding no reconciliation changes.\<close>

definition binding_view :: "herdr_binding \<Rightarrow> string \<times> string \<times> string \<times> bool" where
  "binding_view b = (hb_binding_key b, hb_session_id b, hb_socket_path b, hb_enabled b)"

lemma reconcile_views:
  assumes "reconcile_herdr env uuid binding agents incarnation baseline now q = Inr q'"
  shows "map binding_view (q_bindings q') = map binding_view (q_bindings q)"
proof (cases "binding_active (hb_binding_key binding) q")
  case True
  from reconcile_cases[OF assms True] show ?thesis
  proof cases
    case (1 stored q2 n)
    have "map binding_view (q_bindings (begin_incarnation binding p incarnation now q)) = map binding_view (q_bindings q)" for p
      by (simp add: begin_incarnation_def Let_def binding_view_def)
    then show ?thesis
      using reconcile_agents_bindings[OF 1(4)] remove_all_bindings by (simp add: 1(5))
  qed
qed (use reconcile_inactive(1)[OF assms] in simp)

lemma bind_stored:
  assumes "bind_herdr sha256_hex uuid socket now q = (Inr b, q')"
  shows "\<exists>c \<in> set (q_bindings q'). hb_binding_key c = herdr_binding_key sha256_hex socket \<and>
    hb_session_id c = hb_session_id b \<and> hb_enabled c"
proof (cases "find_binding (herdr_binding_key sha256_hex socket) q")
  case None
  then show ?thesis
    using assms by (auto simp: bind_herdr_def Let_def split: sum.splits if_splits)
next
  case (Some c)
  let ?c = "c\<lparr>hb_updated_at := unix now, hb_enabled := True\<rparr>"
  have "?c \<in> set (q_bindings q')" "b = c\<lparr>hb_enabled := True\<rparr>"
    using assms Some find_binding_some[OF Some] by (auto simp: bind_herdr_def Let_def split: if_splits)
  then show ?thesis
    using find_binding_some[OF Some] by (intro bexI[of _ ?c]) simp_all
qed

lemma view_stored:
  assumes "map binding_view bs = map binding_view bs'" "c \<in> set bs"
  shows "\<exists>c' \<in> set bs'. binding_view c' = binding_view c"
proof -
  have "binding_view c \<in> binding_view ` set bs'"
    using arg_cong[OF assms(1), of set] assms(2) by auto
  then show ?thesis by (metis imageE)
qed

lemma inspected_stored:
  assumes "inspect_binding sx allowed agents socket q = (Inr b, q')" "hb_enabled b"
  shows "\<exists>c \<in> set (q_bindings q'). hb_binding_key c = herdr_binding_key (sx_sha256 sx) socket \<and>
    hb_session_id c = hb_session_id b \<and> hb_enabled c"
proof (cases "get_binding (herdr_binding_key (sx_sha256 sx) socket) q = Inr b \<and> q' = q")
  case True
  then have "b \<in> set (q_bindings q) \<and> hb_binding_key b = herdr_binding_key (sx_sha256 sx) socket"
    using find_binding_some by (simp add: get_binding_def split: option.splits)
  then show ?thesis
    using True assms(2) by blast
next
  case False
  then obtain as incarnation q1 where bind: "bind_herdr (sx_sha256 sx) (sx_binding_id sx 0) socket (sx_now sx 0) q = (Inr b, q1)"
      and rec: "reconcile_herdr (sx_env sx) (sx_event_id sx 0) b as incarnation True (sx_now sx 0) q1 = Inr q'"
    using assms(1) by (auto simp: inspect_binding_def Let_def split: sum.splits if_splits prod.splits)
  obtain c where c: "c \<in> set (q_bindings q1)" "hb_binding_key c = herdr_binding_key (sx_sha256 sx) socket"
      "hb_session_id c = hb_session_id b" "hb_enabled c"
    using bind_stored[OF bind] by blast
  obtain c' where "c' \<in> set (q_bindings q')" "binding_view c' = binding_view c"
    using view_stored[OF reconcile_views[OF rec, symmetric] c(1)] by blast
  then show ?thesis
    using c(2-4) by (auto simp: binding_view_def)
qed

text \<open>C27: A status never claims too much. \<open>ready\<close> means in every status: a running daemon with both Herdr capabilities
  says that the host is registered, capture is switched on in the database, and the plugin is enabled without
  warnings. In the status of the host, asked for without a socket, the plugin is that of the registry, and no session
  is claimed. In the status of a socket the plugin is that of the server that answered, the server's agents were read,
  and the database now holds an enabled binding of this socket with the session identifier that is reported.\<close>

theorem ready_status_means:
  assumes "inspect_herdr sx ap socket version s = (Inr st, s')" "hs_ready st"
  shows "(\<exists>info. read_daemon_info (sx_daemon sx) = Inr info \<and>
      {HerdrCapability, HerdrHostCaptureCapability} \<subseteq> set (dr_capabilities info) \<and>
      dr_registration_state info = RegistrationActive) \<and>
    (\<exists>db. ss_database s = Some db) \<and> q_adapter (open_database (ss_database s)) = Some True \<and>
    (if socket = [] then fst (read_global_herdr_plugin (sx_host sx)) = (True, True)
     else server_plugin_state (sx_plugin_reply sx) = (True, True) \<and> is_ok (sx_read sx 0 socket) \<and>
       (\<exists>q' b. ss_database s' = Some (event_columns, q') \<and> b \<in> set (q_bindings q') \<and>
          hb_binding_key b = herdr_binding_key (sx_sha256 sx) socket \<and>
          hb_session_id b = hs_session_id st \<and> hs_session_id st \<noteq> [] \<and> hb_enabled b))"
proof -
  obtain c where c: "load_config (ap_config_file ap) (ss_files s) = Inr c"
    using assms(1) by (auto simp: inspect_herdr_def split: sum.splits)
  obtain st0 capabilities where base: "base_status sx c version = (st0, capabilities)" by fastforce
  obtain db where db: "ss_database s = Some db"
    using assms c base by (cases "ss_database s") (auto simp: inspect_herdr_def host_ready_def split: sum.splits if_splits prod.splits)
  define q where "q = open_database (ss_database s)"
  have host: "\<exists>info. read_daemon_info (sx_daemon sx) = Inr info \<and>
        {HerdrCapability, HerdrHostCaptureCapability} \<subseteq> set (dr_capabilities info) \<and>
        dr_registration_state info = RegistrationActive" "q_adapter q = Some True" "enabled"
    if "host_ready capabilities (capture_on q) enabled (hs_registration_state st0)" for enabled
  proof -
    have caps: "HerdrCapability \<in> set capabilities" "HerdrHostCaptureCapability \<in> set capabilities"
      "hs_registration_state st0 = RegistrationActive"
      using that by (simp_all add: host_ready_def)
    obtain info where "read_daemon_info (sx_daemon sx) = Inr info" "dr_capabilities info = capabilities"
        "hs_registration_state st0 = dr_registration_state info"
      using base_status_daemon[OF base caps(1)] by blast
    then show "\<exists>info. read_daemon_info (sx_daemon sx) = Inr info \<and>
        {HerdrCapability, HerdrHostCaptureCapability} \<subseteq> set (dr_capabilities info) \<and>
        dr_registration_state info = RegistrationActive"
      using caps by (intro exI[of _ info]) simp
    show "q_adapter q = Some True" "enabled"
      using that by (simp_all add: host_ready_def capture_on_adapter)
  qed
  show ?thesis
  proof (cases "socket = []")
    case True
    obtain installed enabled trace where pl: "read_global_herdr_plugin (sx_host sx) = ((installed, enabled), trace)"
      by (metis prod.collapse)
    have both: "installed" if "enabled"
      using pl that by (auto simp: read_global_herdr_plugin_def registry_state_def split: sum.splits option.splits prod.splits)
    have "host_ready capabilities (capture_on q) enabled (hs_registration_state st0)"
      using assms c base db pl True unfolding q_def by (auto simp: inspect_herdr_def Let_def)
    from host[OF this] show ?thesis
      using both pl True db by (simp add: q_def)
  next
    case False
    obtain installed enabled where pl: "server_plugin_state (sx_plugin_reply sx) = (installed, enabled)" by fastforce
    have both: "installed" if "enabled"
      using pl that by (auto simp: server_plugin_state_def split: sum.splits list.splits)
    obtain b q' where ib: "inspect_binding sx (capture_on q \<and> HerdrHostCaptureCapability \<in> set capabilities \<and> enabled)
        (sx_read sx 0 socket) socket q = (b, q')"
      by fastforce
    have ready: "host_ready capabilities (capture_on q) enabled (hs_registration_state st0)" "is_ok (sx_read sx 0 socket)"
      "\<exists>b0. b = Inr b0 \<and> hb_enabled b0 \<and> hb_session_id b0 = hs_session_id st \<and> hs_session_id st \<noteq> []"
      "ss_database s' = Some (event_columns, q')"
      using assms c base pl db ib False unfolding q_def by (auto simp: inspect_herdr_def Let_def split: sum.splits)
    then obtain b0 where b0: "b = Inr b0" "hb_enabled b0" "hb_session_id b0 = hs_session_id st" "hs_session_id st \<noteq> []"
      by blast
    obtain x where x: "x \<in> set (q_bindings q')" "hb_binding_key x = herdr_binding_key (sx_sha256 sx) socket"
        "hb_session_id x = hb_session_id b0" "hb_enabled x"
      using inspected_stored[OF ib[unfolded b0(1)] b0(2)] by blast
    show ?thesis
      using host[OF ready(1)] both pl ready(2,4) x b0(3,4) db False by (auto simp: q_def)
  qed
qed

end
