(* ===== verification/Cli_Properties.thy ===== *)
theory Cli_Properties
  imports Commands Agent_Paths Plugin_Properties
begin

text \<open>
  What \<open>init\<close> and \<open>switch-backend\<close> do to the identity of the host and to the queued events, and what
  \<open>herdr test\<close> puts into the queue.
\<close>

section \<open>Single steps\<close>

lemma paths_distinct:
  assumes "paths_of cx = Inr ap"
  shows "ap_key_file ap \<noteq> ap_config_file ap" "ap_key_file ap \<noteq> ap_config_file ap @ ''.tmp''"
    "ap_legacy_setup_token_file ap \<noteq> ap_config_file ap" "ap_legacy_setup_token_file ap \<noteq> ap_key_file ap"
    "ap_enrollment_lock ap \<noteq> ap_config_file ap" "ap_enrollment_lock ap \<noteq> ap_key_file ap"
  using default_paths_names(3-6)[OF assms[unfolded paths_of_def]] by simp_all

lemmas paths_distinct_simps = paths_distinct paths_distinct[symmetric]

lemma lock_other: "lock_enrollment flock path fs = (r, fs') \<Longrightarrow> p \<noteq> path \<Longrightarrow> fs' p = fs p"
  by (auto simp: lock_enrollment_def write_file_def split: if_splits)

lemma load_config_cong: "fs' path = fs path \<Longrightarrow> load_config path fs' = load_config path fs"
  by (simp add: load_config_def)

lemma key_at_cong: "fs' path = fs path \<Longrightarrow> key_at path fs' = key_at path fs"
  by (simp add: key_at_def)

lemma remove_other [simp]: "p \<noteq> path \<Longrightarrow> remove_file path fs p = fs p"
  by (simp add: remove_file_def)

lemma saved_config:
  assumes "save_config path c fs = Inr fs'" "config_wf c"
  shows "load_config path fs' = Inr c" "p \<noteq> path \<Longrightarrow> p \<noteq> path @ ''.tmp'' \<Longrightarrow> fs' p = fs p"
proof -
  obtain data where d: "config_text c = Inr data" "fs' path = Some \<lparr>fi_mode = 384, fi_content = data\<rparr>"
      "\<forall>p. p \<noteq> path \<and> p \<noteq> path @ ''.tmp'' \<longrightarrow> fs' p = fs p"
    using save_config_files[OF assms(1)] by blast
  show "load_config path fs' = Inr c"
    using d(2) config_codec.decode_encode[OF assms(2) d(1)] by (simp add: load_config_def)
  show "p \<noteq> path \<Longrightarrow> p \<noteq> path @ ''.tmp'' \<Longrightarrow> fs' p = fs p"
    using d(3) by blast
qed

text \<open>A saved configuration, with the legacy token removed.\<close>

lemma saved_and_cleaned:
  assumes "save_config (ap_config_file ap) c fs = Inr fs'" "config_wf c" "paths_of cx = Inr ap"
  shows "load_config (ap_config_file ap) (remove_file (ap_legacy_setup_token_file ap) fs') = Inr c"
    "remove_file (ap_legacy_setup_token_file ap) fs' (ap_key_file ap) = fs (ap_key_file ap)"
proof -
  note d = paths_distinct_simps[OF assms(3)]
  show "load_config (ap_config_file ap) (remove_file (ap_legacy_setup_token_file ap) fs') = Inr c"
    using saved_config(1)[OF assms(1,2)] d by (simp add: load_config_def)
  show "remove_file (ap_legacy_setup_token_file ap) fs' (ap_key_file ap) = fs (ap_key_file ap)"
    using saved_config(2)[OF assms(1,2)] d by simp
qed

section \<open>\<open>init\<close>\<close>

lemma uuid_char_ascii: "uuid_char c \<Longrightarrow> byte c < 128"
proof -
  have "list_all (\<lambda>c. byte c < 128) (CHR ''-'' # ''0123456789abcdef'')"
    by code_simp
  then show "uuid_char c \<Longrightarrow> byte c < 128"
    unfolding uuid_char_def list_all_iff by auto
qed

lemma uuid_utf8: "list_all uuid_char s \<Longrightarrow> valid_utf8 s"
  using uuid_char_ascii by (intro valid_ascii) (auto simp: ascii_def list_all_iff)

definition init_kept :: "config \<Rightarrow> config \<Rightarrow> bool" where
  "init_kept c c' \<longleftrightarrow> cf_host_id c' = cf_host_id c \<and> cf_endpoint c' = cf_endpoint c \<and>
     (cf_registration_state c' = cf_registration_state c \<or>
      cf_registration_state c = RegistrationNeedsSetupToken \<and> cf_registration_state c' = RegistrationPending)"

lemma init_files_kept:
  assumes "init_files cx ap endpoint fs = (out, r, fs')" "paths_of cx = Inr ap" "load_config (ap_config_file ap) fs = Inr c" "config_wf c"
  shows "\<exists>c'. load_config (ap_config_file ap) fs' = Inr c' \<and> init_kept c c' \<and> fs' (ap_key_file ap) = fs (ap_key_file ap)"
proof -
  note d = paths_distinct_simps[OF assms(2)]
  obtain lr fs1 where lock: "lock_enrollment (cx_lock cx) (ap_enrollment_lock ap) fs = (lr, fs1)" by fastforce
  have fs1: "load_config (ap_config_file ap) fs1 = Inr c" "fs1 (ap_key_file ap) = fs (ap_key_file ap)"
    using lock_other[OF lock] d assms(3) load_config_cong[of fs1 "ap_config_file ap" fs] by auto
  consider "fs' = fs1" | "fs' = remove_file (ap_legacy_setup_token_file ap) fs1"
    | c' fs2 where "save_config (ap_config_file ap) c' fs1 = Inr fs2" "fs' = remove_file (ap_legacy_setup_token_file ap) fs2"
        "c' = c \<or> cf_registration_state c = RegistrationNeedsSetupToken \<and> c' = c\<lparr>cf_registration_state := RegistrationPending\<rparr>"
    using assms(1) lock fs1(1)
    by (auto simp: init_files_def plan_init_def plan_existing_def finish_init_def split: sum.splits if_splits)
  then show ?thesis
  proof cases
    case 1
    then show ?thesis using fs1 by (auto simp: init_kept_def)
  next
    case 2
    then show ?thesis
      using fs1 d load_config_cong[of fs' "ap_config_file ap" fs1] by (auto simp: init_kept_def)
  next
    case (3 c' fs2)
    have "config_wf c'"
      using 3(3) assms(4) by (auto simp: config_wf_def)
    from saved_and_cleaned[OF 3(1) this assms(2)] show ?thesis
      using 3(2,3) fs1 by (auto simp: init_kept_def)
  qed
qed

lemma run_init_files:
  assumes "run_init cx arguments s = (out, r, s')" "paths_of cx = Inr ap"
  shows "s' = s \<and> r \<noteq> Inr () \<or> (\<exists>flags. parse_flags [(''endpoint'', StringFlag [])] arguments = Inr (flags, []) \<and>
    init_files cx ap (string_flag ''endpoint'' flags) (ss_files s) = (out, r, ss_files s') \<and> s' = s\<lparr>ss_files := ss_files s'\<rparr>)"
  using assms by (auto simp: run_init_def split: sum.splits prod.splits if_splits)

text \<open>C10: \<open>init\<close> never replaces an identity. With any arguments, and whether it succeeds or fails, a configured host
  keeps its identifier, its key file and its backend, the queue is not touched, and its registration state changes
  only from \<open>needs_setup_token\<close> to \<open>pending\<close>.\<close>

theorem init_keeps_identity:
  assumes "run_init cx arguments s = (out, r, s')" "paths_of cx = Inr ap"
    "load_config (ap_config_file ap) (ss_files s) = Inr c" "config_wf c"
  shows "\<exists>c'. load_config (ap_config_file ap) (ss_files s') = Inr c' \<and> cf_host_id c' = cf_host_id c \<and>
    cf_endpoint c' = cf_endpoint c \<and> ss_files s' (ap_key_file ap) = ss_files s (ap_key_file ap) \<and> ss_database s' = ss_database s \<and>
    (cf_registration_state c' = cf_registration_state c \<or>
     cf_registration_state c = RegistrationNeedsSetupToken \<and> cf_registration_state c' = RegistrationPending)"
proof -
  have db: "ss_database s' = ss_database s"
    using run_init_files[OF assms(1,2)] by (metis setup_state.select_convs(2) setup_state.surjective setup_state.update_convs(1))
  show ?thesis
    using run_init_files[OF assms(1,2)]
  proof (elim disjE exE conjE)
    fix flags assume "init_files cx ap (string_flag ''endpoint'' flags) (ss_files s) = (out, r, ss_files s')"
    from init_files_kept[OF this assms(2-4)] show ?thesis
      using db by (auto simp: init_kept_def split: if_splits)
  qed (use assms(3) db in auto)
qed

text \<open>C33: On a new host \<open>init\<close> succeeds only with a valid endpoint, and then the host has an identity: the configuration
  loads with the identifier drawn and the state \<open>pending\<close>, the key that was made is in its file, readable by
  the owner only. The queue is not touched.\<close>

theorem init_creates_identity:
  assumes "run_init cx arguments s = (out, Inr (), s')" "paths_of cx = Inr ap"
    "load_config (ap_config_file ap) (ss_files s) = Inl ErrNotExist" "parse_flags [(''endpoint'', StringFlag [])] arguments = Inr (flags, [])"
    "valid_utf8 (string_flag ''endpoint'' flags)" "cx_new_key cx = Inr key" "length key = private_key_size"
    "cx_random cx 0 = Inr v" "length v = 16"
  shows "load_config (ap_config_file ap) (ss_files s') = Inr \<lparr>cf_version = 1, cf_host_id = uuid_text v,
      cf_endpoint = string_flag ''endpoint'' flags, cf_registration_state = RegistrationPending\<rparr> \<and>
    key_at (ap_key_file ap) (ss_files s') = Inr key \<and> map_option fi_mode (ss_files s' (ap_key_file ap)) = Some 384 \<and>
    is_ok (parse_notification_endpoint (string_flag ''endpoint'' flags)) \<and> ss_database s' = ss_database s"
proof -
  note d = paths_distinct_simps[OF assms(2)]
  obtain lr fs1 where lock: "lock_enrollment (cx_lock cx) (ap_enrollment_lock ap) (ss_files s) = (lr, fs1)" by fastforce
  have fs1: "load_config (ap_config_file ap) fs1 = Inl ErrNotExist"
    using lock_other[OF lock] d assms(3) load_config_cong[of fs1 "ap_config_file ap" "ss_files s"] by auto
  let ?c = "\<lparr>cf_version = 1, cf_host_id = uuid_text v, cf_endpoint = string_flag ''endpoint'' flags, cf_registration_state = RegistrationPending\<rparr>"
  let ?fs2 = "write_file (ap_key_file ap) 384 (key_file key) fs1"
  have run: "init_files cx ap (string_flag ''endpoint'' flags) (ss_files s) = (out, Inr (), ss_files s')" "s' = s\<lparr>ss_files := ss_files s'\<rparr>"
    using run_init_files[OF assms(1,2)] assms(4) by auto
  obtain fs3 where save: "save_config (ap_config_file ap) ?c ?fs2 = Inr fs3"
      and s': "ss_files s' = remove_file (ap_legacy_setup_token_file ap) fs3"
    using run(1) lock fs1 assms(6,8)
    by (auto simp: init_files_def plan_init_def plan_new_def generate_identity_def new_uuid_def finish_init_def split: sum.splits if_splits)
  have "list_all uuid_char (uuid_text v)"
    using uuid_text_shape(2)[OF assms(9)] .
  then have wf: "config_wf ?c"
    using assms(5) by (simp add: config_wf_def uuid_utf8)
  note saved = saved_and_cleaned[OF save wf assms(2)]
  have key: "ss_files s' (ap_key_file ap) = Some \<lparr>fi_mode = 384, fi_content = key_file key\<rparr>"
    using saved(2) s' by (simp add: write_file_def)
  have "key_at (ap_key_file ap) (ss_files s') = Inr key"
    using assms(7) by (simp add: key_at_def key load_private_key_def trim_key_file)
  moreover have "\<exists>u. validate_config ?c = Inr u"
    using save by (auto simp: save_config_def config_text_def split: sum.splits)
  then have "is_ok (parse_notification_endpoint (string_flag ''endpoint'' flags))"
    using validate_shape[of ?c] by auto
  moreover have "ss_database s' = ss_database s"
    using arg_cong[OF run(2), of ss_database] by simp
  ultimately show ?thesis
    using saved(1) s' key by simp
qed

text \<open>After an identity conflict \<open>init\<close> reports more than it does: it succeeds and prints that the enrollment is
  staged and that the daemon will enroll the host, but the state stays \<open>identity_conflict\<close>, in which the daemon
  makes no request.\<close>

theorem init_conflict_stays:
  assumes "run_init cx arguments s = (out, Inr (), s')" "paths_of cx = Inr ap"
    "load_config (ap_config_file ap) (ss_files s) = Inr c" "config_wf c" "cf_registration_state c = RegistrationIdentityConflict"
  shows "out = println [''NovaScale notification enrollment staged:'', cf_host_id c] @
      println [''The agent daemon will enroll this host in the background.''] \<and>
    load_config (ap_config_file ap) (ss_files s') = Inr c"
proof -
  obtain flags where run: "init_files cx ap (string_flag ''endpoint'' flags) (ss_files s) = (out, Inr (), ss_files s')"
    using run_init_files[OF assms(1,2)] by auto
  obtain lr fs1 where lock: "lock_enrollment (cx_lock cx) (ap_enrollment_lock ap) (ss_files s) = (lr, fs1)" by fastforce
  have fs1: "load_config (ap_config_file ap) fs1 = Inr c"
    using lock_other[OF lock] paths_distinct_simps[OF assms(2)] assms(3) load_config_cong[of fs1 "ap_config_file ap" "ss_files s"] by auto
  have state: "cf_registration_state c \<noteq> RegistrationActive" "cf_registration_state c \<noteq> RegistrationNeedsSetupToken"
    using assms(5) by (simp_all add: registration_defs)
  obtain fs2 where "save_config (ap_config_file ap) c fs1 = Inr fs2" "ss_files s' = remove_file (ap_legacy_setup_token_file ap) fs2"
      "out = println [''NovaScale notification enrollment staged:'', cf_host_id c] @
      println [''The agent daemon will enroll this host in the background.'']"
    using run lock fs1 state
    by (auto simp: init_files_def plan_init_def plan_existing_def finish_init_def split: sum.splits if_splits)
  then show ?thesis
    using saved_and_cleaned(1)[OF _ assms(4,2)] by simp
qed

section \<open>\<open>switch-backend\<close>\<close>

lemma bind_old_files [simp]: "bind_old_events endpoint s = (r, s') \<Longrightarrow> ss_files s' = ss_files s"
  by (auto simp: bind_old_events_def Let_def split: option.splits sum.splits)

text \<open>A successful switch either finds nothing to do or binds the old events and then saves.\<close>

lemma switch_locked_cases:
  assumes "switch_locked ap endpoint force s = (out, r, s')" "load_config (ap_config_file ap) (ss_files s) = Inr c"
  obtains (unchanged) "ss_files s' = ss_files s" "r = Inr () \<Longrightarrow> s' = s \<and> \<not> force \<and>
      cf_registration_state c = RegistrationActive \<and> same_notification_endpoint (cf_endpoint c) endpoint"
  | (switched) s1 fs where "r = Inr ()" "bind_old_events (cf_endpoint c) s = (Inr (), s1)"
      "save_config (ap_config_file ap) (c\<lparr>cf_endpoint := endpoint, cf_registration_state := RegistrationPending\<rparr>) (ss_files s) = Inr fs"
      "s' = s1\<lparr>ss_files := remove_file (ap_legacy_setup_token_file ap) fs\<rparr>"
proof -
  let ?new = "c\<lparr>cf_endpoint := endpoint, cf_registration_state := RegistrationPending\<rparr>"
  let ?noop = "\<not> force \<and> cf_registration_state c = RegistrationActive \<and> same_notification_endpoint (cf_endpoint c) endpoint"
  obtain br s1 where bind: "bind_old_events (cf_endpoint c) s = (br, s1)" by fastforce
  show thesis
  proof (cases "is_ok (key_at (ap_key_file ap) (ss_files s)) \<and> is_ok (validate_config ?new) \<and> \<not> ?noop")
    case True
    then obtain key v where k: "key_at (ap_key_file ap) (ss_files s) = Inr key" "validate_config ?new = Inr v"
      by (auto simp: is_ok_iff)
    show thesis
    proof (cases br)
      case (Inl e)
      then show thesis
        using assms k True bind by (intro unchanged) (simp_all add: switch_locked_def del: de_Morgan_conj)
    next
      case (Inr u)
      show thesis
      proof (cases "save_config (ap_config_file ap) ?new (ss_files s)")
        case (Inl e)
        then have "r = Inl e" "s' = s1"
          using assms k True bind \<open>br = Inr u\<close> by (simp_all add: switch_locked_def del: de_Morgan_conj)
        then show thesis
          using bind unchanged by simp
      next
        case (Inr fs)
        then show thesis
          using assms k True bind \<open>br = Inr u\<close> switched by (simp add: switch_locked_def del: de_Morgan_conj)
      qed
    qed
  next
    case False
    then have "ss_files s' = ss_files s \<and> (r = Inr () \<longrightarrow> s' = s \<and> ?noop)"
      using assms by (cases "key_at (ap_key_file ap) (ss_files s)"; cases "validate_config ?new") (simp_all add: switch_locked_def, auto)
    then show thesis
      using unchanged by blast
  qed
qed

lemma run_switch_cases:
  assumes "run_switch_backend cx arguments s = (out, r, s')" "paths_of cx = Inr ap"
    "parse_flags [(''endpoint'', StringFlag []), (''force'', BoolFlag False)] arguments = Inr (flags, presets)"
    "chosen_endpoint (string_flag ''endpoint'' flags) presets = Inr endpoint"
  obtains (locked) e fs where "lock_enrollment (cx_lock cx) (ap_enrollment_lock ap) (ss_files s) = (Inl e, fs)" "r = Inl e" "s' = s\<lparr>ss_files := fs\<rparr>"
  | (free) fs where "lock_enrollment (cx_lock cx) (ap_enrollment_lock ap) (ss_files s) = (Inr (), fs)"
      "switch_locked ap endpoint (bool_flag ''force'' flags) (s\<lparr>ss_files := fs\<rparr>) = (out, r, s')"
  using assms by (auto simp: run_switch_backend_def split: sum.splits prod.splits)

text \<open>C13: A switch of the backend keeps the identity of the host. Whether it succeeds or fails, the host identifier and
  the key file stay; a failed switch leaves the configuration as it was; a successful one either had nothing to do,
  because the host is enrolled at this endpoint, or stores the new endpoint with a pending registration.\<close>

theorem switch_keeps_identity:
  assumes "run_switch_backend cx arguments s = (out, r, s')" "paths_of cx = Inr ap"
    "parse_flags [(''endpoint'', StringFlag []), (''force'', BoolFlag False)] arguments = Inr (flags, presets)"
    "chosen_endpoint (string_flag ''endpoint'' flags) presets = Inr endpoint" "valid_utf8 endpoint"
    "load_config (ap_config_file ap) (ss_files s) = Inr c" "config_wf c"
  shows "\<exists>c'. load_config (ap_config_file ap) (ss_files s') = Inr c' \<and> cf_host_id c' = cf_host_id c \<and>
    ss_files s' (ap_key_file ap) = ss_files s (ap_key_file ap) \<and> (r \<noteq> Inr () \<longrightarrow> c' = c) \<and>
    (c' = c \<and> (r = Inr () \<longrightarrow> \<not> bool_flag ''force'' flags \<and> cf_registration_state c = RegistrationActive \<and>
        same_notification_endpoint (cf_endpoint c) endpoint) \<or>
     c' = c\<lparr>cf_endpoint := endpoint, cf_registration_state := RegistrationPending\<rparr>)"
  using run_switch_cases[OF assms(1-4)]
proof cases
  case (1 e fs)
  then show ?thesis
    using lock_other[OF 1(1)] paths_distinct_simps[OF assms(2)] assms(6)
      load_config_cong[of fs "ap_config_file ap" "ss_files s"] by auto
next
  case (2 fs)
  note d = paths_distinct_simps[OF assms(2)]
  have fs: "load_config (ap_config_file ap) fs = Inr c" "fs (ap_key_file ap) = ss_files s (ap_key_file ap)"
    using lock_other[OF 2(1)] d assms(6) load_config_cong[of fs "ap_config_file ap" "ss_files s"] by auto
  then have load: "load_config (ap_config_file ap) (ss_files (s\<lparr>ss_files := fs\<rparr>)) = Inr c"
    by simp
  from 2(2) load show ?thesis
  proof (cases rule: switch_locked_cases)
    case unchanged
    then show ?thesis using fs by auto
  next
    case (switched s1 fs2)
    have "config_wf (c\<lparr>cf_endpoint := endpoint, cf_registration_state := RegistrationPending\<rparr>)"
      using assms(5,7) by (simp add: config_wf_def)
    from saved_and_cleaned[OF switched(3) this assms(2)] show ?thesis
      using switched(1,4) fs by simp
  qed
qed

section \<open>Events across a switch\<close>

text \<open>An endpoint is never made of slashes only.\<close>

lemma trim_right_nil: "trim_right c s = [] \<Longrightarrow> set s \<subseteq> {c}"
  using trim_right_decomp[of s c] by (metis append_Nil set_replicate_conv_if empty_subsetI subset_refl)

lemma set_path_scheme: "set_path p u = Some u' \<Longrightarrow> u_scheme u' = u_scheme u"
  by (auto simp: set_path_def split: option.splits)

lemma parse_reference_scheme:
  "parse_reference raw = Some u \<Longrightarrow> get_scheme raw = Some (scheme, rest) \<Longrightarrow> u_scheme u = scheme"
  by (auto simp: parse_reference_def Let_def split: prod.splits if_splits option.splits dest!: set_path_scheme)

lemma slashes_no_endpoint:
  assumes "set raw \<subseteq> {CHR ''/''}"
  shows "parse_notification_endpoint raw \<noteq> Inr u"
proof
  assume p: "parse_notification_endpoint raw = Inr u"
  have n: "\<not> is_alpha (CHR ''/'')" "\<not> is_digit (CHR ''/'')"
    by code_simp+
  have "scan_scheme [] raw = None"
    using assms n by (cases raw) auto
  then have g: "get_scheme raw = Some ([], raw)"
    by (simp add: get_scheme_def)
  have c: "cut (CHR ''#'') raw = (raw, [], False)"
    using assms by (induction raw) auto
  obtain v where "parse_reference raw = Some v" "u = v"
    using p c by (auto simp: parse_notification_endpoint_def url_parse_def Let_def split: option.splits if_splits)
  then have "u_scheme u = []"
    using parse_reference_scheme g by blast
  then show False
    using endpoint_secure[OF p] by (simp add: secure_endpoint_def)
qed

lemma endpoint_trim_nonempty:
  assumes "parse_notification_endpoint raw = Inr u"
  shows "trim_right (CHR ''/'') raw \<noteq> []" "trim_right (CHR ''/'') (url_text u) \<noteq> []"
proof -
  show "trim_right (CHR ''/'') raw \<noteq> []"
    using slashes_no_endpoint assms trim_right_nil by blast
  have "u_scheme u \<noteq> []"
    using endpoint_secure[OF assms] by (auto simp: secure_endpoint_def)
  then have "CHR '':'' \<in> set (url_text u)"
    by (simp add: url_text_def Let_def)
  then show "trim_right (CHR ''/'') (url_text u) \<noteq> []"
    using trim_right_nil by fastforce
qed

lemma validated_endpoint: "validate_config c = Inr v \<Longrightarrow> \<exists>u. parse_notification_endpoint (cf_endpoint c) = Inr u"
  using validate_shape by blast

text \<open>Once every event is bound, configuring another backend moves none.\<close>

lemma configure_binds:
  assumes "configure_backend f endpoint q = Inr q'" "f endpoint = Inr t" "trim_right (CHR ''/'') t = b"
    "\<forall>r \<in> set (q_events q). pe_backend r \<in> {[], b}" "q_backend q \<in> {None, Some b}"
  shows "\<forall>r \<in> set (q_events q'). pe_backend r = b" "q_backend q' = Some b"
    "map pe_event_id (q_events q') = map pe_event_id (q_events q)"
  using assms by (auto simp: configure_backend_def Let_def)

lemma configure_keeps_bound:
  assumes "configure_backend f endpoint q = Inr q'" "\<forall>r \<in> set (q_events q). pe_backend r = b" "b \<noteq> []"
  shows "q_events q' = q_events q"
proof -
  have "map (\<lambda>r. if pe_backend r = [] then r\<lparr>pe_backend := x\<rparr> else r) (q_events q) = q_events q" for x
    using assms(2,3) by (intro map_idI) auto
  then show ?thesis
    using assms(1) by (auto simp: configure_backend_def Let_def split: sum.splits)
qed

lemma next_other_backend:
  assumes "\<forall>r \<in> set (q_events q). pe_backend r = b" "trim_right (CHR ''/'') backend \<noteq> b" "trim_right (CHR ''/'') backend \<noteq> []"
  shows "fst (next_for_backend now backend q) = Inl ErrNoRows"
proof -
  have "filter (due (unix now) (trim_right (CHR ''/'') backend)) (delete_expired (unix now) (q_events q)) = []"
    using assms by (auto simp: filter_empty_conv due_def delete_expired_def)
  then show ?thesis
    by (simp add: next_for_backend_def next_event_def dequeue_order_def)
qed

lemma bound_after_switch:
  assumes "bind_old_events endpoint s = (Inr (), s1)" "endpoint_text endpoint = Inr t" "trim_right (CHR ''/'') t = b"
    "\<forall>r \<in> set (q_events (open_database (ss_database s))). pe_backend r \<in> {[], b}"
    "q_backend (open_database (ss_database s)) \<in> {None, Some b}"
  shows "\<forall>r \<in> set (q_events (open_database (ss_database s1))). pe_backend r = b"
    "map pe_event_id (q_events (open_database (ss_database s1))) = map pe_event_id (q_events (open_database (ss_database s)))"
proof -
  let ?q = "open_database (ss_database s)"
  have "ss_database s = None \<and> s1 = s \<or> (\<exists>q'. configure_backend endpoint_text endpoint ?q = Inr q' \<and>
      ss_database s1 = Some (event_columns, q'))"
  proof (cases "ss_database s")
    case None
    then show ?thesis using assms(1) by (simp add: bind_old_events_def)
  next
    case (Some db)
    then show ?thesis
      using assms(1) by (cases "configure_backend endpoint_text endpoint ?q") (auto simp: bind_old_events_def)
  qed
  then show "\<forall>r \<in> set (q_events (open_database (ss_database s1))). pe_backend r = b"
    "map pe_event_id (q_events (open_database (ss_database s1))) = map pe_event_id (q_events ?q)"
  proof (atomize (full), elim disjE exE conjE)
    fix q' assume c: "configure_backend endpoint_text endpoint ?q = Inr q'" "ss_database s1 = Some (event_columns, q')"
    show "(\<forall>r \<in> set (q_events (open_database (ss_database s1))). pe_backend r = b) \<and>
        map pe_event_id (q_events (open_database (ss_database s1))) = map pe_event_id (q_events ?q)"
      using configure_binds[OF c(1) assms(2-5)] c(2) by (simp add: open_current)
  qed (simp add: open_database_def open_queue_def migrate_rows_def add_column_def event_columns_def empty_queue_def)
qed

lemma serve_setup_cases:
  assumes "serve_setup cx arguments s = (Inr (socket, c, key, q), s')" "paths_of cx = Inr ap"
  shows "load_config (ap_config_file ap) (ss_files s) = Inr c"
    "configure_backend endpoint_text (cf_endpoint c) (open_database (ss_database s)) = Inr q" "ss_database s' = Some (event_columns, q)"
  using assms by (auto simp: serve_setup_def Let_def split: sum.splits)

text \<open>C7: No event changes its backend with the host. Suppose every event in the database is unassigned or belongs to
  the old backend. After a switch to another backend and a start of the daemon all of them are still there, but the
  upload worker finds nothing for the new backend, at any time.\<close>

theorem switched_events_stay:
  assumes "run_switch_backend cx arguments s = (out, Inr (), s')" "paths_of cx = Inr ap"
    "parse_flags [(''endpoint'', StringFlag []), (''force'', BoolFlag False)] arguments = Inr (flags, presets)"
    "chosen_endpoint (string_flag ''endpoint'' flags) presets = Inr endpoint" "valid_utf8 endpoint"
    "load_config (ap_config_file ap) (ss_files s) = Inr c" "config_wf c" "endpoint_text (cf_endpoint c) = Inr t"
    "\<forall>r \<in> set (q_events (open_database (ss_database s))). pe_backend r \<in> {[], trim_right (CHR ''/'') t}"
    "q_backend (open_database (ss_database s)) \<in> {None, Some (trim_right (CHR ''/'') t)}"
    "trim_right (CHR ''/'') endpoint \<noteq> trim_right (CHR ''/'') t" "\<not> same_notification_endpoint (cf_endpoint c) endpoint"
    "serve_setup cx serve_arguments s' = (Inr (socket, c', key, q), s'')"
  shows "cf_endpoint c' = endpoint \<and>
    map pe_event_id (q_events q) = map pe_event_id (q_events (open_database (ss_database s))) \<and>
    fst (next_for_backend now (cf_endpoint c') q) = Inl ErrNoRows"
proof -
  let ?new = "c\<lparr>cf_endpoint := endpoint, cf_registration_state := RegistrationPending\<rparr>"
  obtain fs where lock: "lock_enrollment (cx_lock cx) (ap_enrollment_lock ap) (ss_files s) = (Inr (), fs)"
      and sw: "switch_locked ap endpoint (bool_flag ''force'' flags) (s\<lparr>ss_files := fs\<rparr>) = (out, Inr (), s')"
    by (rule run_switch_cases[OF assms(1-4)]) (use that in simp_all)
  have load: "load_config (ap_config_file ap) (ss_files (s\<lparr>ss_files := fs\<rparr>)) = Inr c"
    using lock_other[OF lock] paths_distinct_simps[OF assms(2)] assms(6) load_config_cong[of fs "ap_config_file ap" "ss_files s"] by simp
  obtain s1 fs2 where bind: "bind_old_events (cf_endpoint c) (s\<lparr>ss_files := fs\<rparr>) = (Inr (), s1)"
      and save: "save_config (ap_config_file ap) ?new (ss_files (s\<lparr>ss_files := fs\<rparr>)) = Inr fs2"
      and s': "s' = s1\<lparr>ss_files := remove_file (ap_legacy_setup_token_file ap) fs2\<rparr>"
    by (rule switch_locked_cases[OF sw load]) (use that assms(12) in simp_all)
  obtain u v where u: "parse_notification_endpoint (cf_endpoint c) = Inr u" "t = url_text u" and v: "parse_notification_endpoint endpoint = Inr v"
  proof -
    have "\<exists>w. validate_config ?new = Inr w"
      using save by (auto simp: save_config_def config_text_def split: sum.splits)
    then have "\<exists>v. parse_notification_endpoint endpoint = Inr v"
      using validated_endpoint[of ?new] by auto
    moreover have "\<exists>u. parse_notification_endpoint (cf_endpoint c) = Inr u \<and> t = url_text u"
      using assms(8) by (auto simp: endpoint_text_def split: sum.splits)
    ultimately show thesis
      using that by blast
  qed
  have wf: "config_wf ?new"
    using assms(5,7) by (simp add: config_wf_def)
  note serve = serve_setup_cases[OF assms(13,2)]
  have c': "c' = ?new"
    using serve(1) saved_and_cleaned(1)[OF save wf assms(2)] s' by simp
  have bound: "\<forall>r \<in> set (q_events (open_database (ss_database s'))). pe_backend r = trim_right (CHR ''/'') t"
    "map pe_event_id (q_events (open_database (ss_database s'))) = map pe_event_id (q_events (open_database (ss_database s)))"
  proof -
    have db: "ss_database s' = ss_database s1" "ss_database (s\<lparr>ss_files := fs\<rparr>) = ss_database s"
      by (simp_all add: s')
    note b = bound_after_switch[OF bind assms(8) refl, unfolded db(2), OF assms(9,10)]
    show "\<forall>r \<in> set (q_events (open_database (ss_database s'))). pe_backend r = trim_right (CHR ''/'') t"
      unfolding db(1) by (rule b(1))
    show "map pe_event_id (q_events (open_database (ss_database s'))) = map pe_event_id (q_events (open_database (ss_database s)))"
      unfolding db(1) by (rule b(2))
  qed
  have q: "q_events q = q_events (open_database (ss_database s'))"
    using configure_keeps_bound[OF serve(2) bound(1)] endpoint_trim_nonempty(2)[OF u(1)] u(2) by simp
  have "cf_endpoint c' = endpoint"
    by (simp add: c')
  moreover have "map pe_event_id (q_events q) = map pe_event_id (q_events (open_database (ss_database s)))"
    unfolding q by (rule bound(2))
  moreover have "fst (next_for_backend now endpoint q) = Inl ErrNoRows"
    using bound(1) by (intro next_other_backend[OF _ assms(11) endpoint_trim_nonempty(1)[OF v]]) (simp only: q)
  ultimately show ?thesis
    by (simp only: simp_thms)
qed

section \<open>The test notification\<close>

lemma uuid_session: "length v = 16 \<Longrightarrow> session_wf (uuid_text v)"
proof -
  assume v: "length v = 16"
  have "\<not> uuid_char c" if "c \<in> set [chr 13, chr 10, chr 0]" for c
  proof -
    have "list_all (\<lambda>c. \<not> uuid_char c) [chr 13, chr 10, chr 0]"
      by code_simp
    then show ?thesis
      using that unfolding list_all_iff by blast
  qed
  then have "\<not> contains_any (uuid_text v) [chr 13, chr 10, chr 0]"
    using uuid_text_shape(2)[OF v] unfolding contains_any_def list_ex_iff list_all_iff by blast
  then show "session_wf (uuid_text v)"
    using uuid_text_shape(1,2)[OF v] by (auto simp: session_wf_def valid_id_def uuid_utf8)
qed

lemma bindings_session:
  "bindings_ok sha256_hex (q_bindings q) \<Longrightarrow> b \<in> set (herdr_bindings q) \<or> find_binding key q = Some b \<Longrightarrow> session_wf (hb_session_id b)"
  using find_binding_some[of key q b]
  by (auto simp: bindings_ok_def list_all_iff herdr_bindings_def dest!: in_set_takeD)

lemma test_session_wf:
  assumes "test_session cx socket q = Inr session" "bindings_ok sha256_hex (q_bindings q)"
    "\<And>v. cx_random cx 0 = Inr v \<Longrightarrow> length v = 16"
  shows "session_wf session"
proof (cases "socket = []")
  case False
  then obtain b where "find_binding (herdr_binding_key (sx_sha256 (cx_setup cx)) socket) q = Some b" "session = hb_session_id b"
    using assms(1) by (auto simp: test_session_def get_binding_def split: option.splits if_splits)
  then show ?thesis
    using bindings_session[OF assms(2)] by blast
next
  case True
  show ?thesis
  proof (cases "herdr_bindings q")
    case Nil
    then show ?thesis
      using True assms(1,3) uuid_session by (auto simp: test_session_def new_uuid_def split: sum.splits)
  next
    case (Cons b bs)
    then show ?thesis
      using True assms(1) bindings_session[OF assms(2), of b] by (simp add: test_session_def)
  qed
qed

lemma test_event_valid:
  assumes "session_wf session" "valid_id installation" "\<not> is_zero_time now"
  shows "host_event_valid (test_event session installation now)" "event_source (test_event session installation now) = ''herdr''"
  using assms by (simp_all add: test_event_def host_event_valid_def herdr_target_valid_def event_source_def session_wf_def
    is_zero_time_def utc_def protocol_consts)

lemma test_event_wf:
  "session_wf session \<Longrightarrow> valid_utf8 installation \<Longrightarrow> host_event_wf (test_event session installation now)"
  by (simp add: test_event_def host_event_wf_def target_wf_def session_wf_def int64_def protocol_consts EventTestNotification_def key_utf8 byte_def)

text \<open>\<open>herdr test\<close> queues one valid test event and nothing else. When it reports success, capture is switched on,
  the event that was queued decodes to a valid test notification for the given installation, no Codex event that has
  not expired was displaced, and the bounds and the validity of the stored events are kept.\<close>

theorem herdr_test_queued:
  assumes "run_herdr_test cx ap socket installation s = (out, Inr (), s')"
    "database_inv (sx_sha256 (cx_setup cx)) (ss_database s)" "valid_utf8 installation" "\<not> is_zero_time (cx_now cx)"
    "\<And>v. cx_random cx 0 = Inr v \<Longrightarrow> length v = 16"
  shows "database_inv (sx_sha256 (cx_setup cx)) (ss_database s') \<and> q_adapter (open_database (ss_database s)) = Some True \<and>
    (\<exists>event_id body session. let q = open_database (ss_database s); q' = enqueue_event event_id body (cx_now cx) q in
       ss_database s' = Some (event_columns, q') \<and> valid_id session \<and>
       unmarshal_host_event body = Inr (test_event session installation (cx_now cx)) \<and>
       host_event_valid (test_event session installation (cx_now cx)) \<and>
       filter (\<lambda>r. pe_source r = ''codex'') (q_events q') =
       filter (\<lambda>r. pe_source r = ''codex'') (delete_expired (unix (cx_now cx)) (q_events q)))"
proof -
  define q where "q = open_database (ss_database s)"
  have inv: "queue_inv (sx_sha256 (cx_setup cx)) q"
    using assms(2) by (simp add: database_inv_def q_def)
  obtain q' where qt: "queue_test cx socket installation q = (out, Inr (), q')" and s': "s' = put_database q' s"
      and inst: "valid_id installation"
    using assms(1) by (auto simp: run_herdr_test_def q_def split: if_splits sum.splits prod.splits)
  obtain session i body where ses: "test_session cx socket q = Inr session" and on: "capture_on q"
      and m: "marshal_host_event (test_event session installation (cx_now cx)) = Inr body"
      and q': "q' = enqueue_event i body (cx_now cx) q"
    using qt by (auto simp: queue_test_def split: if_splits sum.splits)
  have swf: "session_wf session"
    using test_session_wf[OF ses _ assms(5)] inv by (auto simp: queue_inv_def)
  note v = test_event_valid[OF swf inst assms(4)] and w = test_event_wf[OF swf assms(3)]
  have row: "pe_source (new_row (q_backend q) i body (cx_now cx)) = ''herdr''"
    using new_row_valid[OF m w v(1)] v(2) by simp
  have "queue_inv (sx_sha256 (cx_setup cx)) q'"
    using inv enqueue_ok enqueue_rows_valid[OF _ m w v(1)] q'
    by (auto simp: queue_inv_def queue_ok_def enqueue_event_def Let_def)
  moreover have "filter (\<lambda>r. pe_source r = ''codex'') (q_events q') =
       filter (\<lambda>r. pe_source r = ''codex'') (delete_expired (unix (cx_now cx)) (q_events q))"
    using enqueue_herdr_keeps_codex[OF _ row] inv q' by (simp add: queue_inv_def queue_ok_def)
  moreover have "unmarshal_host_event body = Inr (test_event session installation (cx_now cx))"
    using host_codec.decode_encode[OF w m] .
  ultimately have "database_inv (sx_sha256 (cx_setup cx)) (ss_database s') \<and> q_adapter q = Some True \<and>
      (ss_database s' = Some (event_columns, q') \<and> valid_id session \<and>
       unmarshal_host_event body = Inr (test_event session installation (cx_now cx)) \<and>
       host_event_valid (test_event session installation (cx_now cx)) \<and>
       filter (\<lambda>r. pe_source r = ''codex'') (q_events q') =
       filter (\<lambda>r. pe_source r = ''codex'') (delete_expired (unix (cx_now cx)) (q_events q)))"
    using v(1) on s' swf by (simp add: database_inv_def capture_on_adapter session_wf_def)
  then show ?thesis
    unfolding Let_def q_def[symmetric] q' by blast
qed

section \<open>An endpoint that is not its own normal form\<close>

lemma trim_right_keeps:
  assumes "d \<in> set ys" "d \<noteq> c"
  shows "has_prefix (trim_right c (xs @ ys)) xs"
proof -
  have "dropWhile (\<lambda>d. d = c) (rev ys @ rev xs) = dropWhile (\<lambda>d. d = c) (rev ys) @ rev xs"
    using assms by (intro dropWhile_append1[of d]) simp_all
  then show ?thesis
    by (simp add: trim_right_def has_prefix_iff)
qed

lemma normal_text_scheme:
  assumes "parse_notification_endpoint ep = Inr u"
  shows "has_prefix (trim_right (CHR ''/'') (url_text u)) (u_scheme u)"
proof -
  have "u_scheme u \<noteq> []"
    using endpoint_secure[OF assms] by (auto simp: secure_endpoint_def)
  then obtain rest where "url_text u = u_scheme u @ CHR '':'' # rest"
    by (simp add: url_text_def Let_def)
  then show ?thesis
    using trim_right_keeps[of "CHR '':''" "CHR '':'' # rest" "CHR ''/''" "u_scheme u"] by simp
qed

text \<open>C37: A scheme in capitals starves its backend. If the configured endpoint is valid but does not begin with its scheme
  in lower case, \<open>ConfigureBackend\<close> tags new events with the normalised text of the endpoint while the upload worker
  dequeues with the text of the configuration: a new event is bound to the backend of the queue, and from no queue in
  which it is so bound does the worker, at any time, get that event.\<close>

theorem uppercase_scheme_starves:
  assumes "parse_notification_endpoint ep = Inr u" "\<not> has_prefix ep (u_scheme u)"
    "configure_backend endpoint_text ep q = Inr q1" "i \<notin> set (event_ids q1)"
  shows "(\<forall>r \<in> set (q_events (enqueue_event i body now q1)). pe_event_id r = i \<longrightarrow> Some (pe_backend r) = q_backend q1) \<and>
    (\<forall>q2 later ev. (\<forall>r \<in> set (q_events q2). pe_event_id r = i \<longrightarrow> Some (pe_backend r) = q_backend q1) \<longrightarrow>
       fst (next_for_backend later ep q2) = Inr ev \<longrightarrow> qe_event_id ev \<noteq> i)"
proof -
  let ?b = "trim_right (CHR ''/'') (url_text u)"
  have b: "q_backend q1 = Some ?b"
    using assms(1,3) by (auto simp: configure_backend_def endpoint_text_def Let_def)
  have ne: "trim_right (CHR ''/'') ep \<noteq> ?b"
  proof
    assume "trim_right (CHR ''/'') ep = ?b"
    then have "has_prefix (trim_right (CHR ''/'') ep) (u_scheme u)"
      using normal_text_scheme[OF assms(1)] by simp
    then have "has_prefix ep (u_scheme u)"
      using trim_right_decomp[of ep "CHR ''/''"] by (auto simp: has_prefix_iff)
    then show False
      using assms(2) by simp
  qed
  have new: "Some (pe_backend r) = q_backend q1" if "r \<in> set (q_events (enqueue_event i body now q1))" "pe_event_id r = i" for r
  proof -
    have "r \<notin> set (q_events q1)"
      using that(2) assms(4) by (auto simp: event_ids_def)
    then have "r = new_row (q_backend q1) i body now"
      using that(1) enqueue_subset[of i body now q1] by blast
    then show ?thesis
      by (cases "classify body now") (simp add: new_row_def b)
  qed
  have "qe_event_id ev \<noteq> i" if bound: "\<forall>r \<in> set (q_events q2). pe_event_id r = i \<longrightarrow> Some (pe_backend r) = q_backend q1"
    and given: "fst (next_for_backend later ep q2) = Inr ev" for q2 later ev
  proof -
    obtain r where "r \<in> set (q_events q2)" "qe_event_id ev = pe_event_id r" "due (unix later) (trim_right (CHR ''/'') ep) r"
      using next_event_some(1)[of later "trim_right (CHR ''/'') ep" q2 ev] given
      by (metis next_for_backend_def prod.collapse)
    then show ?thesis
      using bound ne b endpoint_trim_nonempty(1)[OF assms(1)] by (auto simp: due_def)
  qed
  then show ?thesis
    using new by blast
qed

theorem uppercase_scheme_starves_witness:
  "\<exists>q1. configure_backend endpoint_text ''HTTPS://b'' (empty_queue\<lparr>q_adapter := Some False\<rparr>) = Inr q1 \<and>
     depth (enqueue_event ''e'' sample_stop_body (at_time 1700000000) q1) = 1 \<and>
     (\<forall>ev. fst (next_for_backend (at_time 1700000010) ''HTTPS://b'' (enqueue_event ''e'' sample_stop_body (at_time 1700000000) q1)) = Inr ev \<longrightarrow>
        qe_event_id ev \<noteq> ''e'')"
proof -
  have "case parse_notification_endpoint ''HTTPS://b'' of Inl _ \<Rightarrow> False | Inr u \<Rightarrow> \<not> has_prefix ''HTTPS://b'' (u_scheme u)"
    "case configure_backend endpoint_text ''HTTPS://b'' (empty_queue\<lparr>q_adapter := Some False\<rparr>) of Inl _ \<Rightarrow> False | Inr q1 \<Rightarrow>
       ''e'' \<notin> set (event_ids q1) \<and> depth (enqueue_event ''e'' sample_stop_body (at_time 1700000000) q1) = 1"
    by code_simp+
  then obtain u q1 where u: "parse_notification_endpoint ''HTTPS://b'' = Inr u" "\<not> has_prefix ''HTTPS://b'' (u_scheme u)"
    and q: "configure_backend endpoint_text ''HTTPS://b'' (empty_queue\<lparr>q_adapter := Some False\<rparr>) = Inr q1"
      "''e'' \<notin> set (event_ids q1)" "depth (enqueue_event ''e'' sample_stop_body (at_time 1700000000) q1) = 1"
    by (auto split: sum.splits)
  then show ?thesis
    using uppercase_scheme_starves[OF u q(1,2)] by blast
qed

end
