(* ===== verification/Hook_Files.thy ===== *)
theory Hook_Files
  imports Hook_Config
begin

text \<open>
  What installing and uninstalling the hooks does to the file: the other users' handlers survive in order,
  the two operations undo each other, an installation is recognised and not repeated, and the first
  original is kept as a backup.
\<close>

section \<open>The values are encodable\<close>

lemma fold_put_all: "list_all P m \<Longrightarrow> list_all P ms \<Longrightarrow> list_all P (foldl (\<lambda>m (k, v). map_put k v m) m ms)"
  by (induction ms arbitrary: m) (auto simp: map_put_list_all split: prod.splits)

lemma dec_object_json: "dec_object j = Some ob \<Longrightarrow> json_ok j \<Longrightarrow> json_ok (obj_json ob)"
proof (cases j)
  case (JObj ms)
  assume "dec_object j = Some ob" "json_ok j"
  then show ?thesis
    using fold_put_all[of "\<lambda>(k, v). valid_utf8 k \<and> json_ok v" "[]" ms] JObj by auto
qed auto

lemma dec_objects_json: "dec_objects j = Some gs \<Longrightarrow> json_ok j \<Longrightarrow> list_all (\<lambda>g. json_ok (obj_json g)) gs"
proof (cases j)
  case (JArr vs)
  assume d: "dec_objects j = Some gs" "json_ok j"
  then have m: "map dec_object vs = map Some gs"
    using those_members JArr by simp
  have "json_ok (obj_json g)" if "g \<in> set gs" for g
  proof -
    have "Some g \<in> dec_object ` set vs"
      using m that by (metis image_eqI list.set_map)
    then show ?thesis
      using dec_object_json d(2) JArr by (auto simp: list_all_iff)
  qed
  then show ?thesis
    by (simp add: list_all_iff)
qed simp_all

lemma map_get_json: "json_ok (JObj m) \<Longrightarrow> map_get m k = Some v \<Longrightarrow> json_ok v"
  by (auto simp: map_get_def list_all_iff dest: map_of_SomeD)

lemma map_put_json: "json_ok (JObj m) \<Longrightarrow> valid_utf8 k \<Longrightarrow> json_ok v \<Longrightarrow> json_ok (JObj (map_put k v m))"
  by (simp add: map_put_list_all)

lemma map_del_json: "json_ok (JObj m) \<Longrightarrow> json_ok (JObj (map_del k m))"
  by (auto simp: map_del_def list_all_iff)

lemma objs_json_ok: "json_ok (objs_json gs) \<longleftrightarrow> list_all (\<lambda>g. json_ok (obj_json g)) gs"
  by (simp add: objs_json_def list_all_iff)

lemma groups_json: "groups_for_event hooks event = Inr gs \<Longrightarrow> json_ok (JObj hooks) \<Longrightarrow> list_all (\<lambda>g. json_ok (obj_json g)) gs"
  by (auto simp: groups_for_event_def dest: dec_objects_json map_get_json split: option.splits simp del: json_ok.simps)

lemma handlers_json: "handlers_for_group g = Inr hs \<Longrightarrow> json_ok (obj_json g) \<Longrightarrow> list_all (\<lambda>g. json_ok (obj_json g)) hs"
  by (cases g) (auto simp: handlers_for_group_def dest: dec_objects_json map_get_json split: option.splits simp del: json_ok.simps)

lemma utf8_names: "valid_utf8 ''hooks''" "valid_utf8 ''PermissionRequest''" "valid_utf8 ''Stop''" "valid_utf8 ''command''"
  "valid_utf8 ''statusMessage''" "valid_utf8 ''timeout''" "valid_utf8 ''type''" "valid_utf8 statusMessage"
  by (simp_all add: key_utf8 byte_def statusMessage_def)

lemma new_group_json: "valid_utf8 command \<Longrightarrow> json_ok (obj_json (new_group command))"
  by (simp add: new_group_def new_handler_def objs_json_def utf8_names)

lemma install_events_json:
  "install_events command events hooks = Inr (hooks', changed) \<Longrightarrow> json_ok (JObj hooks) \<Longrightarrow> valid_utf8 command \<Longrightarrow>
     list_all valid_utf8 events \<Longrightarrow> json_ok (JObj hooks')"
proof (induction command events hooks arbitrary: hooks' changed rule: install_events.induct)
  case (2 command event events hooks)
  obtain gs where gs: "groups_for_event hooks event = Inr gs"
    using 2(3) by (auto split: sum.splits)
  have put: "json_ok (JObj (map_put event (objs_json (gs @ [new_group command])) hooks))"
    using groups_json[OF gs 2(4)] new_group_json[OF 2(5)] 2(4,6) by (intro map_put_json) (simp_all add: objs_json_ok)
  show ?case
  proof (cases "contains_command gs command")
    case True
    then show ?thesis
      using 2(1)[OF gs True _ 2(4,5)] 2(3,6) gs by simp
  next
    case False
    then show ?thesis
      using 2(2)[OF gs False _ put 2(5)] 2(3,6) gs by (auto split: sum.splits)
  qed
qed simp

lemma remove_command_json:
  "remove_command gs command = Inr (gs', removed) \<Longrightarrow> list_all (\<lambda>g. json_ok (obj_json g)) gs \<Longrightarrow>
     list_all (\<lambda>g. json_ok (obj_json g)) gs'"
proof (induction gs arbitrary: gs' removed)
  case (Cons g gs)
  obtain hs where hs: "handlers_for_group g = Inr hs"
    using Cons.prems(1) by (auto split: sum.splits)
  obtain m where m: "g = Some m"
    using hs by (cases g) (auto simp: handlers_for_group_def)
  obtain rest r where rec: "remove_command gs command = Inr (rest, r)"
    using Cons.prems(1) hs by (auto simp: Let_def split: sum.splits)
  have "json_ok (objs_json (filter (\<lambda>h. handler_command h \<noteq> command) hs))"
    using handlers_json[OF hs] Cons.prems(2) by (auto simp: objs_json_ok list_all_iff)
  then have "json_ok (JObj (map_put ''hooks'' (objs_json (filter (\<lambda>h. handler_command h \<noteq> command) hs)) m))"
    using Cons.prems(2) m utf8_names(1) by (intro map_put_json) simp_all
  then show ?case
    using Cons.IH[OF rec] Cons.prems hs rec m by (auto simp: Let_def split: if_splits)
qed simp

lemma uninstall_events_json:
  "uninstall_events command events hooks = Inr (hooks', changed) \<Longrightarrow> json_ok (JObj hooks) \<Longrightarrow>
     list_all valid_utf8 events \<Longrightarrow> json_ok (JObj hooks')"
proof (induction command events hooks arbitrary: hooks' changed rule: uninstall_events.induct)
  case (2 command event events hooks)
  obtain gs where gs: "groups_for_event hooks event = Inr gs"
    using 2(3) by (auto split: sum.splits)
  obtain filtered removed where rem: "remove_command gs command = Inr (filtered, removed)"
    using 2(3) gs by (auto split: sum.splits)
  have put: "json_ok (JObj (if filtered = [] then map_del event hooks else map_put event (objs_json filtered) hooks))"
    using remove_command_json[OF rem groups_json[OF gs 2(4)]] 2(4,5) map_del_json map_put_json
    by (simp add: objs_json_ok del: json_ok.simps)
  show ?case
  proof (cases removed)
    case False
    then show ?thesis
      using 2(1)[OF gs rem refl False _ 2(4)] 2(3,5) gs rem by simp
  next
    case True
    then show ?thesis
      using 2(2)[OF gs rem refl _ _ put] 2(3,5) gs rem by (auto split: sum.splits)
  qed
qed simp

section \<open>Loading what was saved\<close>

definition hooks_at :: "string \<Rightarrow> file_system \<Rightarrow> json gomap result" where
  "hooks_at path fs = (case load_hooks path fs of Inl e \<Rightarrow> Inl e | Inr (document, _) \<Rightarrow> hooks_object document)"

lemma hooks_installed_at:
  "hooks_installed path command fs =
     (case hooks_at path fs of Inl e \<Rightarrow> Inl e | Inr hooks \<Rightarrow> installed_events command notificationEvents hooks)"
  by (simp add: hooks_installed_def hooks_at_def split: sum.splits)

lemma load_hooks_ok:
  assumes "load_hooks path fs = Inr (document, original)"
  shows "obj_ok document" "json_ok (obj_json document)"
proof -
  have "(document = Some [] \<and> original = []) \<or> (\<exists>j. json_parse original = Some j \<and> dec_object j = Some document)"
    using assms by (auto simp: load_hooks_def split: option.splits if_splits bind_splits)
  then show "obj_ok document" "json_ok (obj_json document)"
    using dec_object_ok dec_object_json json_parse_ok
    by (auto simp: obj_ok_def map_ok_def split: option.splits)
qed

lemma hooks_object_ok:
  assumes "hooks_object document = Inr hooks" "json_ok (obj_json document)"
  shows "map_ok hooks" "json_ok (JObj hooks)"
proof -
  consider "hooks = []" | raw where "obj_get document ''hooks'' = Some raw" "dec_object raw = Some (Some hooks)"
    using assms(1) by (auto simp: hooks_object_def split: option.splits)
  then have "map_ok hooks \<and> json_ok (JObj hooks)"
  proof cases
    case 2
    obtain m where "document = Some m"
      using 2(1) by (cases document) auto
    then have "json_ok raw"
      using 2(1) assms(2) map_get_json by (simp del: json_ok.simps)
    then show ?thesis
      using dec_object_ok[OF 2(2)] dec_object_json[OF 2(2)] by simp
  qed simp
  then show "map_ok hooks" "json_ok (JObj hooks)"
    by blast+
qed

lemma save_hooks_file:
  "save_hooks path document original fs path = Some \<lparr>fi_mode = 384, fi_content = json_print_indent (obj_json document) @ [CHR 10]\<rparr>"
  "save_hooks path document original fs (path @ ''.novascale-backup'') =
     (if original \<noteq> [] \<and> fs (path @ ''.novascale-backup'') = None then Some \<lparr>fi_mode = 384, fi_content = original\<rparr>
      else fs (path @ ''.novascale-backup''))"
  "p \<noteq> path \<Longrightarrow> p \<noteq> path @ ''.tmp'' \<Longrightarrow> p \<noteq> path @ ''.novascale-backup'' \<Longrightarrow> save_hooks path document original fs p = fs p"
  by (auto simp: save_hooks_def rename_file_def write_file_def Let_def)

lemma change_hooks_cases:
  assumes "change_hooks change path command fs = Inr (changed, fs')"
  obtains document original hooks hooks' where "load_hooks path fs = Inr (document, original)" "hooks_object document = Inr hooks"
    "change hooks = Inr (hooks', changed)" "command \<noteq> []" "\<not> changed \<longrightarrow> fs' = fs"
    "changed \<longrightarrow> (\<exists>m. document = Some m \<and> fs' = save_hooks path (Some (map_put ''hooks'' (JObj hooks') m)) original fs)"
  using assms by (auto simp: change_hooks_def set_hooks_def split: if_splits sum.splits option.splits)

definition small_enough :: "string \<Rightarrow> file_system \<Rightarrow> bool" where
  "small_enough path fs \<longleftrightarrow> (case fs path of None \<Rightarrow> True | Some f \<Rightarrow> length (fi_content f) \<le> maxHooksFileSize)"

lemma change_hooks_result:
  assumes "change_hooks change path command fs = Inr (changed, fs')" "small_enough path fs'"
    "\<And>hooks hooks' c. change hooks = Inr (hooks', c) \<Longrightarrow> map_ok hooks \<Longrightarrow> json_ok (JObj hooks) \<Longrightarrow>
       map_ok hooks' \<and> json_ok (JObj hooks') \<and> (\<not> c \<longrightarrow> hooks' = hooks)"
  obtains hooks hooks' where "hooks_at path fs = Inr hooks" "hooks_at path fs' = Inr hooks'" "change hooks = Inr (hooks', changed)"
    "map_ok hooks"
proof -
  obtain document original hooks hooks' where l: "load_hooks path fs = Inr (document, original)" "hooks_object document = Inr hooks"
    "change hooks = Inr (hooks', changed)" "command \<noteq> []" "\<not> changed \<longrightarrow> fs' = fs"
    "changed \<longrightarrow> (\<exists>m. document = Some m \<and> fs' = save_hooks path (Some (map_put ''hooks'' (JObj hooks') m)) original fs)"
    using change_hooks_cases[OF assms(1)] .
  note doc = load_hooks_ok[OF l(1)] and h = hooks_object_ok[OF l(2) load_hooks_ok(2)[OF l(1)]]
  note h' = assms(3)[OF l(3) h]
  have at: "hooks_at path fs = Inr hooks"
    using l(1,2) by (simp add: hooks_at_def)
  have "hooks_at path fs' = Inr hooks'"
  proof (cases changed)
    case False
    then show ?thesis using at l(5) h' l(3) assms(3) by simp
  next
    case True
    then obtain m where m: "document = Some m" "fs' = save_hooks path (Some (map_put ''hooks'' (JObj hooks') m)) original fs"
      using l(6) by blast
    let ?d = "map_put ''hooks'' (JObj hooks') m"
    have ok: "map_ok ?d" "json_ok (JObj ?d)"
      using doc m h' utf8_names(1) map_put_json by (simp_all add: obj_ok_def del: json_ok.simps)
    have "fs' path = Some \<lparr>fi_mode = 384, fi_content = json_print_indent (JObj ?d) @ [CHR 10]\<rparr>"
      unfolding m(2) using save_hooks_file(1)[of path "Some ?d"] by simp
    then have "\<exists>text. load_hooks path fs' = Inr (Some ?d, text)"
      using assms(2) json_parse_print_indent[OF ok(2)] dec_obj_json[of "Some ?d"] ok(1)
      by (auto simp: load_hooks_def small_enough_def)
    moreover have "dec_object (JObj hooks') = Some (Some hooks')"
      using dec_obj_json[of "Some hooks'"] h' by simp
    then have "hooks_object (Some ?d) = Inr hooks'"
      using doc(1) m(1) by (simp add: hooks_object_def map_get_put obj_ok_def)
    ultimately show ?thesis
      by (auto simp: hooks_at_def)
  qed
  then show ?thesis
    using that at l(3) h(1) by blast
qed

section \<open>The handlers of an event\<close>

definition handlers_at :: "string \<Rightarrow> string \<Rightarrow> file_system \<Rightarrow> raw_object list" where
  "handlers_at path event fs =
     (case hooks_at path fs of
        Inl _ \<Rightarrow> []
      | Inr hooks \<Rightarrow> (case groups_for_event hooks event of Inl _ \<Rightarrow> [] | Inr gs \<Rightarrow> all_handlers gs))"

definition foreign :: "string \<Rightarrow> raw_object \<Rightarrow> bool" where
  "foreign command h \<longleftrightarrow> handler_command h \<noteq> command"

lemma events_distinct: "distinct notificationEvents" "list_all valid_utf8 notificationEvents"
  by (simp_all add: notificationEvents_def utf8_names)

lemma all_handlers_new: "all_handlers (gs @ [new_group command]) = all_handlers gs @ [new_handler command]"
  by (simp add: all_handlers_def group_handlers_def new_group_ok)

lemma installed_events_all:
  "(\<forall>event \<in> set events. \<exists>gs. groups_for_event hooks event = Inr gs \<and> contains_command gs command) \<Longrightarrow>
     installed_events command events hooks = Inr True"
  by (induction events) auto

lemma install_events_again:
  "(\<forall>event \<in> set events. \<exists>gs. groups_for_event hooks event = Inr gs \<and> contains_command gs command) \<Longrightarrow>
     install_events command events hooks = Inr (hooks, False)"
  by (induction events) auto

lemma install_file:
  assumes "install_hooks path command fs = Inr (changed, fs')" "valid_utf8 command" "small_enough path fs'"
  obtains hooks hooks' where "hooks_at path fs = Inr hooks" "hooks_at path fs' = Inr hooks'"
    "install_events command notificationEvents hooks = Inr (hooks', changed)" "map_ok hooks"
proof (rule change_hooks_result[OF assms(1)[unfolded install_hooks_def] assms(3)])
  fix hooks hooks' c
  assume h: "install_events command notificationEvents hooks = Inr (hooks', c)" "map_ok hooks" "json_ok (JObj hooks)"
  show "map_ok hooks' \<and> json_ok (JObj hooks') \<and> (\<not> c \<longrightarrow> hooks' = hooks)"
    using install_events_groups[OF h(1,2) events_distinct(1)] install_events_json[OF h(1,3) assms(2) events_distinct(2)] by blast
qed (rule that)

lemma uninstall_file:
  assumes "uninstall_hooks path command fs = Inr (changed, fs')" "small_enough path fs'"
  obtains hooks hooks' where "hooks_at path fs = Inr hooks" "hooks_at path fs' = Inr hooks'"
    "uninstall_events command notificationEvents hooks = Inr (hooks', changed)" "map_ok hooks"
proof (rule change_hooks_result[OF assms(1)[unfolded uninstall_hooks_def] assms(2)])
  fix hooks hooks' c
  assume h: "uninstall_events command notificationEvents hooks = Inr (hooks', c)" "map_ok hooks" "json_ok (JObj hooks)"
  show "map_ok hooks' \<and> json_ok (JObj hooks') \<and> (\<not> c \<longrightarrow> hooks' = hooks)"
    using uninstall_events_groups[OF h(1,2) events_distinct(1)] uninstall_events_json[OF h(1,3) events_distinct(2)] by blast
qed (rule that)

lemma handlers_same: "hooks_at path fs = Inr hooks \<Longrightarrow> hooks_at path fs' = Inr hooks' \<Longrightarrow> map_get hooks' event = map_get hooks event \<Longrightarrow>
    handlers_at path event fs' = handlers_at path event fs"
  by (simp add: handlers_at_def groups_for_event_def)

lemma install_handlers:
  assumes "install_hooks path command fs = Inr (changed, fs')" "valid_utf8 command" "small_enough path fs'"
  shows "handlers_at path event fs' = handlers_at path event fs @
      (if event \<in> set notificationEvents \<and> list_all (foreign command) (handlers_at path event fs) then [new_handler command] else [])"
proof -
  obtain hooks hooks' where h: "hooks_at path fs = Inr hooks" "hooks_at path fs' = Inr hooks'"
    "install_events command notificationEvents hooks = Inr (hooks', changed)" "map_ok hooks"
    using install_file[OF assms] .
  note eff = install_events_groups[OF h(3,4) events_distinct(1)]
  show ?thesis
  proof (cases "event \<in> set notificationEvents")
    case True
    then obtain gs where gs: "groups_for_event hooks event = Inr gs"
      "groups_for_event hooks' event = Inr (if contains_command gs command then gs else gs @ [new_group command])"
      using eff by blast
    have "contains_command gs command \<longleftrightarrow> \<not> list_all (foreign command) (all_handlers gs)"
      by (auto simp: contains_all_handlers list_all_iff foreign_def)
    then show ?thesis
      using True h(1,2) gs by (simp add: handlers_at_def all_handlers_new)
  qed (use handlers_same[OF h(1,2)] eff in simp)
qed

lemma uninstall_handlers:
  assumes "uninstall_hooks path command fs = Inr (changed, fs')" "small_enough path fs'"
  shows "handlers_at path event fs' =
      (if event \<in> set notificationEvents then filter (foreign command) (handlers_at path event fs) else handlers_at path event fs)"
proof -
  obtain hooks hooks' where h: "hooks_at path fs = Inr hooks" "hooks_at path fs' = Inr hooks'"
    "uninstall_events command notificationEvents hooks = Inr (hooks', changed)" "map_ok hooks"
    using uninstall_file[OF assms] .
  note eff = uninstall_events_groups[OF h(3,4) events_distinct(1)]
  show ?thesis
  proof (cases "event \<in> set notificationEvents")
    case True
    then obtain gs gs' where "groups_for_event hooks event = Inr gs" "groups_for_event hooks' event = Inr gs'"
      "all_handlers gs' = filter (\<lambda>h. handler_command h \<noteq> command) (all_handlers gs)"
      using eff by blast
    then show ?thesis
      using True h(1,2) by (simp add: handlers_at_def foreign_def[abs_def])
  qed (use handlers_same[OF h(1,2)] eff in simp)
qed

text \<open>After an installation the hooks are found installed and a second installation changes nothing. Of the
  two notification events each has its former handlers in their order, followed by the agent's own handler
  if none had the command before; the handlers of every other event are unchanged.\<close>

theorem install_hooks_effect:
  assumes "install_hooks path command fs = Inr (changed, fs')" "valid_utf8 command" "small_enough path fs'"
  shows "hooks_installed path command fs' = Inr True \<and> install_hooks path command fs' = Inr (False, fs') \<and>
    handlers_at path event fs' = handlers_at path event fs @
      (if event \<in> set notificationEvents \<and> list_all (foreign command) (handlers_at path event fs) then [new_handler command] else [])"
proof -
  obtain hooks hooks' where h: "hooks_at path fs = Inr hooks" "hooks_at path fs' = Inr hooks'"
    "install_events command notificationEvents hooks = Inr (hooks', changed)" "map_ok hooks"
    using install_file[OF assms] .
  note eff = install_events_groups[OF h(3,4) events_distinct(1)]
  have has: "\<exists>gs. groups_for_event hooks' event = Inr gs \<and> contains_command gs command" if "event \<in> set notificationEvents" for event
    using eff that new_group_contains contains_append by fastforce
  have "hooks_installed path command fs' = Inr True"
    using has by (simp add: hooks_installed_at h(2) installed_events_all)
  moreover have "install_hooks path command fs' = Inr (False, fs')"
  proof -
    have "command \<noteq> []"
      using assms(1) by (auto simp: install_hooks_def change_hooks_def)
    moreover obtain document original where "load_hooks path fs' = Inr (document, original)" "hooks_object document = Inr hooks'"
      using h(2) by (auto simp: hooks_at_def split: sum.splits)
    ultimately show ?thesis
      using install_events_again[of notificationEvents hooks' command] has by (simp add: install_hooks_def change_hooks_def)
  qed
  ultimately show ?thesis
    using install_handlers[OF assms] by blast
qed

text \<open>Uninstalling removes the agent's handlers and nothing else: of every notification event the handlers of
  other commands stay in their order, the handlers of every other event are unchanged.\<close>

theorem uninstall_hooks_effect:
  assumes "uninstall_hooks path command fs = Inr (changed, fs')" "small_enough path fs'"
  shows "hooks_installed path command fs' = Inr False \<and>
    handlers_at path event fs' =
      (if event \<in> set notificationEvents then filter (foreign command) (handlers_at path event fs) else handlers_at path event fs)"
proof -
  obtain hooks hooks' where h: "hooks_at path fs = Inr hooks" "hooks_at path fs' = Inr hooks'"
    "uninstall_events command notificationEvents hooks = Inr (hooks', changed)" "map_ok hooks"
    using uninstall_file[OF assms] .
  note eff = uninstall_events_groups[OF h(3,4) events_distinct(1)]
  have "''PermissionRequest'' \<in> set notificationEvents"
    by (simp add: notificationEvents_def)
  then obtain gs gs' where "groups_for_event hooks' ''PermissionRequest'' = Inr gs'"
    "all_handlers gs' = filter (\<lambda>h. handler_command h \<noteq> command) (all_handlers gs)"
    using eff by blast
  then have "hooks_installed path command fs' = Inr False"
    by (auto simp: hooks_installed_at h(2) notificationEvents_def contains_all_handlers)
  then show ?thesis
    using uninstall_handlers[OF assms] by blast
qed

text \<open>C30: Installing and uninstalling is a round trip for every other user of the file: all handlers come back in
  their order if none of them ran the agent's command.\<close>

theorem install_uninstall_roundtrip:
  assumes "install_hooks path command fs = Inr (c1, fs1)" "uninstall_hooks path command fs1 = Inr (c2, fs2)"
    "valid_utf8 command" "small_enough path fs1" "small_enough path fs2"
    "event \<in> set notificationEvents \<Longrightarrow> list_all (foreign command) (handlers_at path event fs)"
  shows "handlers_at path event fs2 = handlers_at path event fs"
proof -
  have "\<not> foreign command (new_handler command)"
    by (simp add: foreign_def new_group_ok)
  then show ?thesis
    using install_handlers[OF assms(1,3,4), of event] uninstall_handlers[OF assms(2,5), of event] assms(6)
    by (simp add: list_all_iff filter_id_conv)
qed

text \<open>C39: A hooks file that holds the JSON value \<open>null\<close> crashes the installation: the nil document is given a
  member, which panics, instead of being replaced or rejected.\<close>

theorem null_document_panics:
  assumes "fs path = Some f" "json_parse (fi_content f) = Some JNull" "length (fi_content f) \<le> maxHooksFileSize" "command \<noteq> []"
  shows "install_hooks path command fs = fail ''panic: assignment to entry in nil map''"
proof -
  have "load_hooks path fs = Inr (None, fi_content f)"
    using assms(1-3) by (simp add: load_hooks_def)
  moreover have "\<exists>hooks. install_events command notificationEvents [] = Inr (hooks, True)"
    by (simp add: notificationEvents_def groups_for_event_def map_get_def contains_command_def)
  ultimately show ?thesis
    using assms(4) by (auto simp: install_hooks_def change_hooks_def hooks_object_def set_hooks_def)
qed

section \<open>A sample file\<close>

definition sample_hooks :: string where
  "sample_hooks = json_print (JObj [(''hooks'', JObj [(''Stop'', JArr [JObj [(''hooks'', JArr [JObj
     [(''command'', JStr ''other''), (''type'', JStr ''command'')]])]])])])"

definition hook_files :: "string \<Rightarrow> file_system" where
  "hook_files text p = (if p = ''/h.json'' then Some \<lparr>fi_mode = 384, fi_content = text\<rparr> else None)"

definition result_files :: "(bool \<times> file_system) result \<Rightarrow> file_system" where
  "result_files r = (case r of Inr (_, fs) \<Rightarrow> fs | Inl _ \<Rightarrow> (\<lambda>_. None))"

definition installed_files :: file_system where
  "installed_files = result_files (install_hooks ''/h.json'' ''agent hook'' (hook_files sample_hooks))"

definition removed_files :: file_system where
  "removed_files = result_files (uninstall_hooks ''/h.json'' ''agent hook'' installed_files)"

text \<open>The size limit is compared as an integer when the operations are evaluated.\<close>

lemma load_hooks_code [code]:
  "load_hooks path fs =
     (case fs path of
        None \<Rightarrow> Inr (Some [], [])
      | Some f \<Rightarrow>
          if 1048576 < int (length (fi_content f)) then fail ''Codex hooks file is too large''
          else (case Option.bind (json_parse (fi_content f)) dec_object of
                  None \<Rightarrow> fail ''parse Codex hooks file''
                | Some document \<Rightarrow> Inr (document, fi_content f)))"
proof -
  have "maxHooksFileSize < n \<longleftrightarrow> 1048576 < int n" for n
    by (simp add: maxHooksFileSize_def)
  then show ?thesis
    by (simp only: load_hooks_def)
qed

lemma small_enough_code [code]:
  "small_enough path fs \<longleftrightarrow> (case fs path of None \<Rightarrow> True | Some f \<Rightarrow> int (length (fi_content f)) \<le> 1048576)"
  by (auto simp: small_enough_def maxHooksFileSize_def split: option.splits)

lemma sample_runs:
  "install_hooks ''/h.json'' ''agent hook'' (hook_files sample_hooks) = Inr (True, installed_files)"
  "uninstall_hooks ''/h.json'' ''agent hook'' installed_files = Inr (True, removed_files)"
  "small_enough ''/h.json'' installed_files" "small_enough ''/h.json'' removed_files" "valid_utf8 ''agent hook''"
proof -
  have "map_sum (\<lambda>_. ()) fst (install_hooks ''/h.json'' ''agent hook'' (hook_files sample_hooks)) = Inr True"
    "map_sum (\<lambda>_. ()) fst (uninstall_hooks ''/h.json'' ''agent hook'' installed_files) = Inr True"
    by code_simp+
  then show "install_hooks ''/h.json'' ''agent hook'' (hook_files sample_hooks) = Inr (True, installed_files)"
    "uninstall_hooks ''/h.json'' ''agent hook'' installed_files = Inr (True, removed_files)"
    by (auto simp: installed_files_def removed_files_def result_files_def map_sum_def split: sum.splits prod.splits)
  show "small_enough ''/h.json'' installed_files" "small_enough ''/h.json'' removed_files" "valid_utf8 ''agent hook''"
    by code_simp+
qed

theorem install_hooks_effect_witness:
  "hooks_installed ''/h.json'' ''agent hook'' installed_files = Inr True \<and>
   install_hooks ''/h.json'' ''agent hook'' installed_files = Inr (False, installed_files)"
  using install_hooks_effect[OF sample_runs(1,5,3)] by blast

theorem uninstall_hooks_effect_witness:
  "hooks_installed ''/h.json'' ''agent hook'' removed_files = Inr False"
  using uninstall_hooks_effect[OF sample_runs(2,4)] by blast

theorem install_uninstall_roundtrip_witness:
  "handlers_at ''/h.json'' ''Stop'' removed_files = handlers_at ''/h.json'' ''Stop'' (hook_files sample_hooks)"
proof -
  have "list_all (foreign ''agent hook'') (handlers_at ''/h.json'' ''Stop'' (hook_files sample_hooks))"
    by code_simp
  then show ?thesis
    using install_uninstall_roundtrip[OF sample_runs(1,2,5,3,4)] by blast
qed

theorem null_document_panics_witness:
  "install_hooks ''/h.json'' ''agent hook'' (hook_files ''null'') = fail ''panic: assignment to entry in nil map''"
proof -
  have "json_parse ''null'' = Some JNull"
    by code_simp
  then show ?thesis
    using null_document_panics[of "hook_files ''null''" "''/h.json''" "\<lparr>fi_mode = 384, fi_content = ''null''\<rparr>" "''agent hook''"]
    by (simp add: hook_files_def maxHooksFileSize_def)
qed

end
