(* ===== verification/Uninstall_Properties.thy ===== *)
theory Uninstall_Properties
  imports Commands Agent_Paths Plugin_Properties Hook_Files
begin

text \<open>
  What an uninstallation removes and what it leaves: nothing before the notification daemon has stopped, in any case
  only the agent's own files, and without \<open>--purge\<close> never the identity of the host.
\<close>

section \<open>Single steps\<close>

lemma inside_simps [simp]: "inside d d" "inside d (d @ CHR ''/'' # s)"
  by (simp_all add: inside_def has_prefix_iff)

lemma remove_path_simps [simp]:
  "ss_files (remove_path path s) p = (if p = path then None else ss_files s p)" "ss_database (remove_path path s) = ss_database s"
  "ss_trace (remove_path path s) = ss_trace s"
  by (simp_all add: remove_path_def remove_file_def)

lemma remove_all_simps [simp]:
  "ss_files (remove_all ap d s) p = (if inside d p then None else ss_files s p)"
  "ss_database (remove_all ap d s) = (if inside d (ap_database ap) then None else ss_database s)"
  by (simp_all add: remove_all_def)

lemma clear_database_simps [simp]: "ss_files (clear_database s) = ss_files s"
  "ss_database (clear_database s) = (case ss_database s of None \<Rightarrow> None
     | Some _ \<Rightarrow> Some (event_columns, clear_notification_capture (open_database (ss_database s))))"
  by (simp_all add: clear_database_def split: option.splits)

lemma stop_command_state: "stop_command ux uo s = (r, s') \<Longrightarrow> ss_files s' = ss_files s \<and> ss_database s' = ss_database s"
  by (auto simp: stop_command_def Let_def split: prod.splits if_splits)

lemma stop_service_cases:
  assumes "stop_notification_service ux uo s = (r, s')"
  shows "(\<exists>e. r = Inl e) \<and> ss_files s' = ss_files s \<and> ss_database s' = ss_database s \<or>
    r = Inr () \<and> fst (stop_command ux uo s) = Inr () \<and>
      \<not> running_notification_daemon ux (ap_socket (uo_paths uo)) (snd (stop_command ux uo s)) \<and>
      ss_files s' = remove_file (service_file uo) (ss_files s) \<and> ss_database s' = ss_database s"
proof -
  obtain cr s1 where c: "stop_command ux uo s = (cr, s1)" by fastforce
  note st = stop_command_state[OF c]
  show ?thesis
  proof (cases "cr = Inr () \<and> \<not> running_notification_daemon ux (ap_socket (uo_paths uo)) s1")
    case True
    then show ?thesis
      using assms c st by (auto simp: stop_notification_service_def Let_def remove_path_def split: if_splits)
  next
    case False
    then show ?thesis
      using assms c st by (cases cr) (auto simp: stop_notification_service_def)
  qed
qed

lemma remove_plugin_state:
  assumes "remove_plugin ux ap s = (r, s')"
  shows "ss_files s' = ss_files s" "ss_database s' = ss_database s \<or>
    ss_database s' = Some (event_columns, set_herdr_capture_enabled False (open_database (ss_database s)))"
proof -
  have "ss_files s' = ss_files s \<and> (ss_database s' = ss_database s \<or>
    ss_database s' = Some (event_columns, set_herdr_capture_enabled False (open_database (ss_database s))))"
  proof (cases "ss_files s (plugin_manifest ap)")
    case None
    then show ?thesis using assms by (simp add: remove_plugin_def)
  next
    case (Some f)
    then show ?thesis
      using assms by (cases "fst (herdr_plugin_command (ux_host ux) [''uninstall'', HerdrPluginID])")
        (auto simp: remove_plugin_def uninstall_herdr_def Let_def split: prod.splits)
  qed
  then show "ss_files s' = ss_files s" "ss_database s' = ss_database s \<or>
    ss_database s' = Some (event_columns, set_herdr_capture_enabled False (open_database (ss_database s)))"
    by blast+
qed

lemma uninstall_hooks_other:
  assumes "uninstall_hooks path command fs = Inr (changed, fs')" "p \<notin> {path, path @ ''.tmp'', path @ ''.novascale-backup''}"
  shows "fs' p = fs p"
  by (rule change_hooks_cases[OF assms(1)[unfolded uninstall_hooks_def]]) (use assms(2) in \<open>auto simp: save_hooks_file(3)\<close>)

section \<open>The course of an uninstallation\<close>

definition directory_ok :: "uninstall_system \<Rightarrow> string \<Rightarrow> bool" where
  "directory_ok ux d \<longleftrightarrow> base_path d = ''novascale-agent'' \<and> is_abs d \<and> ux_lstat ux d \<noteq> Inr True"

lemma check_directories_ok: "check_directories ux ds = Inr () \<Longrightarrow> list_all (directory_ok ux) ds"
  by (induction ux ds rule: check_directories.induct) (auto simp: directory_ok_def split: if_splits sum.splits bool.splits)

text \<open>What an uninstallation checks before it touches anything.\<close>

definition uninstall_allowed :: "uninstall_system \<Rightarrow> uninstall_options \<Rightarrow> setup_state \<Rightarrow> bool" where
  "uninstall_allowed ux uo s \<longleftrightarrow>
     uo_platform uo \<in> {''darwin'', ''linux''} \<and> directory_ok ux (ap_config_dir (uo_paths uo)) \<and>
     directory_ok ux (ap_state_dir (uo_paths uo)) \<and> fst (stop_command ux uo s) = Inr () \<and>
     \<not> running_notification_daemon ux (ap_socket (uo_paths uo)) (snd (stop_command ux uo s))"

abbreviation own_command :: "uninstall_options \<Rightarrow> string" where
  "own_command uo \<equiv> hook_command (uo_binary uo)"

text \<open>Either nothing was touched, or the service was stopped first; then the run ends at the hooks, at the plugin or
  with everything removed.\<close>

lemma uninstall_cases:
  assumes "uninstall_agent ux uo s = (r, s')"
  shows "(\<exists>e. r = Inl e) \<and> ss_files s' = ss_files s \<and> ss_database s' = ss_database s \<or>
    uninstall_allowed ux uo s \<and>
     ((\<exists>e. r = Inl e) \<and> ss_files s' = remove_file (service_file uo) (ss_files s) \<and> ss_database s' = ss_database s \<or>
      (\<exists>changed fs s1 pr s2. uninstall_hooks (uo_hooks uo) (own_command uo) (remove_file (service_file uo) (ss_files s)) = Inr (changed, fs) \<and>
         ss_files s1 = fs \<and> ss_database s1 = ss_database s \<and> remove_plugin ux (uo_paths uo) s1 = (pr, s2) \<and>
         (if pr = Inr () then r = Inr () \<and> s' = remove_agent uo s2 else (\<exists>e. r = Inl e) \<and> s' = s2)))"
proof -
  obtain sr s1 where st: "stop_notification_service ux uo s = (sr, s1)" by fastforce
  show ?thesis
  proof (cases "uo_platform uo \<in> {''darwin'', ''linux''} \<and> check_directories ux [ap_config_dir (uo_paths uo), ap_state_dir (uo_paths uo)] = Inr ()")
    case False
    then have "(\<exists>e. r = Inl e) \<and> s' = s"
    proof (cases "check_directories ux [ap_config_dir (uo_paths uo), ap_state_dir (uo_paths uo)]")
      case (Inl e)
      have "(if uo_platform uo \<notin> {''darwin'', ''linux''} then (fail ''agent uninstall supports macOS and Linux'', s) else (Inl e, s)) = (r, s')"
        using assms unfolding uninstall_agent_def Inl by (simp cong: if_cong)
      then show ?thesis by (auto split: if_splits)
    next
      case (Inr u)
      then show ?thesis
        using assms False by (auto simp: uninstall_agent_def simp del: check_directories.simps)
    qed
    then show ?thesis by blast
  next
    case True
    then have run: "uninstall_agent ux uo s = (case stop_notification_service ux uo s of
        (Inl e, s1) \<Rightarrow> (Inl e, s1)
      | (Inr _, s1) \<Rightarrow>
          (case uninstall_hooks (uo_hooks uo) (own_command uo) (ss_files s1) of
             Inl e \<Rightarrow> (Inl e, s1)
           | Inr (_, fs) \<Rightarrow>
               (case remove_plugin ux (uo_paths uo) (s1\<lparr>ss_files := fs\<rparr>) of
                  (Inl e, s2) \<Rightarrow> (Inl e, s2)
                | (Inr _, s2) \<Rightarrow> (Inr (), remove_agent uo s2))))"
      by (auto simp: uninstall_agent_def simp del: check_directories.simps)
    have dirs: "directory_ok ux (ap_config_dir (uo_paths uo))" "directory_ok ux (ap_state_dir (uo_paths uo))"
      using True check_directories_ok[of ux "[ap_config_dir (uo_paths uo), ap_state_dir (uo_paths uo)]"] by simp_all
    from stop_service_cases[OF st] show ?thesis
    proof (elim disjE conjE)
      assume f: "\<exists>e. sr = Inl e" "ss_files s1 = ss_files s" "ss_database s1 = ss_database s"
      then show ?thesis
        using assms run st by auto
    next
      assume f: "sr = Inr ()" "fst (stop_command ux uo s) = Inr ()"
        "\<not> running_notification_daemon ux (ap_socket (uo_paths uo)) (snd (stop_command ux uo s))"
        "ss_files s1 = remove_file (service_file uo) (ss_files s)" "ss_database s1 = ss_database s"
      have allowed: "uninstall_allowed ux uo s"
        using True dirs f(2,3) by (simp add: uninstall_allowed_def)
      show ?thesis
      proof (cases "uninstall_hooks (uo_hooks uo) (own_command uo) (ss_files s1)")
        case (Inl e)
        then show ?thesis
          using assms run st f allowed by auto
      next
        case (Inr cf)
        obtain changed fs where cf: "cf = (changed, fs)" by fastforce
        obtain pr s2 where p: "remove_plugin ux (uo_paths uo) (s1\<lparr>ss_files := fs\<rparr>) = (pr, s2)" by fastforce
        have "if pr = Inr () then r = Inr () \<and> s' = remove_agent uo s2 else (\<exists>e. r = Inl e) \<and> s' = s2"
          using assms run st f(1) Inr cf p by (cases pr) auto
        then show ?thesis
          using allowed Inr cf f(4,5) p
          by (intro disjI2 conjI[OF allowed] disjI2 exI[of _ changed] exI[of _ fs] exI[of _ "s1\<lparr>ss_files := fs\<rparr>"] exI[of _ pr] exI[of _ s2])
            simp_all
      qed
    qed
  qed
qed

text \<open>An uninstallation checks before it acts. If it succeeds, or changes any file or the database at all, then the
  platform is supported, both directories are the agent's own, absolute and no symbolic links, the service manager
  stopped the service if it knew it, and no daemon answers on the socket any more.\<close>

theorem uninstall_checks_first:
  assumes "uninstall_agent ux uo s = (r, s')" "r = Inr () \<or> ss_files s' \<noteq> ss_files s \<or> ss_database s' \<noteq> ss_database s"
  shows "uo_platform uo \<in> {''darwin'', ''linux''} \<and>
    list_all (\<lambda>d. base_path d = ''novascale-agent'' \<and> is_abs d \<and> ux_lstat ux d \<noteq> Inr True)
      [ap_config_dir (uo_paths uo), ap_state_dir (uo_paths uo)] \<and>
    fst (stop_command ux uo s) = Inr () \<and>
    \<not> running_notification_daemon ux (ap_socket (uo_paths uo)) (snd (stop_command ux uo s))"
  using uninstall_cases[OF assms(1)] assms(2) unfolding uninstall_allowed_def directory_ok_def by auto

section \<open>What stays\<close>

definition uninstall_files :: "uninstall_options \<Rightarrow> string set" where
  "uninstall_files uo = {service_file uo, uo_hooks uo, uo_hooks uo @ ''.tmp'', uo_hooks uo @ ''.novascale-backup'',
     ap_socket (uo_paths uo), uo_binary uo}"

definition uninstall_dirs :: "uninstall_options \<Rightarrow> string list" where
  "uninstall_dirs uo = plugin_dir (uo_paths uo) #
     (if uo_purge uo then [ap_config_dir (uo_paths uo), ap_state_dir (uo_paths uo)] else [])"

lemma remove_agent_files:
  "ss_files (remove_agent uo s) p =
     (if p \<in> {ap_socket (uo_paths uo), uo_binary uo} \<or> list_ex (\<lambda>d. inside d p) (uninstall_dirs uo) then None else ss_files s p)"
  by (simp add: remove_agent_def uninstall_dirs_def Let_def)

lemma uninstall_frame:
  assumes "uninstall_agent ux uo s = (r, s')" "p \<notin> uninstall_files uo" "\<not> list_ex (\<lambda>d. inside d p) (uninstall_dirs uo)"
  shows "ss_files s' p = ss_files s p"
proof -
  have p: "p \<noteq> service_file uo" "p \<notin> {uo_hooks uo, uo_hooks uo @ ''.tmp'', uo_hooks uo @ ''.novascale-backup''}"
    "p \<notin> {ap_socket (uo_paths uo), uo_binary uo}"
    using assms(2) by (simp_all add: uninstall_files_def)
  from uninstall_cases[OF assms(1)] show ?thesis
  proof (elim disjE conjE exE)
    fix changed fs s1 pr s2
    assume a: "uninstall_hooks (uo_hooks uo) (own_command uo) (remove_file (service_file uo) (ss_files s)) = Inr (changed, fs)"
      "ss_files s1 = fs" "remove_plugin ux (uo_paths uo) s1 = (pr, s2)"
      "if pr = Inr () then r = Inr () \<and> s' = remove_agent uo s2 else (\<exists>e. r = Inl e) \<and> s' = s2"
    have "ss_files s2 p = ss_files s p"
      using remove_plugin_state(1)[OF a(3)] a(2) uninstall_hooks_other[OF a(1) p(2)] p(1) by (simp add: remove_file_def)
    then show ?thesis
      using a(4) p(3) assms(3) by (auto simp: remove_agent_files split: if_splits)
  qed (use p in \<open>simp_all add: remove_file_def\<close>)
qed

text \<open>The session identifiers of the bindings, in order\<close>

definition sessions_of :: "setup_state \<Rightarrow> string list" where
  "sessions_of s = map hb_session_id (q_bindings (open_database (ss_database s)))"

lemma sessions_kept:
  "map hb_session_id (q_bindings (set_herdr_capture_enabled b q)) = map hb_session_id (q_bindings q)"
  "map hb_session_id (q_bindings (clear_notification_capture q)) = map hb_session_id (q_bindings q)"
  by (simp_all add: set_herdr_capture_enabled_def clear_notification_capture_def Let_def comp_def)

lemma plugin_sessions: "remove_plugin ux ap s = (r, s') \<Longrightarrow> sessions_of s' = sessions_of s"
  using remove_plugin_state(2)[of ux ap s r s'] by (auto simp: sessions_of_def sessions_kept open_current)

lemma remove_agent_sessions:
  assumes "\<not> list_ex (\<lambda>d. inside d (ap_database (uo_paths uo))) (uninstall_dirs uo)"
  shows "sessions_of (remove_agent uo s) = sessions_of s"
proof -
  have "ss_database (remove_agent uo s) = ss_database (clear_database s)"
    using assms by (auto simp: remove_agent_def uninstall_dirs_def Let_def)
  then show ?thesis
    by (cases "ss_database s") (simp_all add: sessions_of_def sessions_kept open_current)
qed

lemma uninstall_sessions:
  assumes "uninstall_agent ux uo s = (r, s')" "\<not> list_ex (\<lambda>d. inside d (ap_database (uo_paths uo))) (uninstall_dirs uo)"
  shows "sessions_of s' = sessions_of s"
  using uninstall_cases[OF assms(1)]
proof (elim disjE conjE exE)
  fix changed fs s1 pr s2
  assume a: "ss_database s1 = ss_database s" "remove_plugin ux (uo_paths uo) s1 = (pr, s2)"
    "if pr = Inr () then r = Inr () \<and> s' = remove_agent uo s2 else (\<exists>e. r = Inl e) \<and> s' = s2"
  have "sessions_of s2 = sessions_of s"
    using plugin_sessions[OF a(2)] a(1) by (simp add: sessions_of_def)
  then show ?thesis
    using a(3) remove_agent_sessions[OF assms(2), of s2] by (auto split: if_splits)
qed (simp_all add: sessions_of_def)

section \<open>The service file is none of the agent's\<close>

definition base_name :: "string \<Rightarrow> string" where
  "base_name p = List.last (clean_parts p)"

lemma base_name_child: "p \<noteq> [] \<Longrightarrow> name_ok n \<Longrightarrow> base_name (p @ CHR ''/'' # n) = n"
  by (simp add: base_name_def clean_parts_child)

lemma base_name_join:
  assumes "name_ok n" "ws \<noteq> []" "hd ws \<noteq> []"
  shows "base_name (join_path (d # ws @ [n])) = n"
proof -
  define xs where "xs = filter (\<lambda>w. w \<noteq> []) (d # ws)"
  have ne: "xs \<noteq> []" "n \<noteq> []"
    using assms by (cases ws; simp add: xs_def name_ok_def)+
  have f: "filter (\<lambda>w. w \<noteq> []) (d # ws @ [n]) = xs @ [n]"
    using ne(2) by (simp add: xs_def)
  have j: "join_with ''/'' (xs @ [n]) = join_with ''/'' xs @ CHR ''/'' # n"
    using ne(1) by (simp add: join_with_snoc)
  have "join_with ''/'' xs \<noteq> []"
  proof -
    obtain x ys where x: "xs = x # ys"
      using ne(1) by (cases xs) auto
    moreover have "x \<in> set xs"
      by (simp add: x)
    then have "x \<noteq> []"
      by (auto simp: xs_def split: if_splits)
    ultimately show ?thesis
      by (cases ys) simp_all
  qed
  then show ?thesis
    unfolding join_path_def f Let_def using assms(1) j by (simp add: base_name_def clean_parts_child)
qed

lemma service_name: "base_name (service_file uo) \<in> {''dev.galaxnet.novascale.agent.plist'', ''novascale-agent.service''}"
proof -
  have n: "name_ok ''dev.galaxnet.novascale.agent.plist''" "name_ok agent_service"
    by code_simp+
  have "base_name (join_path (h # [''Library'', ''LaunchAgents''] @ [''dev.galaxnet.novascale.agent.plist''])) = ''dev.galaxnet.novascale.agent.plist''"
    "base_name (join_path (h # [''systemd'', ''user''] @ [agent_service])) = agent_service" for h
    using n by (intro base_name_join; simp)+
  then show ?thesis
    by (simp add: service_file_def agent_service_def)
qed

lemma agent_base_names:
  assumes "default_paths home xc xs = Inr ap"
  shows "base_name (ap_config_file ap) = ''config.json''" "base_name (ap_key_file ap) = ''host-key''"
    "base_name (ap_socket ap) = ''agent.sock''" "base_name (ap_database ap) = ''agent.db''"
proof -
  have n: "name_ok ''config.json''" "name_ok ''host-key''" "name_ok ''agent.sock''" "name_ok ''agent.db''"
    by code_simp+
  note d = default_paths_names[OF assms]
  note ne = clean_dir_nonempty[OF d(1)] clean_dir_nonempty[OF d(2)]
  show "base_name (ap_config_file ap) = ''config.json''" "base_name (ap_key_file ap) = ''host-key''"
    "base_name (ap_socket ap) = ''agent.sock''" "base_name (ap_database ap) = ''agent.db''"
    unfolding d(3,4,7,8)
    using base_name_child[OF ne(1) n(1)] base_name_child[OF ne(1) n(2)] base_name_child[OF ne(2) n(3)] base_name_child[OF ne(2) n(4)]
    by simp_all
qed

text \<open>C28: Without \<open>--purge\<close> an uninstallation keeps what a later installation needs, even if it fails halfway: the
  configuration, the host key and the session identifiers of all bindings are the same before and after.\<close>

theorem uninstall_keeps_identity:
  assumes "uninstall_agent ux uo s = (r, s')" "default_paths home xc xs = Inr (uo_paths uo)" "\<not> uo_purge uo"
    "set [ap_config_file (uo_paths uo), ap_key_file (uo_paths uo)] \<inter>
       set [uo_binary uo, uo_hooks uo, uo_hooks uo @ ''.tmp'', uo_hooks uo @ ''.novascale-backup''] = {}"
    "\<not> inside (plugin_dir (uo_paths uo)) (ap_database (uo_paths uo))"
  shows "load_config (ap_config_file (uo_paths uo)) (ss_files s') = load_config (ap_config_file (uo_paths uo)) (ss_files s) \<and>
    ss_files s' (ap_key_file (uo_paths uo)) = ss_files s (ap_key_file (uo_paths uo)) \<and>
    map hb_session_id (q_bindings (open_database (ss_database s'))) = map hb_session_id (q_bindings (open_database (ss_database s)))"
proof -
  let ?ap = "uo_paths uo"
  note d = default_paths_names[OF assms(2)] and b = agent_base_names[OF assms(2)]
  have dir: "plugin_dir ?ap = ap_config_dir ?ap @ ''/herdr-plugin''" "uninstall_dirs uo = [plugin_dir ?ap]"
    using d(9) assms(3) by (simp_all add: plugin_dir_def uninstall_dirs_def)
  have out: "\<not> list_ex (\<lambda>d. inside d (ap_config_file ?ap)) (uninstall_dirs uo)" "\<not> list_ex (\<lambda>d. inside d (ap_key_file ?ap)) (uninstall_dirs uo)"
    unfolding dir d(3,4) by (simp_all add: inside_def has_prefix_iff)
  have "ap_config_file ?ap \<noteq> service_file uo" "ap_key_file ?ap \<noteq> service_file uo"
    using service_name[of uo] b(1,2) by auto
  moreover have "ap_config_file ?ap \<noteq> ap_socket ?ap" "ap_key_file ?ap \<noteq> ap_socket ?ap"
    using b(1-3) by auto
  ultimately have own: "ap_config_file ?ap \<notin> uninstall_files uo" "ap_key_file ?ap \<notin> uninstall_files uo"
    using assms(4) by (auto simp: uninstall_files_def)
  show ?thesis
    using uninstall_frame[OF assms(1) own(1) out(1)] uninstall_frame[OF assms(1) own(2) out(2)]
      uninstall_sessions[OF assms(1)] assms(5) dir(2) by (simp add: load_config_def sessions_of_def)
qed

section \<open>What goes\<close>

lemma handlers_cong: "fs' path = fs path \<Longrightarrow> handlers_at path event fs' = handlers_at path event fs"
  by (simp add: handlers_at_def hooks_at_def load_hooks_def)

lemma remove_agent_database:
  assumes "ss_database (remove_agent uo s) = Some (columns, q)"
  shows "q_events q = [] \<and> capture_off q"
proof -
  have "capture_off (clear_notification_capture p) \<and> q_events (clear_notification_capture p) = []" for p
    using disable_capture[of p] by (simp add: clear_notification_capture_def capture_off_def)
  then show ?thesis
    using assms by (auto simp: remove_agent_def Let_def split: if_splits option.splits)
qed

text \<open>C29: A successful uninstallation is complete. The executable, the socket, the service file and everything in the
  plugin's directory are gone, with \<open>--purge\<close> also everything in the two directories of the agent; a database that is
  kept holds no event, no pane and no enabled binding; and of the hooks exactly the agent's own handlers were removed.\<close>

theorem uninstall_complete:
  assumes "uninstall_agent ux uo s = (Inr (), s')"
    "service_file uo \<notin> {uo_hooks uo, uo_hooks uo @ ''.tmp'', uo_hooks uo @ ''.novascale-backup''}"
    "uo_hooks uo \<notin> {ap_socket (uo_paths uo), uo_binary uo}" "\<not> list_ex (\<lambda>d. inside d (uo_hooks uo)) (uninstall_dirs uo)"
    "small_enough (uo_hooks uo) (ss_files s')"
  shows "ss_files s' (uo_binary uo) = None \<and> ss_files s' (ap_socket (uo_paths uo)) = None \<and> ss_files s' (service_file uo) = None \<and>
    (\<forall>p. list_ex (\<lambda>d. inside d p) (uninstall_dirs uo) \<longrightarrow> ss_files s' p = None) \<and>
    (\<forall>columns q. ss_database s' = Some (columns, q) \<longrightarrow> q_events q = [] \<and> capture_off q) \<and>
    handlers_at (uo_hooks uo) event (ss_files s') =
      (if event \<in> set notificationEvents then filter (foreign (hook_command (uo_binary uo))) (handlers_at (uo_hooks uo) event (ss_files s))
       else handlers_at (uo_hooks uo) event (ss_files s))"
proof -
  obtain changed fs s1 s2 where a: "uninstall_hooks (uo_hooks uo) (own_command uo) (remove_file (service_file uo) (ss_files s)) = Inr (changed, fs)"
      "ss_files s1 = fs" "remove_plugin ux (uo_paths uo) s1 = (Inr (), s2)" "s' = remove_agent uo s2"
    using uninstall_cases[OF assms(1)] by (auto split: if_splits)
  have fs2: "ss_files s2 = fs"
    using remove_plugin_state(1)[OF a(3)] a(2) by simp
  have hooks: "ss_files s' (uo_hooks uo) = fs (uo_hooks uo)"
    using assms(3,4) fs2 by (simp add: a(4) remove_agent_files)
  then have "small_enough (uo_hooks uo) fs"
    using assms(5) by (simp add: small_enough_def)
  note h = uninstall_handlers[OF a(1) this, of event]
  have service: "handlers_at (uo_hooks uo) event (remove_file (service_file uo) (ss_files s)) = handlers_at (uo_hooks uo) event (ss_files s)"
    using assms(2) by (intro handlers_cong) (auto simp: remove_file_def)
  have "handlers_at (uo_hooks uo) event (ss_files s') =
      (if event \<in> set notificationEvents then filter (foreign (hook_command (uo_binary uo))) (handlers_at (uo_hooks uo) event (ss_files s))
       else handlers_at (uo_hooks uo) event (ss_files s))"
    using h handlers_cong[where path = "uo_hooks uo" and fs' = "ss_files s'" and fs = fs, OF hooks] unfolding service by simp
  moreover have "ss_files s' (service_file uo) = None"
    using uninstall_hooks_other[OF a(1) assms(2)] fs2 by (simp add: a(4) remove_agent_files remove_file_def)
  moreover have "\<forall>columns q. ss_database s' = Some (columns, q) \<longrightarrow> q_events q = [] \<and> capture_off q"
    using remove_agent_database[of uo s2] a(4) by blast
  ultimately show ?thesis
    by (simp add: a(4) remove_agent_files)
qed

end
