(* ===== verification/Cli_Samples.thy ===== *)
theory Cli_Samples
  imports Cli_Properties Uninstall_Properties
begin

text \<open>A configured host with one stored event, on which the properties of the commands are applied.\<close>

section \<open>The host\<close>

definition sample_paths :: agent_paths where
  "sample_paths = (case default_paths (Some ''/h'') [] [] of Inr ap \<Rightarrow> ap | Inl _ \<Rightarrow>
     \<lparr>ap_config_dir = [], ap_state_dir = [], ap_config_file = [], ap_key_file = [], ap_legacy_setup_token_file = [],
      ap_enrollment_lock = [], ap_database = [], ap_socket = []\<rparr>)"

definition sample_key :: string where "sample_key = replicate 64 (CHR ''k'')"

definition files_with :: "config \<Rightarrow> file_system" where
  "files_with c p =
     (if p = ap_config_file sample_paths
      then Some \<lparr>fi_mode = 384, fi_content = (case config_text c of Inr t \<Rightarrow> t | Inl _ \<Rightarrow> [])\<rparr>
      else if p = ap_key_file sample_paths then Some \<lparr>fi_mode = 384, fi_content = key_file sample_key\<rparr>
      else None)"

definition capture_queue :: queue where
  "capture_queue = empty_queue\<lparr>q_adapter := Some True,
     q_events := [new_row None ''e'' sample_stop_body (at_time 100)]\<rparr>"

definition state_with :: "config \<Rightarrow> setup_state" where
  "state_with c = \<lparr>ss_files = files_with c, ss_database = Some (event_columns, capture_queue), ss_trace = []\<rparr>"

definition sample_reply :: string where
  "sample_reply = encode_line (info_response_json
     \<lparr>dr_version = ''1'', dr_capabilities = [HerdrCapability, HerdrHostCaptureCapability], dr_queue_depth = 0,
      dr_registration_state = ''active'', dr_error = []\<rparr>)"

definition sample_host :: host_system where
  "sample_host = \<lparr>hx_bin_path = ''/bin/herdr'', hx_look_path = None, hx_home = Some ''/h'', hx_environ = [],
     hx_run = (\<lambda>_. Some ([], True))\<rparr>"

definition sample_setup :: setup_system where
  "sample_setup = \<lparr>sx_host = sample_host, sx_env = \<lparr>env_xdg_config_home = [], env_home = Some ''/h''\<rparr>, sx_sha256 = id,
     sx_daemon = (\<lambda>_. Some sample_reply), sx_read = (\<lambda>_ _. Inr ([], ''i'')), sx_plugin_reply = None,
     sx_binding_id = (\<lambda>_. Inr ''s''), sx_event_id = (\<lambda>_ _. Inr ''v''), sx_now = (\<lambda>_. at_time 200)\<rparr>"

definition sample_cx :: cli_system where
  "sample_cx = \<lparr>cx_version = ''1'', cx_home = Some ''/h'', cx_xdg_config = [], cx_xdg_state = [], cx_executable = Inr ''/h/agent'',
     cx_workdir = Inr ''/h'', cx_goos = ''linux'', cx_uid = 1000, cx_now = at_time 200, cx_stdin = [], cx_plugin_event = [],
     cx_plugin_event_json = [], cx_socket_path = [], cx_random = (\<lambda>_. Inr (replicate 16 0)), cx_new_key = Inr sample_key,
     cx_lock = Inr (), cx_daemon = (\<lambda>_ _. Some sample_reply), cx_run_daemon = (\<lambda>_ _ _. Inr ()), cx_setup = sample_setup,
     cx_later = sample_setup, cx_client = (\<lambda>_. fail ''offline''), cx_printable = (\<lambda>_. True), cx_sockets = [],
     cx_disk = (\<lambda>_. None), cx_runner = \<lparr>rn_output = (\<lambda>_ _. None), rn_run = (\<lambda>_ _. False)\<rparr>, cx_cancelled = (False, False)\<rparr>"

lemma sample_default_paths: "default_paths (Some ''/h'') [] [] = Inr sample_paths"
proof -
  have "is_ok (default_paths (Some ''/h'') [] [])"
    by code_simp
  then show ?thesis
    by (auto simp: sample_paths_def is_ok_iff)
qed

lemma sample_paths_of: "paths_of sample_cx = Inr sample_paths"
  by (simp add: paths_of_def sample_cx_def sample_default_paths)

definition conflict_config :: config where
  "conflict_config = sample_config\<lparr>cf_registration_state := ''identity_conflict''\<rparr>"

lemma sample_loads:
  "load_config (ap_config_file sample_paths) (files_with sample_config) = Inr sample_config"
  "load_config (ap_config_file sample_paths) (files_with conflict_config) = Inr conflict_config"
  by code_simp+

lemma sample_wf: "config_wf sample_config" "config_wf conflict_config"
  by code_simp+

lemma state_simps2 [simp]: "ss_files (state_with c) = files_with c" "ss_database (state_with c) = Some (event_columns, capture_queue)"
  "ss_trace (state_with c) = []"
  by (simp_all add: state_with_def)

section \<open>\<open>init\<close>\<close>

theorem init_keeps_identity_witness:
  "\<exists>out r s' c'. run_init sample_cx [''--endpoint=https://c.example''] (state_with sample_config) = (out, r, s') \<and>
     load_config (ap_config_file sample_paths) (ss_files s') = Inr c' \<and> cf_host_id c' = ''host''"
proof -
  obtain out r s' where run: "run_init sample_cx [''--endpoint=https://c.example''] (state_with sample_config) = (out, r, s')"
    by (metis prod_cases3)
  show ?thesis
    using init_keeps_identity[OF run sample_paths_of _ sample_wf(1)] sample_loads(1) run by (auto simp: sample_config_def)
qed

theorem init_conflict_stays_witness:
  "\<exists>out s'. run_init sample_cx [] (state_with conflict_config) = (out, Inr (), s') \<and>
     load_config (ap_config_file sample_paths) (ss_files s') = Inr conflict_config"
proof -
  have ok: "fst (snd (run_init sample_cx [] (state_with conflict_config))) = Inr ()"
    by code_simp
  obtain out s' where run: "run_init sample_cx [] (state_with conflict_config) = (out, Inr (), s')"
    by (metis ok prod.collapse)
  have "cf_registration_state conflict_config = RegistrationIdentityConflict"
    by (simp add: conflict_config_def registration_defs)
  then show ?thesis
    using init_conflict_stays[OF run sample_paths_of _ sample_wf(2)] sample_loads(2) run by simp
qed

definition fresh_state :: setup_state where
  "fresh_state = \<lparr>ss_files = (\<lambda>_. None), ss_database = None, ss_trace = []\<rparr>"

definition endpoint_flags :: flag_set where
  "endpoint_flags = [(''endpoint'', StringFlag ''https://b.example'')]"

theorem init_creates_identity_witness:
  "\<exists>out s'. run_init sample_cx [''-endpoint'', ''https://b.example''] fresh_state = (out, Inr (), s') \<and>
     key_at (ap_key_file sample_paths) (ss_files s') = Inr sample_key"
proof -
  have ok: "fst (snd (run_init sample_cx [''-endpoint'', ''https://b.example''] fresh_state)) = Inr ()"
    by code_simp
  obtain out s' where run: "run_init sample_cx [''-endpoint'', ''https://b.example''] fresh_state = (out, Inr (), s')"
    by (metis ok prod.collapse)
  have "load_config (ap_config_file sample_paths) (ss_files fresh_state) = Inl ErrNotExist"
    by (simp add: fresh_state_def load_config_def)
  moreover have "parse_flags [(''endpoint'', StringFlag [])] [''-endpoint'', ''https://b.example''] = Inr (endpoint_flags, [])"
    "valid_utf8 (string_flag ''endpoint'' endpoint_flags)"
    by code_simp+
  moreover have "cx_new_key sample_cx = Inr sample_key" "length sample_key = private_key_size" "cx_random sample_cx 0 = Inr (replicate 16 0)"
    by (simp_all add: sample_cx_def sample_key_def private_key_size_def)
  ultimately have "key_at (ap_key_file sample_paths) (ss_files s') = Inr sample_key"
    using init_creates_identity[OF run sample_paths_of] by simp
  then show ?thesis
    using run by blast
qed

section \<open>\<open>switch-backend\<close>\<close>

definition staging_flags :: flag_set where
  "staging_flags = [(''endpoint'', StringFlag []), (''force'', BoolFlag False)]"

lemma staging_choice:
  "parse_flags [(''endpoint'', StringFlag []), (''force'', BoolFlag False)] [''staging''] = Inr (staging_flags, [''staging''])"
  "chosen_endpoint (string_flag ''endpoint'' staging_flags) [''staging''] = Inr staging_endpoint" "valid_utf8 staging_endpoint"
  by code_simp+

lemma staging_run: "\<exists>out s'. run_switch_backend sample_cx [''staging''] (state_with sample_config) = (out, Inr (), s')"
proof -
  have "fst (snd (run_switch_backend sample_cx [''staging''] (state_with sample_config))) = Inr ()"
    by code_simp
  then show ?thesis
    by (metis prod.collapse)
qed

theorem switch_keeps_identity_witness:
  "\<exists>out s' c'. run_switch_backend sample_cx [''staging''] (state_with sample_config) = (out, Inr (), s') \<and>
     load_config (ap_config_file sample_paths) (ss_files s') = Inr c' \<and> cf_host_id c' = ''host''"
proof -
  obtain out s' where run: "run_switch_backend sample_cx [''staging''] (state_with sample_config) = (out, Inr (), s')"
    using staging_run by blast
  show ?thesis
    using switch_keeps_identity[OF run sample_paths_of staging_choice(1,2,3) _ sample_wf(1)] sample_loads(1) run
    by (auto simp: sample_config_def)
qed

theorem switched_events_stay_witness:
  "\<exists>out s' socket c' key q s''. run_switch_backend sample_cx [''staging''] (state_with sample_config) = (out, Inr (), s') \<and>
     serve_setup sample_cx [] s' = (Inr (socket, c', key, q), s'') \<and> map pe_event_id (q_events q) = [''e''] \<and>
     fst (next_for_backend (at_time 300) (cf_endpoint c') q) = Inl ErrNoRows"
proof -
  obtain out s' where run: "run_switch_backend sample_cx [''staging''] (state_with sample_config) = (out, Inr (), s')"
    using staging_run by blast
  have "is_ok (fst (serve_setup sample_cx [] (snd (snd (run_switch_backend sample_cx [''staging''] (state_with sample_config))))))"
    by code_simp
  then have "is_ok (fst (serve_setup sample_cx [] s'))"
    by (simp add: run)
  then obtain socket c' key q s'' where serve: "serve_setup sample_cx [] s' = (Inr (socket, c', key, q), s'')"
    unfolding is_ok_iff by (metis prod.collapse)
  have t: "endpoint_text (cf_endpoint sample_config) = Inr ''https://b.example''"
    by code_simp
  have rows: "open_database (ss_database (state_with sample_config)) = open_queue event_columns capture_queue"
    by simp
  have b: "\<forall>r \<in> set (q_events (open_database (ss_database (state_with sample_config)))). pe_backend r \<in> {[], trim_right (CHR ''/'') ''https://b.example''}"
    "q_backend (open_database (ss_database (state_with sample_config))) \<in> {None, Some (trim_right (CHR ''/'') ''https://b.example'')}"
    unfolding rows by (simp_all add: open_current capture_queue_def open_queue_def empty_queue_def migrate_rows_def add_column_def event_columns_def)
  have d: "trim_right (CHR ''/'') staging_endpoint \<noteq> trim_right (CHR ''/'') ''https://b.example''"
    "\<not> same_notification_endpoint (cf_endpoint sample_config) staging_endpoint"
    by code_simp+
  have "map pe_event_id (q_events (open_database (ss_database (state_with sample_config)))) = [''e'']"
    unfolding rows by (simp add: open_current capture_queue_def)
  then show ?thesis
    using switched_events_stay[OF run sample_paths_of staging_choice(1,2,3) _ sample_wf(1) t b d serve] sample_loads(1) run serve
    by (metis state_simps2(1))
qed

section \<open>\<open>herdr test\<close>\<close>

lemma capture_queue_inv: "database_inv id (Some (event_columns, capture_queue))"
proof -
  have "row_valid (row_view (new_row None ''e'' sample_stop_body (at_time 100)))"
    by code_simp
  moreover have "queue_ok capture_queue"
    by code_simp
  ultimately have "queue_inv id capture_queue"
    by (simp add: queue_inv_def capture_queue_def bindings_ok_def rows_valid_def empty_queue_def)
  then show ?thesis
    by (simp add: database_inv_def)
qed

theorem herdr_test_queued_witness:
  "\<exists>out s'. run_herdr_test sample_cx sample_paths [] ''phone'' (state_with sample_config) = (out, Inr (), s') \<and>
     database_inv id (ss_database s')"
proof -
  have ok: "fst (snd (run_herdr_test sample_cx sample_paths [] ''phone'' (state_with sample_config))) = Inr ()"
    by code_simp
  obtain out s' where run: "run_herdr_test sample_cx sample_paths [] ''phone'' (state_with sample_config) = (out, Inr (), s')"
    by (metis ok prod.collapse)
  have sx: "sx_sha256 (cx_setup sample_cx) = id"
    by (simp add: sample_cx_def sample_setup_def)
  have z: "valid_utf8 ''phone''" "\<not> is_zero_time (cx_now sample_cx)"
    by code_simp+
  have r: "cx_random sample_cx 0 = Inr v \<Longrightarrow> length v = 16" for v
    by (auto simp: sample_cx_def)
  show ?thesis
    using herdr_test_queued[OF run _ z r] capture_queue_inv run by (auto simp: sx)
qed

section \<open>\<open>uninstall\<close>\<close>

definition stopped_system :: uninstall_system where
  "stopped_system = \<lparr>ux_uid = 1000, ux_host = sample_host, ux_lstat = (\<lambda>_. Inl ErrNotExist), ux_daemon = (\<lambda>_ _. None)\<rparr>"

definition keep_options :: uninstall_options where
  "keep_options = \<lparr>uo_paths = sample_paths, uo_home = ''/h'', uo_binary = ''/h/agent'', uo_hooks = ''/h/hooks.json'',
     uo_platform = ''linux'', uo_purge = False\<rparr>"

lemma keep_run: "\<exists>s'. uninstall_agent stopped_system keep_options (state_with sample_config) = (Inr (), s')"
proof -
  have "fst (uninstall_agent stopped_system keep_options (state_with sample_config)) = Inr ()"
    by code_simp
  then show ?thesis
    by (metis prod.collapse)
qed

theorem uninstall_checks_first_witness:
  "\<not> running_notification_daemon stopped_system (ap_socket sample_paths) (snd (stop_command stopped_system keep_options (state_with sample_config)))"
proof -
  obtain s' where run: "uninstall_agent stopped_system keep_options (state_with sample_config) = (Inr (), s')"
    using keep_run by blast
  show ?thesis
    using uninstall_checks_first[OF run] by (simp add: keep_options_def)
qed

theorem uninstall_keeps_identity_witness:
  "\<exists>s'. uninstall_agent stopped_system keep_options (state_with sample_config) = (Inr (), s') \<and>
     load_config (ap_config_file sample_paths) (ss_files s') = Inr sample_config"
proof -
  obtain s' where run: "uninstall_agent stopped_system keep_options (state_with sample_config) = (Inr (), s')"
    using keep_run by blast
  have k: "uo_paths keep_options = sample_paths" "\<not> uo_purge keep_options"
    by (simp_all add: keep_options_def)
  have d: "set [ap_config_file (uo_paths keep_options), ap_key_file (uo_paths keep_options)] \<inter>
       set [uo_binary keep_options, uo_hooks keep_options, uo_hooks keep_options @ ''.tmp'', uo_hooks keep_options @ ''.novascale-backup''] = {}"
    "\<not> inside (plugin_dir (uo_paths keep_options)) (ap_database (uo_paths keep_options))"
    by code_simp+
  show ?thesis
    using uninstall_keeps_identity[OF run _ k(2) d] sample_default_paths sample_loads(1) run by (auto simp: k(1))
qed

theorem uninstall_complete_witness:
  "\<exists>s'. uninstall_agent stopped_system keep_options (state_with sample_config) = (Inr (), s') \<and> ss_files s' ''/h/agent'' = None"
proof -
  obtain s' where run: "uninstall_agent stopped_system keep_options (state_with sample_config) = (Inr (), s')"
    using keep_run by blast
  have d: "service_file keep_options \<notin> {uo_hooks keep_options, uo_hooks keep_options @ ''.tmp'', uo_hooks keep_options @ ''.novascale-backup''}"
    "uo_hooks keep_options \<notin> {ap_socket (uo_paths keep_options), uo_binary keep_options}"
    "\<not> list_ex (\<lambda>d. inside d (uo_hooks keep_options)) (uninstall_dirs keep_options)"
    by code_simp+
  have "ss_files (snd (uninstall_agent stopped_system keep_options (state_with sample_config))) (uo_hooks keep_options) = None"
    by code_simp
  then have "small_enough (uo_hooks keep_options) (ss_files s')"
    by (simp add: run small_enough_def)
  from uninstall_complete[OF run d this] show ?thesis
    using run by (simp add: keep_options_def)
qed

end
