(* ===== verification/Plugin_Samples.thy ===== *)
theory Plugin_Samples
  imports Cli_Samples
begin

text \<open>The properties of the plugin set-up, applied on the host of \<open>Cli_Samples\<close>.\<close>

section \<open>A willing backend and a server that knows the plugin\<close>

definition support_body :: string where
  "support_body = json_print (JObj [(''herdr'', JBool True), (''sharedPushAllowance'', JBool True)])"

definition willing_client :: http_client where
  "willing_client r = Inr \<lparr>rs_status = 200, rs_body = Inr support_body\<rparr>"

lemma take_long: "length s = k \<Longrightarrow> k \<le> n \<Longrightarrow> take n s = s"
  by simp

lemma support_decoded:
  "decode_line (dec_struct capabilities_member) (take 16384 support_body) \<lparr>bc_herdr = False, bc_shared = False\<rparr> =
     Inr \<lparr>bc_herdr = True, bc_shared = True\<rparr>"
proof -
  have "length support_body = 41"
    by code_simp
  then have "take 16384 support_body = support_body"
    by (rule take_long) simp
  moreover have "decode_line (dec_struct capabilities_member) support_body \<lparr>bc_herdr = False, bc_shared = False\<rparr> =
     Inr \<lparr>bc_herdr = True, bc_shared = True\<rparr>"
    by code_simp
  ultimately show ?thesis by simp
qed

lemma backend_willing: "fst (herdr_backend_supported willing_client (cf_endpoint sample_config)) = Inr ()"
proof -
  have p: "is_ok (parse_notification_endpoint (cf_endpoint sample_config))"
    by code_simp
  have u: "(case parse_notification_endpoint (cf_endpoint sample_config) of Inl _ \<Rightarrow> False
      | Inr base \<Rightarrow> url_parse (rq_url (capabilities_request base)) \<noteq> None)"
    by code_simp
  show ?thesis
    using p u by (cases "parse_notification_endpoint (cf_endpoint sample_config)")
      (simp_all add: herdr_backend_supported_def willing_client_def support_decoded Let_def)
qed

definition no_registry :: setup_system where
  "no_registry = sample_setup\<lparr>sx_host := sample_host\<lparr>hx_run := (\<lambda>_. None)\<rparr>\<rparr>"

lemma reply_info: "read_daemon_info (sx_daemon no_registry) = Inr \<lparr>dr_version = ''1'', dr_capabilities = [HerdrCapability, HerdrHostCaptureCapability],
    dr_queue_depth = 0, dr_registration_state = ''active'', dr_error = []\<rparr>"
  by code_simp

lemma install_link_fails:
  "\<exists>s'. install_herdr no_registry no_registry willing_client (\<lambda>_. True) [] sample_paths [] ''/h/agent'' ''1'' (state_with sample_config) =
     (fail ''Herdr plugin command unavailable'', s') \<and> s' \<noteq> state_with sample_config"
proof -
  obtain m where m: "herdr_manifest (\<lambda>_. True) ''/h/agent'' = Inr m"
  proof -
    have "is_abs ''/h/agent''"
      by code_simp
    then show ?thesis
      using that by (simp add: herdr_manifest_def)
  qed
  define p where "p = plugin_process (sx_host no_registry) ''/bin/herdr'' [''link'', join_path [ap_config_dir sample_paths, ''herdr-plugin''], ''--enabled'']"
  have "plugin_binary (sx_host no_registry) = Inr ''/bin/herdr''"
    by code_simp
  then have link: "herdr_plugin_command (sx_host no_registry) [''link'', join_path [ap_config_dir sample_paths, ''herdr-plugin''], ''--enabled''] =
      (fail ''Herdr plugin command unavailable'', [p])"
    by (simp add: herdr_plugin_command_def p_def no_registry_def Let_def)
  define s1 where "s1 = write_manifest sample_paths m (state_with sample_config)"
  have "install_herdr no_registry no_registry willing_client (\<lambda>_. True) [] sample_paths [] ''/h/agent'' ''1'' (state_with sample_config) =
      (fail ''Herdr plugin command unavailable'', add_trace [p] (put_database (open_database (ss_database s1)) s1))"
    unfolding install_herdr_def state_simps2 sample_loads(1) reply_info by (simp add: backend_willing m link s1_def Let_def)
  moreover have "ss_trace (add_trace [p] (put_database (open_database (ss_database s1)) s1)) \<noteq> ss_trace (state_with sample_config)"
    by (simp add: add_trace_def)
  ultimately show ?thesis
    by metis
qed

theorem install_only_when_supported_witness:
  "\<exists>s' base. install_herdr no_registry no_registry willing_client (\<lambda>_. True) [] sample_paths [] ''/h/agent'' ''1'' (state_with sample_config) =
     (fail ''Herdr plugin command unavailable'', s') \<and> parse_notification_endpoint ''https://b.example'' = Inr base"
proof -
  obtain s' where run: "install_herdr no_registry no_registry willing_client (\<lambda>_. True) [] sample_paths [] ''/h/agent'' ''1''
      (state_with sample_config) = (fail ''Herdr plugin command unavailable'', s')" "s' \<noteq> state_with sample_config"
    using install_link_fails by blast
  show ?thesis
    using install_only_when_supported[OF run(1)] run sample_loads(1) by (auto simp: sample_config_def)
qed

lemma setup_samples_ok: "setup_ok no_registry" "sx_sha256 no_registry = id"
proof -
  have "session_wf ''s''" "\<not> is_zero_time (at_time 200)"
    by code_simp+
  then show "setup_ok no_registry" "sx_sha256 no_registry = id"
    by (simp_all add: setup_ok_def no_registry_def sample_setup_def)
qed

theorem install_never_notifies_witness:
  "\<exists>r s'. install_herdr no_registry no_registry willing_client (\<lambda>_. True) [] sample_paths [] ''/h/agent'' ''1'' (state_with sample_config) = (r, s') \<and>
     database_inv id (ss_database s')"
proof -
  obtain r s' where run: "install_herdr no_registry no_registry willing_client (\<lambda>_. True) [] sample_paths [] ''/h/agent'' ''1''
      (state_with sample_config) = (r, s')"
    by fastforce
  show ?thesis
    using install_never_notifies[OF run setup_samples_ok(1,1)] capture_queue_inv run by (simp add: setup_samples_ok(2))
qed

section \<open>A ready host\<close>

definition registry_entry :: json where
  "registry_entry = JObj [(''plugin_id'', JStr HerdrPluginID), (''enabled'', JBool True)]"

definition plugin_answer :: string where
  "plugin_answer = json_print (JObj [(''id'', JStr ''novascale-notifications''),
     (''result'', JObj [(''plugins'', JArr [registry_entry])])])"

definition ready_setup :: setup_system where
  "ready_setup = sample_setup\<lparr>sx_plugin_reply := Some plugin_answer\<rparr>"

lemma plugin_enabled: "server_plugin_state (sx_plugin_reply ready_setup) = (True, True)"
proof -
  define t where "t = (case parse_prefix plugin_answer of None \<Rightarrow> None | Some (j, _) \<Rightarrow> Some j)"
  have "length plugin_answer < 200"
    by code_simp
  then have cut: "take (1024 * 1024) plugin_answer = plugin_answer"
    by simp
  have req: "herdr_request (Some plugin_answer) (dec_struct plugins_member) [] =
      Inr [\<lparr>pg_id = HerdrPluginID, pg_enabled = True, pg_warnings = []\<rparr>]"
  proof -
    have "(case parse_prefix plugin_answer of None \<Rightarrow> False | Some (j, _) \<Rightarrow>
        (case dec_struct reply_member j \<lparr>hr_id = [], hr_result = None, hr_error = None\<rparr> of
           (r, ok) \<Rightarrow> ok \<and> hr_id r = ''novascale-notifications'' \<and> hr_error r = None \<and>
             (case hr_result r of None \<Rightarrow> False | Some res \<Rightarrow>
                dec_struct plugins_member res [] = ([\<lparr>pg_id = HerdrPluginID, pg_enabled = True, pg_warnings = []\<rparr>], True))))"
      by code_simp
    then show ?thesis
      unfolding herdr_request_def cut option.case by (auto split: option.splits prod.splits)
  qed
  then show ?thesis
    by (simp add: server_plugin_state_def ready_setup_def plugin_healthy_def)
qed

lemma ready_daemon: "read_daemon_info (sx_daemon ready_setup) = Inr \<lparr>dr_version = ''1'', dr_capabilities = [HerdrCapability, HerdrHostCaptureCapability],
    dr_queue_depth = 0, dr_registration_state = ''active'', dr_error = []\<rparr>"
  by code_simp

lemma ready_binding:
  "\<exists>b q. inspect_binding ready_setup True (sx_read ready_setup 0 ''/h.sock'') ''/h.sock'' (open_database (Some (event_columns, capture_queue))) = (Inr b, q) \<and>
     hb_enabled b \<and> hb_session_id b = ''s''"
proof -
  have "(case inspect_binding ready_setup True (sx_read ready_setup 0 ''/h.sock'') ''/h.sock'' (open_database (Some (event_columns, capture_queue))) of
      (Inl _, _) \<Rightarrow> False | (Inr b, _) \<Rightarrow> hb_enabled b \<and> hb_session_id b = ''s'')"
    by code_simp
  then show ?thesis
    by (auto split: prod.splits sum.splits)
qed

lemma ready_run:
  "\<exists>st s'. inspect_herdr ready_setup sample_paths ''/h.sock'' ''1'' (state_with sample_config) = (Inr st, s') \<and> hs_ready st \<and> hs_session_id st = ''s''"
proof -
  have on: "capture_on (open_database (Some (event_columns, capture_queue)))"
    by code_simp
  have read: "is_ok (sx_read ready_setup 0 ''/h.sock'')"
    by code_simp
  obtain b q where b: "inspect_binding ready_setup True (sx_read ready_setup 0 ''/h.sock'') ''/h.sock'' (open_database (Some (event_columns, capture_queue))) = (Inr b, q)"
      "hb_enabled b" "hb_session_id b = ''s''"
    using ready_binding by blast
  show ?thesis
    unfolding inspect_herdr_def state_simps2 sample_loads(1)
    using on read b by (simp add: base_status_def ready_daemon plugin_enabled host_ready_def registration_defs del: open_again)
qed

theorem ready_status_means_witness:
  "\<exists>st s' q'. inspect_herdr ready_setup sample_paths ''/h.sock'' ''1'' (state_with sample_config) = (Inr st, s') \<and>
     ss_database s' = Some (event_columns, q') \<and> ''s'' \<in> hb_session_id ` set (q_bindings q')"
proof -
  obtain st s' where run: "inspect_herdr ready_setup sample_paths ''/h.sock'' ''1'' (state_with sample_config) = (Inr st, s')" "hs_ready st"
      "hs_session_id st = ''s''"
    using ready_run by blast
  obtain q' b where "ss_database s' = Some (event_columns, q')" "b \<in> set (q_bindings q')" "hb_session_id b = hs_session_id st"
    using ready_status_means[OF run(1,2)] by (auto split: if_splits)
  then show ?thesis
    using run(1,3) by (intro exI[of _ st] exI[of _ s'] exI[of _ q']) force
qed

end
