(* ===== verification/App_Update.thy ===== *)
theory App_Update
  imports App_Server
begin

text \<open>
  What \<open>appservercontrol\<close> guarantees: when a restart happens, that it reads the configuration \<open>setup.sh\<close>
  writes, how symbolic links are followed, and the elapsed times of \<open>ps\<close>.
\<close>

section \<open>Restarts\<close>

lemma inspect_update_cases:
  "inspect_update cancelled disk home goos uid now rn = Inr state \<longleftrightarrow>
     \<not> cancelled \<and> trim_space home \<noteq> [] \<and>
     (\<exists>binary changed pid elapsed. configured_binary disk home = Inr binary \<and>
        resolved_binary_changed_at disk binary = Inr changed \<and> service_pid goos uid rn = Inr pid \<and>
        process_elapsed pid rn = Inr elapsed \<and>
        state = (if nanos now + wrap64 (- elapsed) + mtimeTolerance < nanos changed then UpdateRestartRequired else UpdateCurrent))"
  by (auto simp: inspect_update_def Let_def after_def time_add_def split: sum.splits)

text \<open>The inspection finds the configured executable changed more than two seconds after the service process started.\<close>

definition restart_due :: "disk \<Rightarrow> string \<Rightarrow> string \<Rightarrow> int \<Rightarrow> gotime \<Rightarrow> runner \<Rightarrow> bool" where
  "restart_due disk home goos uid now rn \<longleftrightarrow>
     trim_space home \<noteq> [] \<and>
     (\<exists>binary changed pid elapsed.
       configured_binary disk home = Inr binary \<and> resolved_binary_changed_at disk binary = Inr changed \<and>
       service_pid goos uid rn = Inr pid \<and> process_elapsed pid rn = Inr elapsed \<and>
       nanos now + wrap64 (- elapsed) + 2 * second < nanos changed)"

lemma due_required:
  "inspect_update cancelled disk home goos uid now rn = Inr UpdateRestartRequired \<longleftrightarrow>
     \<not> cancelled \<and> restart_due disk home goos uid now rn" (is "?l \<longleftrightarrow> ?r")
proof
  assume ?l
  then obtain binary changed pid elapsed where "\<not> cancelled" "trim_space home \<noteq> []" "configured_binary disk home = Inr binary"
      "resolved_binary_changed_at disk binary = Inr changed" "service_pid goos uid rn = Inr pid"
      "process_elapsed pid rn = Inr elapsed" "nanos now + wrap64 (- elapsed) + 2 * second < nanos changed"
    by (auto simp: inspect_update_cases mtimeTolerance_def split: if_splits)
  then show ?r
    unfolding restart_due_def by blast
next
  assume ?r
  then obtain binary changed pid elapsed where "\<not> cancelled" "trim_space home \<noteq> []" "configured_binary disk home = Inr binary"
      "resolved_binary_changed_at disk binary = Inr changed" "service_pid goos uid rn = Inr pid"
      "process_elapsed pid rn = Inr elapsed" "nanos now + wrap64 (- elapsed) + 2 * second < nanos changed"
    unfolding restart_due_def by blast
  then show ?l
    by (intro iffD2[OF inspect_update_cases] conjI exI) (assumption | simp only: mtimeTolerance_def if_True)+
qed

lemma restart_commands:
  "snd (restart cancelled goos uid rn) =
     (if cancelled then [] else case restart_command goos uid of Inl e \<Rightarrow> [] | Inr command \<Rightarrow> [command])"
  "fst (restart cancelled goos uid rn) = Inr () \<longleftrightarrow>
     (\<exists>name arguments. snd (restart cancelled goos uid rn) = [(name, arguments)] \<and> rn_run rn name arguments)"
proof -
  show "snd (restart cancelled goos uid rn) =
     (if cancelled then [] else case restart_command goos uid of Inl e \<Rightarrow> [] | Inr command \<Rightarrow> [command])"
    by (cases "restart_command goos uid") (simp_all add: restart_def case_prod_beta)
  show "fst (restart cancelled goos uid rn) = Inr () \<longleftrightarrow>
     (\<exists>name arguments. snd (restart cancelled goos uid rn) = [(name, arguments)] \<and> rn_run rn name arguments)"
    by (cases "restart_command goos uid") (auto simp: restart_def case_prod_beta)
qed

lemma restart_if_updated_cases:
  "restart_if_updated cancelled cancelled' disk home goos uid now rn =
     (if \<not> cancelled \<and> restart_due disk home goos uid now rn
      then (case restart cancelled' goos uid rn of (r, commands) \<Rightarrow> (case r of Inl e \<Rightarrow> Inl e | Inr _ \<Rightarrow> Inr True, commands))
      else (case inspect_update cancelled disk home goos uid now rn of Inl e \<Rightarrow> Inl e | Inr _ \<Rightarrow> Inr False, []))"
proof (cases "inspect_update cancelled disk home goos uid now rn = Inr UpdateRestartRequired")
  case True
  moreover from True have "\<not> cancelled \<and> restart_due disk home goos uid now rn"
    by (simp add: due_required)
  ultimately show ?thesis
    by (cases "restart cancelled' goos uid rn"; cases "fst (restart cancelled' goos uid rn)") (simp_all add: restart_if_updated_def)
next
  case False
  then have n: "\<not> (\<not> cancelled \<and> restart_due disk home goos uid now rn)"
    by (simp add: due_required)
  show ?thesis
    unfolding if_not_P[OF n] using False
    by (cases "inspect_update cancelled disk home goos uid now rn") (auto simp: restart_if_updated_def split: update_state.splits)
qed

text \<open>C32: The App Server is restarted exactly on proof. The restart command of the system, and no other, is run if and
  only if the context is alive at the inspection and at the restart, the home is known, and the configured executable,
  its change, the service process and its age could all be read and show a change more than two seconds after the
  start; every unknown state runs nothing. A restart is reported if and only if that command was run and succeeded.\<close>

theorem restart_only_when_changed:
  "snd (restart_if_updated cancelled cancelled' disk home goos uid now rn) =
     (if \<not> cancelled \<and> \<not> cancelled' \<and> restart_due disk home goos uid now rn
      then (case restart_command goos uid of Inl e \<Rightarrow> [] | Inr command \<Rightarrow> [command]) else []) \<and>
   (fst (restart_if_updated cancelled cancelled' disk home goos uid now rn) = Inr True \<longleftrightarrow>
      (\<exists>name arguments. snd (restart_if_updated cancelled cancelled' disk home goos uid now rn) = [(name, arguments)] \<and>
         rn_run rn name arguments))"
proof (cases "\<not> cancelled \<and> restart_due disk home goos uid now rn")
  case True
  obtain r commands where r: "restart cancelled' goos uid rn = (r, commands)"
    by fastforce
  have "restart_if_updated cancelled cancelled' disk home goos uid now rn = (case r of Inl e \<Rightarrow> Inl e | Inr _ \<Rightarrow> Inr True, commands)"
    using True by (simp add: restart_if_updated_cases r)
  moreover have "(case r of Inl e \<Rightarrow> Inl e | Inr _ \<Rightarrow> Inr True) = Inr True \<longleftrightarrow> r = Inr ()"
    by (cases r) simp_all
  ultimately show ?thesis
    using True restart_commands[of cancelled' goos uid rn] r by simp
next
  case False
  obtain r where r: "restart_if_updated cancelled cancelled' disk home goos uid now rn = (r, [])" "r \<noteq> Inr True"
  proof (cases "inspect_update cancelled disk home goos uid now rn")
    case (Inl e)
    then show ?thesis
      using that[of "Inl e"] unfolding restart_if_updated_cases if_not_P[OF False] by simp
  next
    case (Inr state)
    then show ?thesis
      using that[of "Inr False"] unfolding restart_if_updated_cases if_not_P[OF False] by simp
  qed
  have f: "\<not> (\<not> cancelled \<and> \<not> cancelled' \<and> restart_due disk home goos uid now rn)"
    using False by blast
  show ?thesis
    unfolding r(1) if_not_P[OF f] using r(2) by simp
qed

section \<open>The configuration of setup.sh\<close>

definition env_quote :: "string \<Rightarrow> string" where
  "env_quote s = concat (map (\<lambda>c. if c \<in> {CHR 92, CHR 34, CHR 36, CHR 96} then [CHR 92, c] else [c]) s)"

definition config_line :: "string \<times> string \<Rightarrow> string" where
  "config_line e = fst e @ ''='' @ CHR 34 # env_quote (snd e) @ [CHR 34, CHR 10]"

definition setup_config :: "(string \<Rightarrow> string) \<Rightarrow> string" where
  "setup_config v = concat (map (\<lambda>key. config_line (''NOVASCALE_CODEX_'' @ key, v key))
     [''LISTEN'', ''PORT'', ''HOST'', ''NAME'', ''SCHEME'', ''TOKEN_FILE'', ''BIN'', ''BIN_DIR'', ''NO_QR''])"

lemma unquote_env_quote: "unquote_bytes (env_quote s) = Inr s"
  by (induction s) (auto simp: env_quote_def)

lemma unquote_quoted: "unquote_config_value (CHR 34 # env_quote s @ [CHR 34]) = Inr s"
  by (simp add: unquote_config_value_def unquote_env_quote)

lemma env_quote_lines: "CHR 10 \<notin> set s \<Longrightarrow> CHR 10 \<notin> set (env_quote s)"
  by (auto simp: env_quote_def)

lemma split_config_line:
  assumes "CHR 10 \<notin> set k" "CHR 10 \<notin> set v"
  shows "split_on (CHR 10) (config_line (k, v) @ rest) = (k @ ''='' @ CHR 34 # env_quote v @ [CHR 34]) # split_on (CHR 10) rest"
proof -
  have l: "config_line (k, v) @ rest = (k @ ''='' @ CHR 34 # env_quote v @ [CHR 34]) @ CHR 10 # rest"
    by (simp add: config_line_def)
  have "CHR 10 \<notin> set (k @ ''='' @ CHR 34 # env_quote v @ [CHR 34])"
    using assms env_quote_lines by simp
  then show ?thesis
    unfolding l by (rule split_on_sep)
qed

lemma split_config:
  "list_all (\<lambda>(k, v). CHR 10 \<notin> set k \<and> CHR 10 \<notin> set v) es \<Longrightarrow>
     split_on (CHR 10) (concat (map config_line es)) = map (\<lambda>(k, v). k @ ''='' @ CHR 34 # env_quote v @ [CHR 34]) es @ [[]]"
  by (induction es) (auto simp: split_config_line)

lemma drop_cr_quoted: "drop_cr (k @ ''='' @ CHR 34 # env_quote v @ [CHR 34]) = k @ ''='' @ CHR 34 # env_quote v @ [CHR 34]"
  by (simp add: drop_cr_def trim_suffix_def has_suffix_def has_prefix_def)

lemma scan_config:
  assumes "list_all (\<lambda>(k, v). CHR 10 \<notin> set k \<and> CHR 10 \<notin> set v) es"
  shows "scan_lines (concat (map config_line es)) = map (\<lambda>(k, v). k @ ''='' @ CHR 34 # env_quote v @ [CHR 34]) es"
  unfolding scan_lines_def split_config[OF assms] Let_def
  by (auto simp: butlast_append drop_cr_quoted[simplified] intro!: map_idI)

text \<open>Only the line of \<open>NOVASCALE_CODEX_BIN\<close> is read.\<close>

lemma read_other:
  assumes "k \<in> {''LISTEN'', ''PORT'', ''HOST'', ''NAME'', ''SCHEME'', ''TOKEN_FILE'', ''BIN_DIR'', ''NO_QR''}"
  shows "read_keys ((''NOVASCALE_CODEX_'' @ k) @ ''='' @ CHR 34 # q) config_keys values = Inr values"
  using assms by (auto simp: config_keys_def has_prefix_def)

lemma read_binary:
  "read_keys ((''NOVASCALE_CODEX_'' @ ''BIN'') @ ''='' @ CHR 34 # env_quote v @ [CHR 34]) config_keys values =
     Inr (map_put ''NOVASCALE_CODEX_BIN'' v values)"
proof -
  have "trim_prefix (''NOVASCALE_CODEX_BIN='' @ CHR 34 # env_quote v @ [CHR 34]) (''NOVASCALE_CODEX_BIN='') =
      CHR 34 # env_quote v @ [CHR 34]"
    by (simp add: trim_prefix_def has_prefix_def)
  then show ?thesis
    by (simp add: config_keys_def has_prefix_def unquote_quoted)
qed

lemma read_setup_lines:
  "read_lines (map (\<lambda>(k, v). k @ ''='' @ CHR 34 # env_quote v @ [CHR 34])
     (map (\<lambda>key. (''NOVASCALE_CODEX_'' @ key, v key))
        [''LISTEN'', ''PORT'', ''HOST'', ''NAME'', ''SCHEME'', ''TOKEN_FILE'', ''BIN'', ''BIN_DIR'', ''NO_QR''])) [] =
   Inr [(''NOVASCALE_CODEX_BIN'', v ''BIN'')]"
proof -
  note other = read_other[of _ "env_quote w @ [CHR 34]" for w]
  show ?thesis
    by (simp only: list.map prod.case read_lines.simps read_binary other insert_iff simp_thms sum.case map_put.simps)
qed

lemma setup_config_lines:
  assumes "\<And>key. CHR 10 \<notin> set (v key)"
  shows "read_lines (scan_lines (setup_config v)) [] = Inr [(''NOVASCALE_CODEX_BIN'', v ''BIN'')]"
proof -
  let ?es = "map (\<lambda>key. (''NOVASCALE_CODEX_'' @ key, v key))
     [''LISTEN'', ''PORT'', ''HOST'', ''NAME'', ''SCHEME'', ''TOKEN_FILE'', ''BIN'', ''BIN_DIR'', ''NO_QR'']"
  have lines: "list_all (\<lambda>(k, v). CHR 10 \<notin> set k \<and> CHR 10 \<notin> set v) ?es"
    using assms by simp
  have body: "setup_config v = concat (map config_line ?es)"
    unfolding setup_config_def by simp
  show ?thesis
    unfolding body scan_config[OF lines] by (rule read_setup_lines)
qed

lemma setup_config_binary:
  assumes "\<And>key. CHR 10 \<notin> set (v key)" "is_abs (v ''BIN'')" "length (setup_config v) \<le> maxConfigBytes"
  shows "binary_of_text (setup_config v) = Inr (clean_path (v ''BIN''))"
proof -
  have "v ''BIN'' \<noteq> []"
    using assms(2) by (auto simp: is_abs_def has_prefix_def)
  then show ?thesis
    using assms(2,3) setup_config_lines[OF assms(1)]
    by (simp add: binary_of_text_def Let_def config_value_def map_get_def)
qed

text \<open>The agent reads the configuration file that \<open>setup.sh\<close> writes: of a file within the size limit, owned by the
  user alone, whose values have no line break, it gets exactly the configured executable, whatever characters the
  values have (quotes, dollars, backslashes and backquotes are escaped by the script and read back).\<close>

theorem setup_config_read_back:
  assumes "\<And>key. CHR 10 \<notin> set (v key)" "is_abs (v ''BIN'')" "length (setup_config v) \<le> maxConfigBytes"
    "disk path = Some (RegularNode 384 t (setup_config v))"
  shows "binary_from_config disk path = Inr (clean_path (v ''BIN''))"
  using setup_config_binary[OF assms(1-3)] assms(4) by (simp add: binary_from_config_def)

definition sample_values :: "string \<Rightarrow> string" where
  "sample_values key = (if key = ''BIN'' then ''/opt/my $codex/bin/../codex'' else if key = ''NAME'' then [CHR 34, CHR 92, CHR 36] else ''x'')"

definition sample_home :: disk where
  "sample_home path =
     (if path = ''/h/.codex/novascale-codex-host.env'' then Some (RegularNode 384 (at_time 5) (setup_config sample_values))
      else if path = ''/opt/my $codex/codex'' then Some (LinkNode (at_time 90) ''../codex-2'')
      else if path = ''/opt/codex-2'' then Some (RegularNode 493 (at_time 100) [])
      else None)"

lemma sample_values_ok:
  "CHR 10 \<notin> set (sample_values key)" "is_abs (sample_values ''BIN'')" "length (setup_config sample_values) \<le> maxConfigBytes"
  "clean_path (sample_values ''BIN'') = ''/opt/my $codex/codex''"
proof -
  have "length (setup_config sample_values) = 270"
    by code_simp
  then show "length (setup_config sample_values) \<le> maxConfigBytes"
    by (simp add: maxConfigBytes_def)
  show "CHR 10 \<notin> set (sample_values key)"
    by (simp add: sample_values_def)
  show "is_abs (sample_values ''BIN'')" "clean_path (sample_values ''BIN'') = ''/opt/my $codex/codex''"
    by code_simp+
qed

theorem setup_config_read_back_witness:
  "binary_from_config sample_home ''/h/.codex/novascale-codex-host.env'' = Inr ''/opt/my $codex/codex''"
  using setup_config_read_back[OF sample_values_ok(1-3), of sample_home "''/h/.codex/novascale-codex-host.env''" "at_time 5"]
  by (simp add: sample_home_def sample_values_ok(4))

section \<open>Symbolic links\<close>

text \<open>The reference: the chain of modification times from a path to a regular file.\<close>

inductive link_chain :: "disk \<Rightarrow> string \<Rightarrow> gotime list \<Rightarrow> bool" for disk where
  regular: "disk p = Some (RegularNode perm t text) \<Longrightarrow> link_chain disk p [t]"
| via: "disk p = Some (LinkNode t target) \<Longrightarrow>
     link_chain disk (clean_path (if is_abs target then target else join_path [dir_path p, target])) ts \<Longrightarrow>
     link_chain disk p (t # ts)"

inductive_simps link_chain_simps: "link_chain disk p ts"

definition latest :: "gotime \<Rightarrow> gotime \<Rightarrow> gotime" where
  "latest a t = (if after t a then t else a)"

lemma changed_at_chain:
  "binary_changed_at disk n p t0 = Inr t \<longleftrightarrow> (\<exists>ts. link_chain disk p ts \<and> length ts \<le> n \<and> t = foldl latest t0 ts)"
proof (induction n arbitrary: p t0)
  case 0
  have "ts \<noteq> []" if "link_chain disk p ts" for ts
    using that by (auto elim: link_chain.cases)
  then show ?case by auto
next
  case (Suc n)
  show ?case
  proof (cases "disk p")
    case None
    then show ?thesis by (auto simp: link_chain_simps[of disk p])
  next
    case (Some node)
    show ?thesis
    proof (cases node)
      case (RegularNode perm mt content)
      then show ?thesis
        using Some by (auto simp: link_chain_simps[of disk p] latest_def Let_def)
    next
      case (LinkNode mt target)
      let ?q = "clean_path (if is_abs target then target else join_path [dir_path p, target])"
      have chain: "link_chain disk p ts \<longleftrightarrow> (\<exists>us. ts = mt # us \<and> link_chain disk ?q us)" for ts
        using Some LinkNode by (simp add: link_chain_simps[of disk p])
      have "binary_changed_at disk (Suc n) p t0 = binary_changed_at disk n ?q (latest t0 mt)"
        using Some LinkNode by (simp add: latest_def)
      moreover have "(\<exists>ts. link_chain disk p ts \<and> length ts \<le> Suc n \<and> t = foldl latest t0 ts) \<longleftrightarrow>
          (\<exists>us. link_chain disk ?q us \<and> length us \<le> n \<and> t = foldl latest (latest t0 mt) us)"
        unfolding chain by fastforce
      ultimately show ?thesis
        using Suc.IH[of ?q "latest t0 mt"] by simp
    next
      case (OtherNode mt)
      then show ?thesis
        using Some by (auto simp: link_chain_simps[of disk p])
    qed
  qed
qed

text \<open>The time of the last change of the executable is the latest modification time along its chain of symbolic
  links, and it is found exactly when the chain ends in a regular file after at most 31 links: a loop of links, a
  missing file and a chain that is too long are errors.\<close>

theorem changed_at_latest:
  "resolved_binary_changed_at disk p = Inr t \<longleftrightarrow>
     (\<exists>ts. link_chain disk (clean_path p) ts \<and> length ts \<le> 32 \<and> t = foldl latest zero_time ts)"
  by (simp add: resolved_binary_changed_at_def changed_at_chain maxSymlinkDepth_def)

section \<open>Elapsed times\<close>

text \<open>The format \<open>[[dd-]hh:]mm:ss\<close> of \<open>ps -o etime=\<close> for a number of seconds, and the spaces around it.\<close>

definition ps_elapsed :: "int \<Rightarrow> string" where
  "ps_elapsed s =
     (let d = s div 86400; h = s div 3600 mod 24
      in (if d = 0 then [] else format_int d @ ''-'') @ (if s < 3600 then [] else pad 2 h @ '':'') @
         pad 2 (s div 60 mod 60) @ '':'' @ pad 2 (s mod 60))"

lemma parse_digits:
  assumes "s \<noteq> []" "list_all is_digit s" "digits_value s < 2 ^ 63" "0 \<le> digits_value s"
  shows "parse_count s = Some (digits_value s)"
proof -
  have "hd s \<noteq> CHR ''-''" "hd s \<noteq> CHR ''+''"
    using assms(1,2) by (cases s; auto simp: is_digit_def byte_def)+
  then show ?thesis
    using assms by (simp add: parse_count_def parse_int64_def all_digits_def)
qed

lemma parse_pad: "0 \<le> n \<Longrightarrow> n < 100 \<Longrightarrow> parse_count (pad 2 n) = Some n"
  using parse_digits[of "pad 2 n"] pad_value[of n 2] pad_digits[of 2 n] by (simp add: numeral_2_eq_2)

lemma digits_no: "list_all is_digit s \<Longrightarrow> CHR ''-'' \<notin> set s \<and> CHR '':'' \<notin> set s"
proof -
  have "\<not> is_digit (CHR ''-'')" "\<not> is_digit (CHR '':'')"
    by code_simp+
  then show "list_all is_digit s \<Longrightarrow> CHR ''-'' \<notin> set s \<and> CHR '':'' \<notin> set s"
    by (auto simp: list_all_iff)
qed

lemma pad_no: "CHR ''-'' \<notin> set (pad k n)" "CHR '':'' \<notin> set (pad k n)"
  using digits_no[OF pad_digits[of k n]] by simp_all

lemma cut_absent: "c \<notin> set s \<Longrightarrow> cut c s = (s, [], False)"
  by (induction s) auto

lemma cut_at: "c \<notin> set s \<Longrightarrow> cut c (s @ c # t) = (s, t, True)"
  by (induction s) auto

lemma wrap64_id: "- (2 ^ 63) \<le> n \<Longrightarrow> n < 2 ^ 63 \<Longrightarrow> wrap64 n = n"
  by (simp add: wrap64_def)

text \<open>The elapsed time that \<open>ps\<close> prints is read back exactly, for any process that has run for less than 292
  years, with white space around it or not and whatever fields are left out.\<close>

theorem ps_elapsed_read_back:
  assumes "0 \<le> s" "s * second < 2 ^ 63"
  shows "parse_elapsed (ps_elapsed s) = Inr (s * second)"
proof -
  define clock where "clock = (if s < 3600 then [] else pad 2 (s div 3600 mod 24) @ '':'') @
         pad 2 (s div 60 mod 60) @ '':'' @ pad 2 (s mod 60)"
  have r: "0 \<le> s div 60 mod 60" "s div 60 mod 60 < 60" "0 \<le> s mod 60" "s mod 60 < 60" "0 \<le> s div 3600 mod 24" "s div 3600 mod 24 < 24"
    by simp_all
  have p: "parse_count (pad 2 (s div 60 mod 60)) = Some (s div 60 mod 60)" "parse_count (pad 2 (s mod 60)) = Some (s mod 60)"
    "parse_count (pad 2 (s div 3600 mod 24)) = Some (s div 3600 mod 24)"
    using r by (simp_all add: parse_pad)
  have split: "split_on (CHR '':'') clock = (if s < 3600 then [] else [pad 2 (s div 3600 mod 24)]) @ [pad 2 (s div 60 mod 60), pad 2 (s mod 60)]"
    by (simp add: clock_def split_on_sep split_on_word pad_no)
  have n: "\<not> 60 \<le> s div 60 mod 60" "\<not> 60 \<le> s mod 60"
    by (simp_all add: not_le)
  have s: "clock_seconds (split_on (CHR '':'') clock) = Some (s mod 86400)"
  proof (cases "s < 3600")
    case True
    then have "s mod 86400 = 60 * (s div 60 mod 60) + s mod 60"
      using assms(1) by simp
    then show ?thesis
      using True n by (simp only: split clock_seconds_def p) (simp add: p)
  next
    case False
    have "s mod 86400 = 3600 * (s div 3600 mod 24) + 60 * (s div 60 mod 60) + s mod 60"
      using zmod_zmult2_eq[of 24 s 3600] zmod_zmult2_eq[of 60 s 60] by simp
    moreover have "clock_seconds (split_on (CHR '':'') clock) = Some (3600 * (s div 3600 mod 24) + 60 * (s div 60 mod 60) + s mod 60)"
      unfolding split using False n by (simp add: clock_seconds_def p)
    ultimately show ?thesis by (simp only:)
  qed
  have no: "CHR ''-'' \<notin> set clock" "clock \<noteq> []"
    by (simp_all add: clock_def pad_no)
  have total: "86400 * (s div 86400) + s mod 86400 = s"
    by simp
  show ?thesis
  proof (cases "s div 86400 = 0")
    case True
    then have "ps_elapsed s = clock" "s mod 86400 = s"
      using total by (simp_all add: ps_elapsed_def clock_def Let_def)
    then have "parse_elapsed (ps_elapsed s) = Inr (wrap64 (s * second))"
      using no s by (simp add: parse_elapsed_def cut_absent)
    then show ?thesis
      using assms wrap64_id[of "s * second"] by simp
  next
    case False
    then have d: "0 \<le> s div 86400" "s div 86400 < 2 ^ 63"
      using assms by linarith+
    have f: "parse_count (format_int (s div 86400)) = Some (s div 86400)"
      using d parse_int64_format[of "s div 86400"] by (simp add: parse_count_def)
    have "CHR ''-'' \<notin> set (format_int (s div 86400))"
      using d(1) dec_digits_correct[OF d(1)] digits_no by (simp add: format_int_def all_digits_def)
    then have "cut (CHR ''-'') (ps_elapsed s) = (format_int (s div 86400), clock, True)"
      using False by (simp add: ps_elapsed_def clock_def Let_def cut_at)
    moreover have "ps_elapsed s \<noteq> []"
      using no(2) by (simp add: ps_elapsed_def clock_def Let_def)
    ultimately have "parse_elapsed (ps_elapsed s) = Inr (wrap64 ((86400 * (s div 86400) + s mod 86400) * second))"
      using s f by (simp only: parse_elapsed_def Let_def prod.case if_False if_True option.case)
    then show ?thesis
      using assms wrap64_id[of "s * second"] unfolding total by simp
  qed
qed

theorem ps_elapsed_read_back_witness: "parse_elapsed (ps_elapsed 93784) = Inr (93784 * second)"
  by (rule ps_elapsed_read_back) simp_all

section \<open>A host whose Codex was updated\<close>

definition sample_runner :: runner where
  "sample_runner = \<lparr>rn_output = (\<lambda>name arguments. if name = ''systemctl'' then Some (''42'' @ [CHR 10]) else Some (''   00:30'' @ [CHR 10])), rn_run = (\<lambda>_ _. True)\<rparr>"

lemma sample_inspection:
  "configured_binary sample_home ''/h'' = Inr ''/opt/my $codex/codex''"
  "resolved_binary_changed_at sample_home ''/opt/my $codex/codex'' = Inr (at_time 100)"
  "service_pid ''linux'' 1000 sample_runner = Inr 42" "process_elapsed 42 sample_runner = Inr (30 * second)"
proof -
  have "join_path [join_path [''/h'', ''.codex''], currentConfigName] = ''/h/.codex/novascale-codex-host.env''"
    by code_simp
  moreover have "binary_from_config sample_home ''/h/.codex/novascale-codex-host.env'' = Inr ''/opt/my $codex/codex''"
    using setup_config_binary[OF sample_values_ok(1-3)] by (simp add: binary_from_config_def sample_home_def sample_values_ok(4))
  ultimately show "configured_binary sample_home ''/h'' = Inr ''/opt/my $codex/codex''"
    by (simp add: configured_binary_def)
  have paths: "clean_path ''/opt/my $codex/codex'' = ''/opt/my $codex/codex''" "is_abs ''../codex-2'' = False"
    "clean_path (join_path [dir_path ''/opt/my $codex/codex'', ''../codex-2'']) = ''/opt/codex-2''"
    "after (at_time 90) zero_time" "after (at_time 100) (at_time 90)"
    by code_simp+
  have "link_chain sample_home ''/opt/codex-2'' [at_time 100]"
    by (rule link_chain.regular) (simp add: sample_home_def)
  then have "link_chain sample_home ''/opt/my $codex/codex'' [at_time 90, at_time 100]"
    using paths link_chain.via[where disk = sample_home and p = "''/opt/my $codex/codex''" and target = "''../codex-2''" and t = "at_time 90"]
    by (simp add: sample_home_def)
  then show "resolved_binary_changed_at sample_home ''/opt/my $codex/codex'' = Inr (at_time 100)"
    using paths(1,4,5) unfolding resolved_binary_changed_at_def changed_at_chain
    by (intro exI[of _ "[at_time 90, at_time 100]"]) (simp add: latest_def maxSymlinkDepth_def)
  show "service_pid ''linux'' 1000 sample_runner = Inr 42" "process_elapsed 42 sample_runner = Inr (30 * second)"
    by code_simp+
qed

theorem restart_only_when_changed_witness:
  "snd (restart_if_updated False False sample_home ''/h'' ''linux'' 1000 (at_time 120) sample_runner) =
     [(''systemctl'', [''--user'', ''restart'', serviceFile])] \<and>
   fst (restart_if_updated False False sample_home ''/h'' ''linux'' 1000 (at_time 120) sample_runner) = Inr True"
proof -
  have "inspect_update False sample_home ''/h'' ''linux'' 1000 (at_time 120) sample_runner = Inr UpdateRestartRequired"
  proof -
    have "trim_space ''/h'' \<noteq> []" "nanos (at_time 120) + wrap64 (- (30 * second)) + mtimeTolerance < nanos (at_time 100)"
      by code_simp+
    then show ?thesis
      using sample_inspection by (auto simp: inspect_update_cases)
  qed
  then have "fst (restart_if_updated False False sample_home ''/h'' ''linux'' 1000 (at_time 120) sample_runner) = Inr True"
    by (simp add: restart_if_updated_def restart_def restart_command_def sample_runner_def)
  then show ?thesis
    using restart_only_when_changed[of False False sample_home "''/h''" "''linux''" 1000 "at_time 120" sample_runner]
    by (auto simp: restart_command_def split: if_splits)
qed

end
