(* ===== verification/Enrollment_Loop.thy ===== *)
theory Enrollment_Loop
  imports Enrollment_Samples
begin

text \<open>
  \<open>enrollmentLoop\<close> and \<open>waitForEnrollment\<close> of \<open>internal/agent/enrollment.go\<close> from the start to the cancellation: the
  turns of \<open>Enrollment\<close> with the waits between them, and how often the loop can ask the backend.
\<close>

text \<open>What happens before and in one turn: whether the context is cancelled, whether the timer fires before that, what
  other processes made of the files meanwhile, and the surroundings of the turn itself.\<close>

record loop_turn =
  tn_cancelled :: bool
  tn_timer_first :: bool
  tn_files :: "file_system option"
  tn_input :: enrollment_input

definition wait_for_enrollment :: "bool \<Rightarrow> bool \<Rightarrow> int \<Rightarrow> bool" where
  "wait_for_enrollment cancelled timer_first delay =
     (if delay \<le> 0 then \<not> cancelled else timer_first \<or> \<not> cancelled)"

definition edit_files :: "file_system option \<Rightarrow> host_state \<times> loop_state \<Rightarrow> host_state \<times> loop_state" where
  "edit_files files sl = (case files of None \<Rightarrow> sl | Some fs \<Rightarrow> ((fst sl)\<lparr>hs_files := fs\<rparr>, snd sl))"

text \<open>The final state, the requests and the time spent in timers.\<close>

fun enrollment_loop ::
  "enrollment_env \<Rightarrow> loop_turn list \<Rightarrow> host_state \<times> loop_state \<Rightarrow> (host_state \<times> loop_state) \<times> http_request list \<times> int" where
  "enrollment_loop en [] sl = (sl, [], 0)"
| "enrollment_loop en (t # ts) sl =
     (if \<not> wait_for_enrollment (tn_cancelled t) (tn_timer_first t) (lp_delay (snd sl)) then (sl, [], 0)
      else case enrollment_iteration en (tn_input t) (edit_files (tn_files t) sl) of
          (sl', requests) \<Rightarrow>
            (case enrollment_loop en ts sl' of
               (sl'', rest, waited) \<Rightarrow> (sl'', requests @ rest, max 0 (lp_delay (snd sl)) + waited)))"

lemma edit_files_reachable: "reachable en d0 sl \<Longrightarrow> reachable en d0 (edit_files files sl)"
  by (cases sl) (auto simp: edit_files_def intro: reachable.disk split: option.splits)

lemma edit_files_loop [simp]: "snd (edit_files files sl) = snd sl"
  by (simp add: edit_files_def split: option.splits)

lemma enrollment_loop_reachable: "reachable en d0 sl \<Longrightarrow> reachable en d0 (fst (enrollment_loop en ts sl))"
proof (induction ts arbitrary: sl)
  case (Cons t ts)
  then show ?case
    using reachable.iterate[OF edit_files_reachable[OF Cons.prems], of "tn_input t" "tn_files t"]
    by (auto simp: case_prod_beta)
qed simp

text \<open>One turn asks at most twice, and waits after it has asked.\<close>

lemma attempt_requests: "attempt_enrollment en i s = (r, s', qs) \<Longrightarrow> length qs \<le> 2"
proof -
  assume a: "attempt_enrollment en i s = (r, s', qs)"
  have t: "length (snd (request_host_enrollment_token client sg endpoint host version now)) \<le> 1" for client sg endpoint host version now
    using token_request[of client sg endpoint host version now] by (metis prod.collapse)
  have g: "length (snd (register_host client sg endpoint token host version now)) \<le> 1" for client sg endpoint token host version now
    using register_request[of client sg endpoint token host version now] by (metis prod.collapse)
  have two: "length xs \<le> Suc 0 \<Longrightarrow> length ys \<le> Suc 0 \<Longrightarrow> length xs + length ys \<le> 2" for xs ys :: "http_request list"
    by simp
  have n: "request_host_enrollment_token client sg endpoint host version now = (x, xs) \<Longrightarrow> length xs \<le> Suc 0"
    "register_host client sg endpoint token host version now = (y, ys) \<Longrightarrow> length ys \<le> Suc 0"
    for client sg endpoint token host version now x xs y ys
    using t[of client sg endpoint host version now] g[of client sg endpoint token host version now] by simp_all
  show ?thesis
    using a by (auto simp: attempt_enrollment_def Let_def split: if_splits sum.splits prod.splits dest!: n intro: two)
qed

lemma iteration_requests:
  assumes "enrollment_iteration en i (s, l) = ((s', l'), qs)" "env_ok en" "loop_ok en l"
  shows "length qs \<le> 2" "qs \<noteq> [] \<Longrightarrow> min (en_min en) (en_poll en) \<le> lp_delay l'"
proof -
  have "length qs \<le> 2 \<and> (qs \<noteq> [] \<longrightarrow> min (en_min en) (en_poll en) \<le> lp_delay l')"
    using assms(1)
  proof (cases rule: iteration_cases)
    case (attempt s0 s1 r)
    then show ?thesis
      using attempt_requests[OF attempt(3)] assms(2,3) by (auto simp: retry_loop_def rest_loop_def loop_ok_def)
  qed simp_all
  then show "length qs \<le> 2" "qs \<noteq> [] \<Longrightarrow> min (en_min en) (en_poll en) \<le> lp_delay l'"
    by blast+
qed

lemma loop_rate:
  assumes "env_ok en" "loop_ok en (snd sl)"
    "enrollment_loop en ts sl = (sl', requests, waited)"
  shows "min (en_min en) (en_poll en) * int (length requests) \<le> 
      2 * (waited + max 0 (lp_delay (snd sl')) - max 0 (lp_delay (snd sl))) \<and> loop_ok en (snd sl')"
  using assms(2,3)
proof (induction ts arbitrary: sl requests waited)
  case (Cons t ts)
  let ?m = "min (en_min en) (en_poll en)"
  have m: "0 < ?m"
    using assms(1) by (simp add: env_ok_def)
  show ?case
  proof (cases "wait_for_enrollment (tn_cancelled t) (tn_timer_first t) (lp_delay (snd sl))")
    case False
    then show ?thesis
      using Cons.prems by simp
  next
    case True
    obtain s l where e: "edit_files (tn_files t) sl = (s, l)"
      by fastforce
    then have l: "l = snd sl"
      using edit_files_loop[of "tn_files t" sl] by simp
    obtain s1 l1 qs where i: "enrollment_iteration en (tn_input t) (s, l) = ((s1, l1), qs)"
      by (metis prod.collapse)
    obtain rest w where r: "enrollment_loop en ts (s1, l1) = (sl', rest, w)"
        "requests = qs @ rest" "waited = max 0 (lp_delay (snd sl)) + w"
      using Cons.prems(2) True e i by (auto split: prod.splits)
    have ok: "loop_ok en l1"
      using iteration_loop_ok[OF i assms(1)] Cons.prems(1) l by simp
    have q: "?m * int (length qs) \<le> 2 * max 0 (lp_delay l1)"
    proof (cases "qs = []")
      case False
      have "?m * int (length qs) \<le> ?m * 2"
        using iteration_requests(1)[OF i assms(1)] Cons.prems(1) l m by (intro mult_left_mono) simp_all
      also have "\<dots> \<le> 2 * max 0 (lp_delay l1)"
        using iteration_requests(2)[OF i assms(1) _ False] Cons.prems(1) l by simp
      finally show ?thesis .
    qed simp
    have IH: "?m * int (length rest) \<le> 2 * (w + max 0 (lp_delay (snd sl')) - max 0 (lp_delay l1)) \<and> loop_ok en (snd sl')"
      using Cons.IH[OF _ r(1)] ok by simp
    have "?m * int (length requests) = ?m * int (length qs) + ?m * int (length rest)"
      by (simp add: r(2) distrib_left)
    moreover have "?m * int (length rest) \<le> 2 * (w + max 0 (lp_delay (snd sl')) - max 0 (lp_delay l1))" "loop_ok en (snd sl')"
      using IH by blast+
    ultimately show ?thesis
      using q r(3) by (simp add: algebra_simps)
  qed
qed simp


text \<open>C22: The backend is not flooded: whatever it answers and however often the disk fails, the loop makes at most two
  requests for each of its shortest delays that it has waited or is about to wait, and it stays within the states of
  \<open>reachable\<close>, in which the identity of the host and the bounds of the queue are kept.\<close>

theorem enrollment_rate_bounded:
  assumes "env_ok en" "enrollment_loop en ts (\<lparr>hs_daemon = d0, hs_files = fs\<rparr>, initial_loop en) = (sl, requests, waited)"
  shows "min (en_min en) (en_poll en) * int (length requests) \<le> 2 * (waited + max (en_max en) (en_poll en)) \<and>
    reachable en d0 sl"
proof -
  have l: "loop_ok en (initial_loop en)" "lp_delay (initial_loop en) = 0"
    using assms(1) by (simp_all add: loop_ok_def env_ok_def initial_loop_def)
  have r: "min (en_min en) (en_poll en) * int (length requests) \<le> 2 * (waited + max 0 (lp_delay (snd sl)))" "loop_ok en (snd sl)"
    using loop_rate[OF assms(1) _ assms(2)] l by simp_all
  have "max 0 (lp_delay (snd sl)) \<le> max (en_max en) (en_poll en)"
    using r(2) assms(1) by (auto simp: loop_ok_def env_ok_def)
  moreover have "reachable en d0 (fst (enrollment_loop en ts (\<lparr>hs_daemon = d0, hs_files = fs\<rparr>, initial_loop en)))"
    by (intro enrollment_loop_reachable reachable.start)
  then have "reachable en d0 sl"
    by (simp only: assms(2) fst_conv)
  moreover have "2 * (waited + max 0 (lp_delay (snd sl))) \<le> 2 * (waited + max (en_max en) (en_poll en))"
    using calculation(1) by simp
  ultimately show ?thesis
    using r(1) by (auto intro: order_trans)
qed

text \<open>A cancelled context ends the loop: the first turn that finds it cancelled before its timer fires is the last.\<close>

lemma enrollment_loop_cancelled:
  "tn_cancelled t \<Longrightarrow> \<not> tn_timer_first t \<or> lp_delay (snd sl) \<le> 0 \<Longrightarrow> enrollment_loop en (t # ts) sl = (sl, [], 0)"
  by (auto simp: wait_for_enrollment_def)

definition pending_turn :: loop_turn where
  "pending_turn = \<lparr>tn_cancelled = False, tn_timer_first = True, tn_files = None, tn_input = sample_input True\<rparr>"

theorem enrollment_rate_bounded_witness:
  "second * int (length (fst (snd (enrollment_loop sample_enrollment [pending_turn, pending_turn]
     (host_with RegistrationPending, initial_loop sample_enrollment))))) \<le>
   2 * (snd (snd (enrollment_loop sample_enrollment [pending_turn, pending_turn] (host_with RegistrationPending, initial_loop sample_enrollment))) +
     60 * second)"
proof -
  let ?h = "host_with RegistrationPending"
  obtain sl requests waited where e: "enrollment_loop sample_enrollment [pending_turn, pending_turn]
      (\<lparr>hs_daemon = hs_daemon ?h, hs_files = hs_files ?h\<rparr>, initial_loop sample_enrollment) = (sl, requests, waited)"
    by (metis prod_cases3)
  have h: "\<lparr>hs_daemon = hs_daemon ?h, hs_files = hs_files ?h\<rparr> = ?h"
    by simp
  have "min (en_min sample_enrollment) (en_poll sample_enrollment) = second" "max (en_max sample_enrollment) (en_poll sample_enrollment) = 60 * second"
    by (simp_all add: sample_enrollment_def)
  then show ?thesis
    using enrollment_rate_bounded[OF sample_env_ok e] unfolding e[unfolded h] by simp
qed

end
