(* ===== verification/Fairness.thy ===== *)
theory Fairness
  imports Main
begin

text \<open>
  Infinite executions of a transition function, the two kinds of fairness of a scheduler, and the rules by which a
  step that fairness promises leads from one predicate to another.
\<close>

text \<open>\<open>step e s\<close> is the state after the event \<open>e\<close>, if \<open>e\<close> can happen. A state in which nothing can happen stays.\<close>

definition execution :: "('e \<Rightarrow> 's \<Rightarrow> 's option) \<Rightarrow> (nat \<Rightarrow> 's) \<Rightarrow> (nat \<Rightarrow> 'e) \<Rightarrow> bool" where
  "execution step \<sigma> es \<longleftrightarrow>
     (\<forall>n. step (es n) (\<sigma> n) = Some (\<sigma> (Suc n)) \<or> (\<forall>e. step e (\<sigma> n) = None) \<and> \<sigma> (Suc n) = \<sigma> n)"

definition happens :: "('e \<Rightarrow> 's \<Rightarrow> 's option) \<Rightarrow> (nat \<Rightarrow> 's) \<Rightarrow> (nat \<Rightarrow> 'e) \<Rightarrow> 'e \<Rightarrow> nat \<Rightarrow> bool" where
  "happens step \<sigma> es e n \<longleftrightarrow> es n = e \<and> step e (\<sigma> n) \<noteq> None"

text \<open>What stays possible happens; what is possible again and again happens.\<close>

definition weakly_fair :: "('e \<Rightarrow> 's \<Rightarrow> 's option) \<Rightarrow> (nat \<Rightarrow> 's) \<Rightarrow> (nat \<Rightarrow> 'e) \<Rightarrow> 'e \<Rightarrow> bool" where
  "weakly_fair step \<sigma> es e \<longleftrightarrow>
     (\<forall>n. (\<forall>m \<ge> n. step e (\<sigma> m) \<noteq> None) \<longrightarrow> (\<exists>m \<ge> n. happens step \<sigma> es e m))"

definition strongly_fair :: "('e \<Rightarrow> 's \<Rightarrow> 's option) \<Rightarrow> (nat \<Rightarrow> 's) \<Rightarrow> (nat \<Rightarrow> 'e) \<Rightarrow> 'e \<Rightarrow> bool" where
  "strongly_fair step \<sigma> es e \<longleftrightarrow>
     (\<forall>n. (\<forall>m \<ge> n. \<exists>k \<ge> m. step e (\<sigma> k) \<noteq> None) \<longrightarrow> (\<exists>m \<ge> n. happens step \<sigma> es e m))"

definition stable :: "('e \<Rightarrow> 's \<Rightarrow> 's option) \<Rightarrow> ('s \<Rightarrow> bool) \<Rightarrow> bool" where
  "stable step P \<longleftrightarrow> (\<forall>e s s'. step e s = Some s' \<longrightarrow> P s \<longrightarrow> P s')"

lemma stable_later:
  assumes "execution step \<sigma> es" "stable step P" "P (\<sigma> n)" "n \<le> m"
  shows "P (\<sigma> m)"
  using assms(4,3)
proof (induction m rule: dec_induct)
  case (step m)
  then show ?case
    using assms(1,2) by (metis execution_def stable_def)
qed simp

lemma happens_next: "execution step \<sigma> es \<Longrightarrow> happens step \<sigma> es e n \<Longrightarrow> step e (\<sigma> n) = Some (\<sigma> (Suc n))"
  unfolding execution_def happens_def by metis

text \<open>A stable state in which the event stays possible until the goal is reached, which the event reaches.\<close>

lemma weak_progress:
  assumes "execution step \<sigma> es" "weakly_fair step \<sigma> es e" "stable step P" "P (\<sigma> n)"
    "\<And>s. P s \<Longrightarrow> \<not> Q s \<Longrightarrow> step e s \<noteq> None" "\<And>s s'. P s \<Longrightarrow> step e s = Some s' \<Longrightarrow> Q s'"
  shows "\<exists>m \<ge> n. Q (\<sigma> m)"
proof (rule ccontr)
  assume "\<not> (\<exists>m \<ge> n. Q (\<sigma> m))"
  then have none: "\<not> Q (\<sigma> m)" if "n \<le> m" for m
    using that by blast
  note P = stable_later[OF assms(1,3,4)]
  obtain m where m: "n \<le> m" "happens step \<sigma> es e m"
    using assms(2,5) P none unfolding weakly_fair_def by meson
  have "Q (\<sigma> (Suc m))"
    using assms(6)[OF P[OF m(1)] happens_next[OF assms(1) m(2)]] .
  then show False
    using none m(1) by simp
qed

text \<open>With strong fairness it is enough that the event becomes possible again and again.\<close>

lemma strong_progress:
  assumes "execution step \<sigma> es" "strongly_fair step \<sigma> es e" "stable step P" "P (\<sigma> n)"
    "\<And>m. n \<le> m \<Longrightarrow> (\<And>k. n \<le> k \<Longrightarrow> \<not> Q (\<sigma> k)) \<Longrightarrow> \<exists>k \<ge> m. step e (\<sigma> k) \<noteq> None"
    "\<And>s s'. P s \<Longrightarrow> step e s = Some s' \<Longrightarrow> Q s'"
  shows "\<exists>m \<ge> n. Q (\<sigma> m)"
proof (rule ccontr)
  assume "\<not> (\<exists>m \<ge> n. Q (\<sigma> m))"
  then have none: "\<not> Q (\<sigma> m)" if "n \<le> m" for m
    using that by blast
  obtain m where m: "n \<le> m" "happens step \<sigma> es e m"
    using assms(2,5) none unfolding strongly_fair_def by meson
  have "Q (\<sigma> (Suc m))"
    using assms(6)[OF stable_later[OF assms(1,3,4) m(1)] happens_next[OF assms(1) m(2)]] .
  then show False
    using none m(1) by simp
qed

text \<open>An execution that comes to rest stays there, and is fair to every event.\<close>

lemma execution_Cons:
  assumes "execution step \<sigma> es" "step e s = Some (\<sigma> 0)"
  shows "execution step (case_nat s \<sigma>) (case_nat e es)"
  unfolding execution_def
proof
  fix n
  show "step (case_nat e es n) (case_nat s \<sigma> n) = Some (case_nat s \<sigma> (Suc n)) \<or>
      (\<forall>e. step e (case_nat s \<sigma> n) = None) \<and> case_nat s \<sigma> (Suc n) = case_nat s \<sigma> n"
    using assms by (cases n) (simp_all add: execution_def)
qed

lemma execution_rests:
  assumes "execution step \<sigma> es" "\<And>e. step e (\<sigma> n) = None" "n \<le> m"
  shows "\<sigma> m = \<sigma> n"
  using assms(3)
proof (induction m rule: dec_induct)
  case (step m)
  then have none: "step (es m) (\<sigma> m) = None"
    using assms(2) by simp
  have "step (es m) (\<sigma> m) = Some (\<sigma> (Suc m)) \<or> (\<forall>e. step e (\<sigma> m) = None) \<and> \<sigma> (Suc m) = \<sigma> m"
    using assms(1) unfolding execution_def by blast
  then show ?case
    using none step.IH by simp
qed simp

lemma rest_fair:
  assumes "execution step \<sigma> es" "\<And>e. step e (\<sigma> n) = None"
  shows "weakly_fair step \<sigma> es e" "strongly_fair step \<sigma> es e"
proof -
  note same = execution_rests[OF assms]
  have quiet: "step e (\<sigma> m) = None" if "n \<le> m" for m e
    unfolding same[OF that] by (rule assms(2))
  show "weakly_fair step \<sigma> es e"
    unfolding weakly_fair_def
  proof (intro allI impI)
    fix k assume "\<forall>m \<ge> k. step e (\<sigma> m) \<noteq> None"
    then have "step e (\<sigma> (max k n)) \<noteq> None"
      by simp
    then show "\<exists>m \<ge> k. happens step \<sigma> es e m"
      using quiet[of "max k n" e] by simp
  qed
  show "strongly_fair step \<sigma> es e"
    unfolding strongly_fair_def
  proof (intro allI impI)
    fix k assume often: "\<forall>m \<ge> k. \<exists>j \<ge> m. step e (\<sigma> j) \<noteq> None"
    have "\<exists>j \<ge> max k n. step e (\<sigma> j) \<noteq> None"
      by (rule often[rule_format]) simp
    then obtain j where "max k n \<le> j" "step e (\<sigma> j) \<noteq> None"
      by blast
    then show "\<exists>m \<ge> k. happens step \<sigma> es e m"
      using quiet[of j e] by simp
  qed
qed

end
