(* ===== verification/Serving.thy ===== *)
theory Serving
  imports Agent_Properties Enrollment_Loop Fairness
begin

text \<open>
  \<open>Daemon.Run\<close> of \<open>internal/agent/daemon.go\<close> from its start to its return: the accept loop with its 64 slots for
  connections, the three workers, the goroutine that closes the listener, the cancellation and the deferred waits.
  A worker is in a round of its loop or at the \<open>select\<close> between two rounds; its steps are those of \<open>Agent_System\<close>. An
  execution is a sequence of events in the order in which the scheduler, the clients and the operating system make
  them happen.
\<close>

section \<open>The state of \<open>Run\<close>\<close>

datatype worker = Uploader | Enroller | Capturer

definition all_workers :: "worker list" where
  "all_workers = [Uploader, Enroller, Capturer]"

text \<open>A connection that holds a slot of the channel \<open>connections\<close>: what \<open>verifyPeer\<close> will say and what the client sends.\<close>

record connection =
  co_peer_ok :: bool
  co_input :: string

definition max_connections :: nat where "max_connections = 64"

text \<open>\<open>sv_busy\<close> are the workers inside a round. \<open>sv_result\<close> is what the accept loop returned; \<open>Run\<close> itself returns that
  value once the deferred \<open>workers.Wait\<close> is over.\<close>

record serving =
  sv_system :: agent_system
  sv_open :: "connection list"
  sv_running :: "worker list"
  sv_busy :: "worker list"
  sv_cancelled :: bool
  sv_listening :: bool
  sv_result :: "unit result option"

definition returned :: "serving \<Rightarrow> bool" where
  "returned s \<longleftrightarrow> sv_result s \<noteq> None \<and> sv_running s = []"

text \<open>Everything before the accept loop: the backend of the queue, the channel of signals, the socket and the workers.
  \<open>entry\<close> is what \<open>lstat\<close> found at the path of the socket. \<open>uploadLoop\<close> and \<open>herdrLoop\<close> start with a round, \<open>enrollmentLoop\<close>
  with a wait.\<close>

definition run_start ::
  "enrollment_env \<Rightarrow> config \<Rightarrow> string \<Rightarrow> path_entry \<Rightarrow> file_system \<Rightarrow> queue \<Rightarrow> serving result" where
  "run_start en c version entry fs q =
     (case start_daemon c version q of
        Inl e \<Rightarrow> Inl e
      | Inr d \<Rightarrow>
          (case listen_ipc entry of
             Inl e \<Rightarrow> Inl e
           | Inr _ \<Rightarrow>
               Inr \<lparr>sv_system = \<lparr>sy_host = \<lparr>hs_daemon = d, hs_files = fs\<rparr>, sy_loop = initial_loop en, sy_dirty = []\<rparr>,
                 sv_open = [], sv_running = all_workers, sv_busy = [Uploader, Capturer],
                 sv_cancelled = False, sv_listening = True, sv_result = None\<rparr>))"

section \<open>Events\<close>

text \<open>The worker that performs an action; the actions of other processes have none. Connections are handled
  by the event \<open>Handle\<close>.\<close>

fun worker_of :: "agent_action \<Rightarrow> worker option" where
  "worker_of (UploadOne v) = Some Uploader"
| "worker_of Woken = Some Uploader"
| "worker_of (Enroll i) = Some Enroller"
| "worker_of ReceiveSignal = Some Capturer"
| "worker_of (DrainSignal su key) = Some Capturer"
| "worker_of (Baseline su e) = Some Capturer"
| "worker_of _ = None"

fun is_client :: "agent_action \<Rightarrow> bool" where
  "is_client (Client uuid now peer_ok input) = True"
| "is_client _ = False"

datatype serve_event =
  Accept connection
| AcceptFails go_error
| AcceptClosed
| Handle nat "string result" gotime
| RoundStarts worker
| Work agent_action
| RoundEnds worker
| Cancel
| CloseListener
| WorkerEnds worker

text \<open>The actions of \<open>Agent_System\<close> behind an event.\<close>

fun event_actions :: "serving \<Rightarrow> serve_event \<Rightarrow> agent_action list" where
  "event_actions s (Handle k uuid now) = [Client uuid now (co_peer_ok (sv_open s ! k)) (co_input (sv_open s ! k))]"
| "event_actions s (Work a) = [a]"
| "event_actions s _ = []"

text \<open>The cases of a \<open>select\<close> that are actions of their own: \<open>d.wake\<close>, with which a round begins, and \<open>d.herdrDirty\<close>.\<close>

fun at_select :: "agent_action \<Rightarrow> bool" where
  "at_select Woken = True"
| "at_select ReceiveSignal = True"
| "at_select _ = False"

text \<open>
  When an event can happen. \<open>Accept\<close> returns a connection or an error of the system as long as the listener is open,
  and \<open>net.ErrClosed\<close> once it is closed; the goroutine that waits for the cancellation closes it. A round starts
  when a ticker or a timer fires, which \<open>waitForEnrollment\<close> does not wait for when there is no delay. A worker returns
  after the cancellation at its \<open>select\<close>, and \<open>herdrLoop\<close> also inside a round.
\<close>

fun enabled :: "serving \<Rightarrow> serve_event \<Rightarrow> bool" where
  "enabled s (Accept c) \<longleftrightarrow> sv_result s = None \<and> sv_listening s"
| "enabled s (AcceptFails e) \<longleftrightarrow> sv_result s = None \<and> sv_listening s"
| "enabled s AcceptClosed \<longleftrightarrow> sv_result s = None \<and> \<not> sv_listening s"
| "enabled s (Handle k uuid now) \<longleftrightarrow> k < length (sv_open s)"
| "enabled s (RoundStarts w) \<longleftrightarrow> w \<in> set (sv_running s) \<and> w \<notin> set (sv_busy s) \<and>
     (w = Enroller \<longrightarrow> wait_for_enrollment (sv_cancelled s) True (lp_delay (sy_loop (sv_system s))))"
| "enabled s (Work a) \<longleftrightarrow> \<not> is_client a \<and>
     (case worker_of a of None \<Rightarrow> True | Some w \<Rightarrow> w \<in> set (sv_running s) \<and> (w \<in> set (sv_busy s) \<longleftrightarrow> \<not> at_select a))"
| "enabled s (RoundEnds w) \<longleftrightarrow> w \<in> set (sv_running s) \<and> w \<in> set (sv_busy s)"
| "enabled s Cancel \<longleftrightarrow> True"
| "enabled s CloseListener \<longleftrightarrow> sv_cancelled s \<and> sv_listening s"
| "enabled s (WorkerEnds w) \<longleftrightarrow> sv_cancelled s \<and> w \<in> set (sv_running s) \<and> (w \<notin> set (sv_busy s) \<or> w = Capturer)"

text \<open>What an event does. A connection that finds no slot is closed at once. After an error of \<open>Accept\<close> the loop returns
  \<open>nil\<close> if the context is done, else the error.\<close>

definition accept_error :: "go_error \<Rightarrow> serving \<Rightarrow> serving" where
  "accept_error e s = s\<lparr>sv_result := Some (if sv_cancelled s then Inr () else Inl e)\<rparr>"

definition net_closed :: go_error where
  "net_closed = ErrMsg ''use of closed network connection''"

definition work_effect :: "agent_action \<Rightarrow> serving \<Rightarrow> serving" where
  "work_effect a s = (case a of Woken \<Rightarrow> s\<lparr>sv_busy := Uploader # sv_busy s\<rparr> | _ \<Rightarrow> s)"

definition without :: "worker \<Rightarrow> worker list \<Rightarrow> worker list" where
  "without w ws = filter (\<lambda>v. v \<noteq> w) ws"

fun serve_effect :: "serve_event \<Rightarrow> serving \<Rightarrow> serving" where
  "serve_effect (Accept c) s = (if length (sv_open s) < max_connections then s\<lparr>sv_open := sv_open s @ [c]\<rparr> else s)"
| "serve_effect (AcceptFails e) s = accept_error e s"
| "serve_effect AcceptClosed s = accept_error net_closed s"
| "serve_effect (Handle k uuid now) s = s\<lparr>sv_open := take k (sv_open s) @ drop (Suc k) (sv_open s)\<rparr>"
| "serve_effect (RoundStarts w) s = s\<lparr>sv_busy := w # sv_busy s\<rparr>"
| "serve_effect (Work a) s = work_effect a s"
| "serve_effect (RoundEnds w) s = s\<lparr>sv_busy := without w (sv_busy s)\<rparr>"
| "serve_effect Cancel s = s\<lparr>sv_cancelled := True\<rparr>"
| "serve_effect CloseListener s = s\<lparr>sv_listening := False\<rparr>"
| "serve_effect (WorkerEnds w) s = s\<lparr>sv_running := without w (sv_running s), sv_busy := without w (sv_busy s)\<rparr>"

definition serve_do ::
  "environment \<Rightarrow> enrollment_env \<Rightarrow> (string \<Rightarrow> string) \<Rightarrow> serve_event \<Rightarrow> serving \<Rightarrow> (serving \<times> http_request list) option" where
  "serve_do env en sha256_hex ev s =
     (if returned s \<or> \<not> enabled s ev then None
      else case agent_run env en sha256_hex (event_actions s ev) (sv_system s) of
        (system, requests) \<Rightarrow> Some ((serve_effect ev s)\<lparr>sv_system := system\<rparr>, requests))"

fun serve_run ::
  "environment \<Rightarrow> enrollment_env \<Rightarrow> (string \<Rightarrow> string) \<Rightarrow> serve_event list \<Rightarrow> serving \<Rightarrow> (serving \<times> http_request list) option" where
  "serve_run env en sha256_hex [] s = Some (s, [])"
| "serve_run env en sha256_hex (ev # evs) s =
     (case serve_do env en sha256_hex ev s of
        None \<Rightarrow> None
      | Some (s', requests) \<Rightarrow>
          (case serve_run env en sha256_hex evs s' of
             None \<Rightarrow> None
           | Some (s'', rest) \<Rightarrow> Some (s'', requests @ rest)))"

text \<open>The states \<open>Run\<close> can reach when the surroundings behave.\<close>

fun event_ok :: "serve_event \<Rightarrow> bool" where
  "event_ok (Work a) = action_ok a"
| "event_ok _ = True"

inductive serving_reachable ::
  "environment \<Rightarrow> enrollment_env \<Rightarrow> (string \<Rightarrow> string) \<Rightarrow> serving \<Rightarrow> serving \<Rightarrow> bool"
  for env en sha256_hex s0 where
  reach_start: "serving_reachable env en sha256_hex s0 s0"
| reach_step: "serving_reachable env en sha256_hex s0 s'"
    if "serving_reachable env en sha256_hex s0 s" "event_ok ev" "serve_do env en sha256_hex ev s = Some (s', requests)"


section \<open>One event\<close>

lemma serve_do_some:
  assumes "serve_do env en sha256_hex ev s = Some (s', requests)"
  shows "\<not> returned s" "enabled s ev" "agent_run env en sha256_hex (event_actions s ev) (sv_system s) = (sv_system s', requests)"
    "s' = (serve_effect ev s)\<lparr>sv_system := sv_system s'\<rparr>"
  using assms by (auto simp: serve_do_def split: if_splits prod.splits)

lemma accept_error_simps [simp]:
  "sv_system (accept_error e s) = sv_system s" "sv_open (accept_error e s) = sv_open s" "sv_running (accept_error e s) = sv_running s"
  "sv_busy (accept_error e s) = sv_busy s" "sv_cancelled (accept_error e s) = sv_cancelled s"
  "sv_listening (accept_error e s) = sv_listening s" "sv_result (accept_error e s) = Some (if sv_cancelled s then Inr () else Inl e)"
  by (simp_all add: accept_error_def)

lemma work_effect_simps [simp]:
  "sv_system (work_effect a s) = sv_system s" "sv_open (work_effect a s) = sv_open s" "sv_running (work_effect a s) = sv_running s"
  "sv_cancelled (work_effect a s) = sv_cancelled s" "sv_listening (work_effect a s) = sv_listening s"
  "sv_result (work_effect a s) = sv_result s"
  by (simp_all add: work_effect_def split: agent_action.splits)

lemma effect_system [simp]: "sv_system (serve_effect ev s) = sv_system s"
  by (cases ev) simp_all

lemma serve_do_fields:
  assumes "serve_do env en sha256_hex ev s = Some (s', requests)"
  shows "sv_open s' = sv_open (serve_effect ev s)" "sv_running s' = sv_running (serve_effect ev s)"
    "sv_busy s' = sv_busy (serve_effect ev s)"
    "sv_cancelled s' = sv_cancelled (serve_effect ev s)" "sv_listening s' = sv_listening (serve_effect ev s)"
    "sv_result s' = sv_result (serve_effect ev s)"
  by (subst serve_do_some(4)[OF assms], simp)+

lemma event_actions_ok: "event_ok ev \<Longrightarrow> list_all action_ok (event_actions s ev)"
  by (cases ev) simp_all

section \<open>The invariant\<close>

definition serving_inv :: "(string \<Rightarrow> string) \<Rightarrow> serving \<Rightarrow> bool" where
  "serving_inv sha256_hex s \<longleftrightarrow>
     system_inv sha256_hex (sv_system s) \<and> length (sv_open s) \<le> max_connections \<and> distinct (sv_running s) \<and>
     (\<not> sv_cancelled s \<longrightarrow> sv_running s = all_workers \<and> sv_listening s \<and> sv_result s \<noteq> Some (Inr ()))"

definition stored_ok :: "(string \<Rightarrow> string) \<Rightarrow> queue \<Rightarrow> bool" where
  "stored_ok sha256_hex q \<longleftrightarrow> queue_ok q \<and> bindings_ok sha256_hex (q_bindings q) \<and> rows_valid q"

lemma run_start_inv:
  assumes "run_start en c version entry fs q = Inr s" "stored_ok sha256_hex q"
  shows "serving_inv sha256_hex s"
proof -
  obtain q' where q': "configure_backend endpoint_text (cf_endpoint c) q = Inr q'"
    and s: "sv_system s = \<lparr>sy_host = \<lparr>hs_daemon = \<lparr>dm_config = c, dm_version = version, dm_queue = q', dm_dirty = [], dm_wake = False\<rparr>,
        hs_files = fs\<rparr>, sy_loop = initial_loop en, sy_dirty = []\<rparr>" "sv_open s = []" "sv_running s = all_workers"
      "\<not> sv_cancelled s" "sv_listening s" "sv_result s = None"
    using assms(1) by (auto simp: run_start_def start_daemon_def split: sum.splits)
  have same: "same_rows q q'"
    by (rule configure_same_rows[OF q'])
  have "queue_ok q'" "rows_valid q'" "bindings_ok sha256_hex (q_bindings q')"
    using configure_queue_ok[OF q'] rows_valid_same[OF same] same assms(2) by (simp_all add: stored_ok_def same_rows_def)
  then show ?thesis
    using s by (simp add: serving_inv_def system_inv_def loop_inv_def loop_of_def capture_inv_def daemon_ok_def all_workers_def)
qed

lemma serve_do_inv:
  assumes "serve_do env en sha256_hex ev s = Some (s', requests)" "event_ok ev" "serving_inv sha256_hex s"
  shows "serving_inv sha256_hex s'"
proof -
  note d = serve_do_some[OF assms(1)] and f = serve_do_fields[OF assms(1)]
  have "system_inv sha256_hex (sv_system s')"
    using agent_run_inv[of sha256_hex "sv_system s", OF _ event_actions_ok[OF assms(2)], of env en s] d(3) assms(3)
    by (simp add: serving_inv_def)
  then show ?thesis
    using assms(3) d(2) unfolding serving_inv_def f by (cases ev) (auto simp: without_def)
qed

section \<open>Executions\<close>

text \<open>The actions of the workers in an execution.\<close>

fun run_actions ::
  "environment \<Rightarrow> enrollment_env \<Rightarrow> (string \<Rightarrow> string) \<Rightarrow> serve_event list \<Rightarrow> serving \<Rightarrow> agent_action list" where
  "run_actions env en sha256_hex [] s = []"
| "run_actions env en sha256_hex (ev # evs) s =
     (case serve_do env en sha256_hex ev s of
        None \<Rightarrow> []
      | Some (s', requests) \<Rightarrow> event_actions s ev @ run_actions env en sha256_hex evs s')"

lemma agent_run_append:
  "agent_run env en sha256_hex (as @ bs) s =
     (case agent_run env en sha256_hex as s of (s', requests) \<Rightarrow>
        (case agent_run env en sha256_hex bs s' of (s'', rest) \<Rightarrow> (s'', requests @ rest)))"
  by (induction as arbitrary: s) (auto simp: agent_run.simps split: prod.splits)

lemma serve_run_Cons:
  assumes "serve_run env en sha256_hex (ev # evs) s = Some (s'', requests)"
  obtains s' first rest where "serve_do env en sha256_hex ev s = Some (s', first)"
    "serve_run env en sha256_hex evs s' = Some (s'', rest)" "requests = first @ rest"
  using assms by (auto split: option.splits)

lemma reachable_inv:
  "serving_reachable env en sha256_hex s0 s \<Longrightarrow> serving_inv sha256_hex s0 \<Longrightarrow> serving_inv sha256_hex s"
  by (induction rule: serving_reachable.induct) (auto intro: serve_do_inv)

lemma serve_run_inv:
  assumes "serve_run env en sha256_hex evs s = Some (s', requests)" "list_all event_ok evs" "serving_inv sha256_hex s"
  shows "serving_inv sha256_hex s'"
  using assms
proof (induction evs arbitrary: s requests)
  case (Cons ev evs)
  obtain s1 first rest where "serve_do env en sha256_hex ev s = Some (s1, first)" "serve_run env en sha256_hex evs s1 = Some (s', rest)"
    by (rule serve_run_Cons[OF Cons.prems(1)])
  then show ?case
    using Cons.IH Cons.prems(2,3) serve_do_inv by simp
qed simp

lemma serve_run_actions:
  "serve_run env en sha256_hex evs s = Some (s', requests) \<Longrightarrow>
     agent_run env en sha256_hex (run_actions env en sha256_hex evs s) (sv_system s) = (sv_system s', requests)"
proof (induction evs arbitrary: s requests)
  case (Cons ev evs)
  obtain s1 first rest where s1: "serve_do env en sha256_hex ev s = Some (s1, first)"
      "serve_run env en sha256_hex evs s1 = Some (s', rest)" "requests = first @ rest"
    by (rule serve_run_Cons[OF Cons.prems])
  then show ?case
    using Cons.IH[OF s1(2)] serve_do_some(3)[OF s1(1)] by (simp add: agent_run_append)
qed simp

text \<open>What an execution never takes back.\<close>

lemma serve_do_keeps:
  assumes "serve_do env en sha256_hex ev s = Some (s', requests)"
  shows "sv_cancelled s \<Longrightarrow> sv_cancelled s'" "\<not> sv_cancelled s \<Longrightarrow> ev \<noteq> Cancel \<Longrightarrow> \<not> sv_cancelled s' \<and> sv_running s' = sv_running s"
    "sv_result s = Some r \<Longrightarrow> sv_result s' = Some r \<and> (\<forall>c. ev \<noteq> Accept c) \<and> set (sv_open s') \<subseteq> set (sv_open s)"
proof -
  note f = serve_do_fields[OF assms] and e = serve_do_some(2)[OF assms]
  show "sv_cancelled s \<Longrightarrow> sv_cancelled s'"
    unfolding f by (cases ev) simp_all
  show "\<not> sv_cancelled s \<Longrightarrow> ev \<noteq> Cancel \<Longrightarrow> \<not> sv_cancelled s' \<and> sv_running s' = sv_running s"
    using e unfolding f by (cases ev) simp_all
  show "sv_result s = Some r \<Longrightarrow> sv_result s' = Some r \<and> (\<forall>c. ev \<noteq> Accept c) \<and> set (sv_open s') \<subseteq> set (sv_open s)"
    using e unfolding f by (cases ev) (auto dest: in_set_takeD in_set_dropD)
qed

section \<open>After the cancellation\<close>

definition serve_step ::
  "environment \<Rightarrow> enrollment_env \<Rightarrow> (string \<Rightarrow> string) \<Rightarrow> serve_event \<Rightarrow> serving \<Rightarrow> serving option" where
  "serve_step env en sha256_hex ev s = map_option fst (serve_do env en sha256_hex ev s)"

text \<open>What is asked of the scheduler: the closing goroutine and the accept loop get their turns, every round of a worker
  ends, and a \<open>select\<close> does not pass over a context that is done for ever. Nothing is asked of the clients, the
  system or the backend.\<close>

definition fair_scheduler ::
  "environment \<Rightarrow> enrollment_env \<Rightarrow> (string \<Rightarrow> string) \<Rightarrow> (nat \<Rightarrow> serving) \<Rightarrow> (nat \<Rightarrow> serve_event) \<Rightarrow> bool" where
  "fair_scheduler env en sha256_hex \<sigma> es \<longleftrightarrow>
     (let fair = weakly_fair (serve_step env en sha256_hex) \<sigma> es
      in fair CloseListener \<and> fair AcceptClosed \<and> (\<forall>w. fair (RoundEnds w)) \<and>
         (\<forall>w. strongly_fair (serve_step env en sha256_hex) \<sigma> es (WorkerEnds w)))"

lemma serve_step_some:
  assumes "serve_step env en sha256_hex ev s = Some s'"
  obtains requests where "serve_do env en sha256_hex ev s = Some (s', requests)"
  using assms by (auto simp: serve_step_def)

lemma serve_step_possible: "serve_step env en sha256_hex ev s \<noteq> None \<longleftrightarrow> \<not> returned s \<and> enabled s ev"
  by (auto simp: serve_step_def serve_do_def split: prod.splits)

lemmas step_fields = serve_do_fields serve_do_some(1,2)

definition ends_ok :: "serving \<Rightarrow> bool" where
  "ends_ok s \<longleftrightarrow> sv_result s \<in> {None, Some (Inr ())}"

text \<open>What the events after a cancellation keep.\<close>

lemma step_stable:
  fixes env en sha256_hex
  defines "step \<equiv> serve_step env en sha256_hex"
  shows "stable step sv_cancelled" "stable step (\<lambda>s. sv_cancelled s \<and> \<not> sv_listening s)"
    "stable step (\<lambda>s. sv_result s \<noteq> None)" "stable step (\<lambda>s. w \<notin> set (sv_running s))"
    "stable step (\<lambda>s. sv_cancelled s \<and> ends_ok s)"
proof -
  show c: "stable step sv_cancelled"
    unfolding stable_def step_def by (blast elim: serve_step_some dest: serve_do_keeps(1))
  have l: "\<not> sv_listening s'" if go: "step ev s = Some s'" and closed: "\<not> sv_listening s" for ev s s'
  proof -
    obtain requests where d: "serve_do env en sha256_hex ev s = Some (s', requests)"
      using go unfolding step_def by (rule serve_step_some)
    show ?thesis
      using closed unfolding serve_do_fields[OF d] by (cases ev) simp_all
  qed
  show "stable step (\<lambda>s. sv_cancelled s \<and> \<not> sv_listening s)"
    using c l unfolding stable_def by blast
  show "stable step (\<lambda>s. sv_result s \<noteq> None)"
    unfolding stable_def step_def by (auto elim!: serve_step_some dest: serve_do_keeps(3))
  have r: "set (sv_running s') \<subseteq> set (sv_running s)" if go: "step ev s = Some s'" for ev s s'
  proof -
    obtain requests where d: "serve_do env en sha256_hex ev s = Some (s', requests)"
      using go unfolding step_def by (rule serve_step_some)
    show ?thesis
      unfolding serve_do_fields[OF d] by (cases ev) (auto simp: without_def)
  qed
  then show "stable step (\<lambda>s. w \<notin> set (sv_running s))"
    unfolding stable_def by blast
  have o: "ends_ok s'" if go: "step ev s = Some s'" and ended: "sv_cancelled s" "ends_ok s" for ev s s'
  proof -
    obtain requests where d: "serve_do env en sha256_hex ev s = Some (s', requests)"
      using go unfolding step_def by (rule serve_step_some)
    show ?thesis
      using ended unfolding ends_ok_def serve_do_fields[OF d]
      by (cases ev) simp_all
  qed
  show "stable step (\<lambda>s. sv_cancelled s \<and> ends_ok s)"
    using c o unfolding stable_def by blast
qed

text \<open>The chain of the shutdown: the listener closes, the accept loop ends, and every worker ends.\<close>

lemma listener_closes:
  assumes "execution (serve_step env en sha256_hex) \<sigma> es" "fair_scheduler env en sha256_hex \<sigma> es" "sv_cancelled (\<sigma> n)"
  shows "\<exists>m \<ge> n. returned (\<sigma> m) \<or> \<not> sv_listening (\<sigma> m)"
proof (rule weak_progress[OF assms(1) _ step_stable(1) assms(3), where e = CloseListener])
  show "weakly_fair (serve_step env en sha256_hex) \<sigma> es CloseListener"
    using assms(2) by (simp add: fair_scheduler_def Let_def)
  show "serve_step env en sha256_hex CloseListener s \<noteq> None" if "sv_cancelled s" "\<not> (returned s \<or> \<not> sv_listening s)" for s
    using that unfolding serve_step_possible by simp
  show "returned s' \<or> \<not> sv_listening s'" if "serve_step env en sha256_hex CloseListener s = Some s'" for s s'
    using that by (auto elim!: serve_step_some simp: serve_do_fields)
qed

lemma accept_loop_ends:
  assumes "execution (serve_step env en sha256_hex) \<sigma> es" "fair_scheduler env en sha256_hex \<sigma> es"
    "sv_cancelled (\<sigma> n) \<and> \<not> sv_listening (\<sigma> n)"
  shows "\<exists>m \<ge> n. returned (\<sigma> m) \<or> sv_result (\<sigma> m) \<noteq> None"
proof (rule weak_progress[OF assms(1) _ step_stable(2) assms(3), where e = AcceptClosed])
  show "weakly_fair (serve_step env en sha256_hex) \<sigma> es AcceptClosed"
    using assms(2) by (simp add: fair_scheduler_def Let_def)
  show "serve_step env en sha256_hex AcceptClosed s \<noteq> None"
    if "sv_cancelled s \<and> \<not> sv_listening s" "\<not> (returned s \<or> sv_result s \<noteq> None)" for s
    using that unfolding serve_step_possible by simp
  show "returned s' \<or> sv_result s' \<noteq> None" if "serve_step env en sha256_hex AcceptClosed s = Some s'" for s s'
    using that by (auto elim!: serve_step_some simp: serve_do_fields)
qed

lemma worker_rests:
  assumes "execution (serve_step env en sha256_hex) \<sigma> es" "fair_scheduler env en sha256_hex \<sigma> es"
  shows "\<exists>m \<ge> n. returned (\<sigma> m) \<or> w \<notin> set (sv_running (\<sigma> m)) \<or> w \<notin> set (sv_busy (\<sigma> m))"
proof (rule weak_progress[OF assms(1), where e = "RoundEnds w" and P = "\<lambda>_. True"])
  show "weakly_fair (serve_step env en sha256_hex) \<sigma> es (RoundEnds w)"
    using assms(2) by (simp add: fair_scheduler_def Let_def)
  show "stable (serve_step env en sha256_hex) (\<lambda>_. True)"
    by (simp add: stable_def)
  show "serve_step env en sha256_hex (RoundEnds w) s \<noteq> None"
    if "\<not> (returned s \<or> w \<notin> set (sv_running s) \<or> w \<notin> set (sv_busy s))" for s
    using that unfolding serve_step_possible by simp
  show "returned s' \<or> w \<notin> set (sv_running s') \<or> w \<notin> set (sv_busy s')" if "serve_step env en sha256_hex (RoundEnds w) s = Some s'" for s s'
    using that by (auto elim!: serve_step_some simp: serve_do_fields without_def)
qed simp

lemma worker_ends:
  assumes "execution (serve_step env en sha256_hex) \<sigma> es" "fair_scheduler env en sha256_hex \<sigma> es" "sv_cancelled (\<sigma> n)"
  shows "\<exists>m \<ge> n. returned (\<sigma> m) \<or> w \<notin> set (sv_running (\<sigma> m))"
proof (rule strong_progress[OF assms(1) _ step_stable(1) assms(3), where e = "WorkerEnds w"])
  show "strongly_fair (serve_step env en sha256_hex) \<sigma> es (WorkerEnds w)"
    using assms(2) by (simp add: fair_scheduler_def Let_def)
  show "\<exists>k \<ge> m. serve_step env en sha256_hex (WorkerEnds w) (\<sigma> k) \<noteq> None"
    if m: "n \<le> m" and on: "\<And>k. n \<le> k \<Longrightarrow> \<not> (returned (\<sigma> k) \<or> w \<notin> set (sv_running (\<sigma> k)))" for m
  proof -
    obtain k where k: "m \<le> k" "returned (\<sigma> k) \<or> w \<notin> set (sv_running (\<sigma> k)) \<or> w \<notin> set (sv_busy (\<sigma> k))"
      using worker_rests[OF assms(1,2)] by blast
    have "sv_cancelled (\<sigma> k)"
      using stable_later[OF assms(1) step_stable(1) assms(3)] m k(1) by simp
    then show ?thesis
      using k on[of k] m by (intro exI[of _ k]) (unfold serve_step_possible, simp)
  qed
  show "returned s' \<or> w \<notin> set (sv_running s')" if "serve_step env en sha256_hex (WorkerEnds w) s = Some s'" for s s'
    using that by (auto elim!: serve_step_some simp: serve_do_fields without_def)
qed

lemma run_ends:
  assumes "execution (serve_step env en sha256_hex) \<sigma> es" "fair_scheduler env en sha256_hex \<sigma> es" "sv_cancelled (\<sigma> n)"
  shows "\<exists>m \<ge> n. returned (\<sigma> m)"
proof (rule ccontr)
  assume "\<not> (\<exists>m \<ge> n. returned (\<sigma> m))"
  then have on: "\<not> returned (\<sigma> m)" if "n \<le> m" for m
    using that by blast
  have c: "sv_cancelled (\<sigma> m)" if "n \<le> m" for m
    by (rule stable_later[OF assms(1) step_stable(1) assms(3) that])
  obtain a where a: "n \<le> a" "\<not> sv_listening (\<sigma> a)"
    using listener_closes[OF assms] on by blast
  obtain b where b: "a \<le> b" "sv_result (\<sigma> b) \<noteq> None"
    using accept_loop_ends[OF assms(1,2)] a c on by (meson le_trans)
  have "\<exists>m \<ge> b. w \<notin> set (sv_running (\<sigma> m))" for w
    using worker_ends[OF assms(1,2) c[of b], of w] a(1) b(1) on by (meson le_trans)
  then obtain f where f: "\<And>w. b \<le> f w" "\<And>w. w \<notin> set (sv_running (\<sigma> (f w)))"
    by metis
  define m where "m = max (f Uploader) (max (f Enroller) (f Capturer))"
  have "f w \<le> m" for w
    by (cases w) (simp_all add: m_def)
  then have "w \<notin> set (sv_running (\<sigma> m))" for w
    using stable_later[OF assms(1) step_stable(4) f(2)] by blast
  then have "sv_running (\<sigma> m) = []"
    by (metis list.set_intros(1) neq_Nil_conv)
  moreover have "b \<le> m"
    using f(1) by (simp add: m_def max_def)
  then have "sv_result (\<sigma> m) \<noteq> None"
    using stable_later[OF assms(1) step_stable(3) b(2)] by blast
  ultimately have "returned (\<sigma> m)"
    by (simp add: returned_def)
  then show False
    using on a(1) b(1) \<open>b \<le> m\<close> by (meson le_trans)
qed

text \<open>Once \<open>Run\<close> has returned nothing happens any more; a finite execution that ends there is a fair infinite one.\<close>

lemma returned_rests: "returned s \<Longrightarrow> serve_step env en sha256_hex ev s = None"
  by (simp add: serve_step_def serve_do_def)

lemma returning_execution:
  assumes "serve_run env en sha256_hex evs s = Some (s', requests)" "returned s'"
  obtains \<sigma> es where "execution (serve_step env en sha256_hex) \<sigma> es" "\<sigma> 0 = s" "fair_scheduler env en sha256_hex \<sigma> es"
proof -
  have "\<exists>\<sigma> es. execution (serve_step env en sha256_hex) \<sigma> es \<and> \<sigma> 0 = s \<and> returned (\<sigma> (length evs))"
    using assms(1)
  proof (induction evs arbitrary: s requests)
    case Nil
    then show ?case
      using assms(2) by (intro exI[of _ "\<lambda>_. s"]) (simp add: execution_def returned_rests)
  next
    case (Cons ev evs)
    obtain s1 first rest where s1: "serve_do env en sha256_hex ev s = Some (s1, first)"
        "serve_run env en sha256_hex evs s1 = Some (s', rest)"
      by (rule serve_run_Cons[OF Cons.prems])
    then obtain \<sigma> es where e: "execution (serve_step env en sha256_hex) \<sigma> es" "\<sigma> 0 = s1" "returned (\<sigma> (length evs))"
      using Cons.IH by blast
    have "serve_step env en sha256_hex ev s = Some s1"
      by (simp add: serve_step_def s1(1))
    then have "execution (serve_step env en sha256_hex) (case_nat s \<sigma>) (case_nat ev es)"
      using e(2) execution_Cons[OF e(1)] by simp
    then show ?case
      using e(3) by (intro exI[of _ "case_nat s \<sigma>"] exI[of _ "case_nat ev es"]) simp
  qed
  then obtain \<sigma> es where e: "execution (serve_step env en sha256_hex) \<sigma> es" "\<sigma> 0 = s" "returned (\<sigma> (length evs))"
    by blast
  then show ?thesis
    using that rest_fair[OF e(1) returned_rests[OF e(3)]] by (simp add: fair_scheduler_def Let_def)
qed

section \<open>Without a cancellation\<close>

definition serves :: "serving \<Rightarrow> bool" where
  "serves s \<longleftrightarrow> \<not> sv_cancelled s \<and> sv_running s = all_workers \<and> sv_listening s"

lemma serves_do:
  assumes "serve_do env en sha256_hex ev s = Some (s', requests)" "ev \<noteq> Cancel" "serves s"
  shows "serves s'"
  using assms(2,3) serve_do_some(2)[OF assms(1)] unfolding serves_def serve_do_fields[OF assms(1)] by (cases ev) simp_all

lemma serves_run:
  "serve_run env en sha256_hex evs s = Some (s', requests) \<Longrightarrow> Cancel \<notin> set evs \<Longrightarrow> serves s \<Longrightarrow>
     serves s' \<and> (sv_result s = Some r \<longrightarrow> sv_result s' = Some r)"
proof (induction evs arbitrary: s requests)
  case (Cons ev evs)
  obtain s1 first rest where s1: "serve_do env en sha256_hex ev s = Some (s1, first)"
      "serve_run env en sha256_hex evs s1 = Some (s', rest)"
    by (rule serve_run_Cons[OF Cons.prems(1)])
  have "serves s1"
    using serves_do[OF s1(1)] Cons.prems(2,3) by auto
  then show ?case
    using Cons.IH[OF s1(2)] Cons.prems(2) serve_do_keeps(3)[OF s1(1), of r] by simp
qed simp

lemma serve_run_append:
  assumes "serve_run env en sha256_hex (evs @ evs') s = Some (s'', requests)"
  obtains s' first rest where "serve_run env en sha256_hex evs s = Some (s', first)"
    "serve_run env en sha256_hex evs' s' = Some (s'', rest)"
proof -
  have "\<exists>s' first rest. serve_run env en sha256_hex evs s = Some (s', first) \<and> serve_run env en sha256_hex evs' s' = Some (s'', rest)"
    using assms
  proof (induction evs arbitrary: s requests)
    case (Cons ev evs)
    obtain s1 first rest where s1: "serve_do env en sha256_hex ev s = Some (s1, first)"
        "serve_run env en sha256_hex (evs @ evs') s1 = Some (s'', rest)"
      by (rule serve_run_Cons[OF Cons.prems[unfolded append_Cons]])
    then show ?case
      using Cons.IH[OF s1(2)] by auto
  qed simp
  then show ?thesis
    using that by blast
qed

lemma started_serves: "run_start en c version entry fs q = Inr s \<Longrightarrow> serves s \<and> sv_result s = None"
  by (auto simp: run_start_def serves_def split: sum.splits)

end
