(* ===== verification/Serving_Properties.thy ===== *)
theory Serving_Properties
  imports Serving
begin

text \<open>
  What every execution of \<open>Daemon.Run\<close> keeps, how it ends, and what a failure of \<open>Accept\<close> does to it.
\<close>

section \<open>Properties\<close>

lemma reachable_run:
  "serving_reachable env en sha256_hex s0 s \<Longrightarrow>
     \<exists>as. list_all action_ok as \<and> sv_system s = fst (agent_run env en sha256_hex as (sv_system s0))"
proof (induction rule: serving_reachable.induct)
  case reach_start
  show ?case by (intro exI[of _ "[]"]) simp
next
  case (reach_step s ev s' requests)
  then obtain as where as: "list_all action_ok as" "sv_system s = fst (agent_run env en sha256_hex as (sv_system s0))"
    by blast
  have "agent_run env en sha256_hex (event_actions s ev) (sv_system s) = (sv_system s', requests)"
    using reach_step.hyps(3) by (rule serve_do_some(3))
  then have "sv_system s' = fst (agent_run env en sha256_hex (as @ event_actions s ev) (sv_system s0))"
    by (simp add: agent_run_append as(2)[symmetric] case_prod_beta)
  then show ?case
    using as(1) event_actions_ok[OF reach_step.hyps(2), of s] by (intro exI[of _ "as @ event_actions s ev"]) simp
qed

text \<open>C4: The daemon as \<open>Run\<close> starts and serves it. In every state that \<open>Run\<close> can reach from a stored queue within its
  bounds, at most 64 connections are being handled, the queue keeps its bounds with every row a valid event classed
  by its source, the channel and the map of signals hold at most 128 checked signals under their own keys, there are
  at most 128 bindings with distinct keys and sessions, the state is one that a run of the workers' actions gives,
  and \<open>Run\<close> has returned only if it was cancelled.\<close>

theorem run_keeps_invariant:
  assumes "run_start en c version entry fs q = Inr s0" "stored_ok sha256_hex q" "serving_reachable env en sha256_hex s0 s"
  shows "system_inv sha256_hex (sv_system s) \<and> length (sv_open s) \<le> max_connections \<and>
    (\<exists>as. list_all action_ok as \<and> sv_system s = fst (agent_run env en sha256_hex as (sv_system s0))) \<and>
    (returned s \<longrightarrow> sv_cancelled s)"
proof -
  have "serving_inv sha256_hex s"
    by (rule reachable_inv[OF assms(3) run_start_inv[OF assms(1,2)]])
  then show ?thesis
    using reachable_run[OF assms(3)] by (auto simp: serving_inv_def returned_def all_workers_def)
qed

text \<open>C26: After a cancellation \<open>Run\<close> returns. In every infinite execution whose scheduler gives the closing goroutine and
  the accept loop their turns, ends the rounds of the workers and does not pass over a context that is done for ever,
  \<open>Run\<close> returns at some point after the cancellation and stays so, whatever the clients, the system and the backend
  do. If the accept loop was still serving when the context was cancelled, \<open>Run\<close> returns no error.\<close>

theorem shutdown_returns:
  assumes "execution (serve_step env en sha256_hex) \<sigma> es" "fair_scheduler env en sha256_hex \<sigma> es" "sv_cancelled (\<sigma> n)"
  shows "\<exists>m \<ge> n. returned (\<sigma> m) \<and> (\<forall>k \<ge> m. \<sigma> k = \<sigma> m) \<and> (sv_result (\<sigma> n) = None \<longrightarrow> sv_result (\<sigma> m) = Some (Inr ()))"
proof -
  obtain m where m: "n \<le> m" "returned (\<sigma> m)"
    using run_ends[OF assms] by blast
  have "sv_result (\<sigma> m) = Some (Inr ())" if "sv_result (\<sigma> n) = None"
    using stable_later[OF assms(1) step_stable(5), of n m] that assms(3) m by (auto simp: ends_ok_def returned_def)
  moreover have "\<sigma> k = \<sigma> m" if "m \<le> k" for k
    by (rule execution_rests[OF assms(1) returned_rests[OF m(2)] that])
  ultimately show ?thesis
    using m by (intro exI[of _ m] conjI allI impI) assumption+
qed

text \<open>C40: A failed \<open>Accept\<close> leaves a daemon that hangs. Once \<open>Accept\<close> has returned an error that no cancellation caused
  (no descriptors are left, for instance), the accept loop is over, but the deferred wait for the workers keeps
  \<open>Run\<close> from returning it: until somebody cancels, \<open>Run\<close> does not return, every worker still runs, the listener is
  still open and no further connection is ever accepted.\<close>

theorem accept_error_hangs:
  assumes "run_start en c version entry fs q = Inr s0"
    "serve_run env en sha256_hex (evs @ AcceptFails e # evs') s0 = Some (s, requests)"
    "Cancel \<notin> set evs" "Cancel \<notin> set evs'"
  shows "\<not> returned s \<and> sv_running s = all_workers \<and> sv_listening s \<and> sv_result s = Some (Inl e) \<and>
    (\<forall>conn. serve_do env en sha256_hex (Accept conn) s = None)"
proof -
  obtain s1 first rest where s1: "serve_run env en sha256_hex evs s0 = Some (s1, first)"
      "serve_run env en sha256_hex (AcceptFails e # evs') s1 = Some (s, rest)"
    by (rule serve_run_append[OF assms(2)])
  obtain s2 first' rest' where s2: "serve_do env en sha256_hex (AcceptFails e) s1 = Some (s2, first')"
      "serve_run env en sha256_hex evs' s2 = Some (s, rest')"
    by (rule serve_run_Cons[OF s1(2)])
  have "serves s1"
    using serves_run[OF s1(1) assms(3)] started_serves[OF assms(1)] by blast
  then have "sv_result s2 = Some (Inl e)" "serves s2"
    using serve_do_fields(6)[OF s2(1)] serves_do[OF s2(1)] by (simp_all add: serves_def)
  then have "serves s" "sv_result s = Some (Inl e)"
    using serves_run[OF s2(2) assms(4)] by blast+
  then show ?thesis
    by (simp add: serves_def returned_def all_workers_def serve_do_def)
qed

section \<open>A concrete execution\<close>

text \<open>The daemon starts on the stored queue of \<open>Agent_Properties\<close>, serves one client, fills its slots, and shuts down.\<close>

definition sample_start :: "serving result" where
  "sample_start = run_start sample_enrollment sample_config ''0.1.0'' SocketEntry (\<lambda>_. None) live_queue"

definition sample_client :: connection where
  "sample_client = \<lparr>co_peer_ok = False, co_input = ''{}''\<rparr>"

abbreviation sample_serve :: "serve_event list \<Rightarrow> serving \<Rightarrow> (serving \<times> http_request list) option" where
  "sample_serve \<equiv> serve_run sample_env sample_enrollment (\<lambda>s. s)"

text \<open>66 clients, of which two find no slot.\<close>

definition busy_events :: "serve_event list" where
  "busy_events = replicate 66 (Accept sample_client) @ [Handle 3 (Inr ''u'') (at_time 1700000000), RoundEnds Uploader, Work Woken]"

definition stop_events :: "serve_event list" where
  "stop_events = [WorkerEnds Enroller, CloseListener, RoundEnds Uploader, AcceptClosed, WorkerEnds Uploader, WorkerEnds Capturer]"

lemma sample_start_some:
  obtains s0 where "sample_start = Inr s0"
proof -
  have "case sample_start of Inl _ \<Rightarrow> False | Inr _ \<Rightarrow> True"
    by code_simp
  then show ?thesis
    using that by (auto split: sum.splits)
qed

lemma live_stored: "stored_ok (\<lambda>s. s) live_queue"
  using live_system_inv
  by (simp add: stored_ok_def system_inv_def loop_inv_def loop_of_def capture_inv_def daemon_ok_def live_system_def)

lemma sample_executions:
  assumes "sample_start = Inr s0"
  shows "\<exists>s. sample_serve busy_events s0 = Some (s, []) \<and> length (sv_open s) = 63"
    "\<exists>s s'. sample_serve [Cancel] s0 = Some (s, []) \<and> sv_cancelled s \<and> sv_result s = None \<and> sample_serve stop_events s = Some (s', []) \<and>
       returned s'"
    "\<exists>s. sample_serve ([Accept sample_client] @ AcceptFails (ErrMsg ''too many open files'') # [RoundEnds Uploader, Work Woken]) s0 = Some (s, [])"
proof -
  have "(case sample_start of Inl _ \<Rightarrow> False | Inr s0 \<Rightarrow>
      (case sample_serve busy_events s0 of None \<Rightarrow> False | Some (s, requests) \<Rightarrow> length (sv_open s) = 63 \<and> requests = []))"
    by code_simp
  then show "\<exists>s. sample_serve busy_events s0 = Some (s, []) \<and> length (sv_open s) = 63"
    unfolding assms sum.case by (auto split: option.splits prod.splits simp del: serve_run.simps)
  have "(case sample_start of Inl _ \<Rightarrow> False | Inr s0 \<Rightarrow>
      (case sample_serve [Cancel] s0 of None \<Rightarrow> False | Some (s, requests) \<Rightarrow> sv_cancelled s \<and> sv_result s = None \<and> requests = [] \<and>
        (case sample_serve stop_events s of None \<Rightarrow> False | Some (s', requests') \<Rightarrow> returned s' \<and> requests' = [])))"
    by code_simp
  then show "\<exists>s s'. sample_serve [Cancel] s0 = Some (s, []) \<and> sv_cancelled s \<and> sv_result s = None \<and> sample_serve stop_events s = Some (s', []) \<and>
       returned s'"
    unfolding assms sum.case by (auto split: option.splits prod.splits simp del: serve_run.simps)
  have "(case sample_start of Inl _ \<Rightarrow> False | Inr s0 \<Rightarrow>
      (case sample_serve ([Accept sample_client] @ AcceptFails (ErrMsg ''too many open files'') # [RoundEnds Uploader, Work Woken]) s0 of None \<Rightarrow> False | Some (s, requests) \<Rightarrow> requests = []))"
    by code_simp
  then show "\<exists>s. sample_serve ([Accept sample_client] @ AcceptFails (ErrMsg ''too many open files'') # [RoundEnds Uploader, Work Woken]) s0 = Some (s, [])"
    unfolding assms sum.case by (auto split: option.splits prod.splits simp del: serve_run.simps)
qed

text \<open>An execution of allowed events reaches its state.\<close>

lemma run_reachable:
  assumes "serve_run env en sha256_hex evs s = Some (s', requests)" "list_all event_ok evs" "serving_reachable env en sha256_hex s0 s"
  shows "serving_reachable env en sha256_hex s0 s'"
  using assms
proof (induction evs arbitrary: s requests)
  case (Cons ev evs)
  obtain s1 first rest where s1: "serve_do env en sha256_hex ev s = Some (s1, first)"
      "serve_run env en sha256_hex evs s1 = Some (s', rest)"
    by (rule serve_run_Cons[OF Cons.prems(1)])
  have "serving_reachable env en sha256_hex s0 s1"
    using Cons.prems(2,3) s1(1) by (auto intro: reach_step)
  then show ?case
    using Cons.IH[OF s1(2)] Cons.prems(2) by simp
qed simp

theorem run_keeps_invariant_witness:
  "\<exists>s0 s. sample_start = Inr s0 \<and> sample_serve busy_events s0 = Some (s, []) \<and> length (sv_open s) = 63 \<and>
     system_inv (\<lambda>s. s) (sv_system s) \<and> \<not> returned s"
proof -
  obtain s0 where s0: "sample_start = Inr s0"
    by (rule sample_start_some)
  obtain s where s: "sample_serve busy_events s0 = Some (s, [])" "length (sv_open s) = 63"
    using sample_executions(1)[OF s0] by blast
  have "list_all event_ok busy_events"
    by (simp add: busy_events_def list_all_iff)
  then have "serving_reachable sample_env sample_enrollment (\<lambda>s. s) s0 s"
    using run_reachable[OF s(1) _ reach_start] by blast
  then have "system_inv (\<lambda>s. s) (sv_system s) \<and> (returned s \<longrightarrow> sv_cancelled s)"
    using run_keeps_invariant[OF s0[unfolded sample_start_def] live_stored] by blast
  moreover have "\<not> sv_cancelled s"
    using serves_run[OF s(1)] started_serves[OF s0[unfolded sample_start_def]] by (auto simp: busy_events_def serves_def)
  ultimately show ?thesis
    using s0 s by blast
qed

text \<open>The shutdown as an infinite execution, which comes to rest.\<close>

theorem shutdown_returns_witness:
  "\<exists>s0 \<sigma> es m. sample_start = Inr s0 \<and> execution (serve_step sample_env sample_enrollment (\<lambda>s. s)) \<sigma> es \<and>
     \<sigma> 0 = fst (the (sample_serve [Cancel] s0)) \<and> returned (\<sigma> m) \<and> sv_result (\<sigma> m) = Some (Inr ())"
proof -
  obtain s0 where s0: "sample_start = Inr s0"
    by (rule sample_start_some)
  obtain s s' where s: "sample_serve [Cancel] s0 = Some (s, [])" "sv_cancelled s" "sv_result s = None"
      "sample_serve stop_events s = Some (s', [])" "returned s'"
    using sample_executions(2)[OF s0] by blast
  obtain \<sigma> es where e: "execution (serve_step sample_env sample_enrollment (\<lambda>s. s)) \<sigma> es" "\<sigma> 0 = s"
      "fair_scheduler sample_env sample_enrollment (\<lambda>s. s) \<sigma> es"
    by (rule returning_execution[OF s(4,5)])
  obtain m where "returned (\<sigma> m)" "sv_result (\<sigma> m) = Some (Inr ())"
    using shutdown_returns[OF e(1,3), of 0] e(2) s(2,3) by auto
  then show ?thesis
    using s0 e(1,2) s(1) by (intro exI[of _ s0] exI[of _ \<sigma>] exI[of _ es] exI[of _ m]) simp
qed

theorem accept_error_hangs_witness:
  "\<exists>s0 s. sample_start = Inr s0 \<and>
     sample_serve ([Accept sample_client] @ AcceptFails (ErrMsg ''too many open files'') # [RoundEnds Uploader, Work Woken]) s0 = Some (s, []) \<and>
     \<not> returned s \<and> serve_do sample_env sample_enrollment (\<lambda>s. s) (Accept sample_client) s = None"
proof -
  obtain s0 where s0: "sample_start = Inr s0"
    by (rule sample_start_some)
  obtain s where s: "sample_serve ([Accept sample_client] @ AcceptFails (ErrMsg ''too many open files'') # [RoundEnds Uploader, Work Woken]) s0 = Some (s, [])"
    using sample_executions(3)[OF s0] by blast
  show ?thesis
    using accept_error_hangs[OF s0[unfolded sample_start_def] s] s0 s by (auto simp del: serve_run.simps append.simps)
qed

end
