(* ===== verification/Outbox.thy ===== *)
theory Outbox
  imports Serving_Properties
begin

text \<open>
  The contract of the daemon towards Codex, as an abstract machine: an outbox of notes that a verified client
  fills, that only an answer of the backend or the clock empties, and that nothing else touches. The queue, its
  workers and \<open>Run\<close> refine it.
\<close>

section \<open>Simulations\<close>

text \<open>Concrete steps that return their outputs, and the abstract steps they are seen as.\<close>

fun runs :: "('act \<Rightarrow> 's \<Rightarrow> 's \<times> 'out list) \<Rightarrow> 'act list \<Rightarrow> 's \<Rightarrow> 's \<times> 'out list" where
  "runs step [] s = (s, [])"
| "runs step (a # as) s =
     (case step a s of (s', out) \<Rightarrow> (case runs step as s' of (s'', rest) \<Rightarrow> (s'', out @ rest)))"

inductive abstract_run :: "('act \<Rightarrow> 'out list \<Rightarrow> 'a \<Rightarrow> 'a \<Rightarrow> bool) \<Rightarrow> ('act \<times> 'out list) list \<Rightarrow> 'a \<Rightarrow> 'a \<Rightarrow> bool" for step where
  stop: "abstract_run step [] S S"
| move: "abstract_run step ((a, out) # trace) S S''"
    if "step a out S S'" "abstract_run step trace S' S''"

inductive_cases abstract_run_cases [elim!]: "abstract_run step (l # trace) S S'"
inductive_simps abstract_run_nil [simp]: "abstract_run step [] S S'"

locale simulation =
  fixes step :: "'act \<Rightarrow> 's \<Rightarrow> 's \<times> 'out list"
    and ok :: "'act \<Rightarrow> bool"
    and inv :: "'s \<Rightarrow> bool"
    and view :: "'s \<Rightarrow> 'a"
    and spec :: "'act \<Rightarrow> 'out list \<Rightarrow> 'a \<Rightarrow> 'a \<Rightarrow> bool"
  assumes keeps: "inv s \<Longrightarrow> ok a \<Longrightarrow> inv (fst (step a s))"
    and simulates: "inv s \<Longrightarrow> ok a \<Longrightarrow> spec a (snd (step a s)) (view s) (view (fst (step a s)))"
begin

lemma runs_inv: "inv s \<Longrightarrow> list_all ok as \<Longrightarrow> inv (fst (runs step as s))"
proof (induction as arbitrary: s)
  case (Cons a as)
  then show ?case
    using Cons.IH[of "fst (step a s)"] keeps by (simp add: case_prod_beta)
qed simp

lemma runs_refine:
  "inv s \<Longrightarrow> list_all ok as \<Longrightarrow>
     \<exists>trace. map fst trace = as \<and> concat (map snd trace) = snd (runs step as s) \<and>
       abstract_run spec trace (view s) (view (fst (runs step as s)))"
proof (induction as arbitrary: s)
  case (Cons a as)
  obtain s' out where s': "step a s = (s', out)" by fastforce
  have "inv s'" "spec a out (view s) (view s')"
    using keeps[of s a] simulates[of s a] Cons.prems s' by simp_all
  moreover from Cons.IH[OF this(1)] Cons.prems(2) obtain trace where
      "map fst trace = as" "concat (map snd trace) = snd (runs step as s')"
      "abstract_run spec trace (view s') (view (fst (runs step as s')))"
    by auto
  ultimately show ?case
    by (intro exI[of _ "(a, out) # trace"]) (auto simp: s' case_prod_beta intro: abstract_run.move)
qed simp

end

section \<open>The outbox\<close>

text \<open>A note is the identifier, the body, the source and the expiry of a stored Codex event.\<close>

type_synonym notice = "string \<times> string \<times> string \<times> int"

definition note_id :: "notice \<Rightarrow> string" where "note_id n = fst n"
definition note_body :: "notice \<Rightarrow> string" where "note_body n = fst (snd n)"
definition note_expiry :: "notice \<Rightarrow> int" where "note_expiry n = snd (snd (snd n))"

definition live_notes :: "gotime \<Rightarrow> notice set \<Rightarrow> notice set" where
  "live_notes now S = {n \<in> S. unix now < note_expiry n}"

definition codex_note :: "string \<Rightarrow> string \<Rightarrow> gotime \<Rightarrow> notice" where
  "codex_note i body now = (i, body, ''codex'', unix (time_add now week))"

text \<open>The event a client's line decodes to, and the identifier and body under which the daemon stores it.\<close>

definition sent_hook :: "string \<Rightarrow> hook_event option" where
  "sent_hook input =
     (case parse_prefix (take MaxIPCMessage input) of
        None \<Rightarrow> None
      | Some (raw, _) \<Rightarrow> (case dec_struct hook_event_member raw zero_hook_event of (e, ok) \<Rightarrow> if ok then Some e else None))"

definition sends :: "(string \<Rightarrow> string) \<Rightarrow> string result \<Rightarrow> string \<Rightarrow> string \<Rightarrow> string \<Rightarrow> bool" where
  "sends sha256_hex uuid input i body \<longleftrightarrow>
     (\<exists>e host. sent_hook input = Some e \<and> validate_hook_event e \<and> marshal_host_event (host_event_of e) = Inr body \<and>
        event_id sha256_hex uuid host e = Inr i)"

text \<open>What an action and its requests may do to the outbox. A full outbox, of 500 notes, may lose notes to a new one.\<close>

inductive outbox_step :: "(string \<Rightarrow> string) \<Rightarrow> agent_action \<Rightarrow> http_request list \<Rightarrow> notice set \<Rightarrow> notice set \<Rightarrow> bool" for sha256_hex where
  rest: "outbox_step sha256_hex a reqs S S"
| sweep: "outbox_step sha256_hex a reqs S S'"
    if "action_time a = Some now" "live_notes now S \<subseteq> S'" "S' \<subseteq> S"
| submit: "outbox_step sha256_hex (Client uuid now True input) reqs S (insert (codex_note i body now) (live_notes now S))"
    if "sends sha256_hex uuid input i body" "card S < 500"
| overflow: "outbox_step sha256_hex (Client uuid now True input) reqs S S'"
    if "sends sha256_hex uuid input i body" "500 \<le> card S" "S' \<subseteq> insert (codex_note i body now) S"
| deliver: "outbox_step sha256_hex (UploadOne v) reqs S (live_notes (uv_now v) S - {n})"
    if "n \<in> S" "q \<in> set reqs" "taken (uv_uplink v) (note_id n) (note_body n) q"

definition outbox :: "queue \<Rightarrow> notice set" where
  "outbox q = row_view ` set (codex_rows q)"

lemma outbox_card: "events_ok (q_events q) \<Longrightarrow> card (outbox q) = length (codex_rows q)"
proof -
  assume "events_ok (q_events q)"
  then have "distinct (map pe_event_id (codex_rows q))"
    by (simp add: events_ok_def codex_rows_def distinct_map_filter)
  then have "distinct (codex_rows q)" "inj_on row_view (set (codex_rows q))"
    by (auto simp: distinct_map inj_on_def row_view_def)
  then show ?thesis
    by (simp add: outbox_def card_image distinct_card)
qed

lemma outbox_rows: "outbox q = {row_view r | r. r \<in> set (q_events q) \<and> pe_source r = ''codex''}"
  by (auto simp: outbox_def codex_rows_def)

lemma outbox_member: "r \<in> set (q_events q) \<Longrightarrow> pe_source r = ''codex'' \<Longrightarrow> row_view r \<in> outbox q"
  unfolding outbox_rows by (rule CollectI, rule exI[of _ r], simp)

lemma outbox_views: "outbox q = {n \<in> row_view ` set (q_events q). fst (snd (snd n)) = ''codex''}"
  by (auto simp: outbox_rows row_view_def)

lemma outbox_cong: "row_view ` set (q_events q') = row_view ` set (q_events q) \<Longrightarrow> outbox q' = outbox q"
  by (simp add: outbox_views)

lemma live_notes_rows: "live_notes now (outbox q) = row_view ` set (live_codex now (q_events q))"
  by (auto simp: live_notes_def outbox_rows live_codex_def note_expiry_def row_view_def)


section \<open>The queue refines the outbox\<close>

lemma unix_week: "unix (time_add now week) = unix now + 604800"
  by (simp add: unix_def time_add_def week_def)

lemma enqueue_note:
  assumes "events_ok (q_events q)" "marshal_host_event e = Inr body" "host_event_wf e" "host_event_valid e"
    "event_source e = SourceCodex" "sends sha256_hex uuid input i body"
  shows "outbox_step sha256_hex (Client uuid now True input) reqs (outbox q) (outbox (enqueue_event i body now q))"
proof -
  let ?row = "new_row (q_backend q) i body now"
  let ?rows = "insert_or_ignore ?row (q_events q)"
  have u: "unmarshal_host_event body = Inr e"
    using host_codec.decode_encode[OF assms(3,2)] .
  have "\<not> (event_source e = SourceHerdr)"
    using assms(5) by (simp add: protocol_consts)
  then have row: "row_view ?row = codex_note i body now" "pe_source ?row = ''codex''"
    by (simp_all add: new_row_def row_view_def codex_note_def classify_def u)
  have sub: "outbox (enqueue_event i body now q) \<subseteq> insert (codex_note i body now) (outbox q)"
    using enqueue_subset[of i body now q] row by (auto simp: outbox_rows)
  show ?thesis
  proof (cases "card (outbox q) < 500")
    case False
    then show ?thesis
      using overflow[OF assms(6) _ sub] by simp
  next
    case True
    then have n: "length (filter (\<lambda>r. pe_source r = ''codex'') ?rows) \<le> 500"
      unfolding outbox_card[OF assms(1)] codex_rows_def by (simp add: insert_or_ignore_def)
    have d: "distinct (map pe_event_id ?rows)"
      using assms(1) by (simp add: events_ok_def insert_distinct)
    have rows: "codex_rows (enqueue_event i body now q) = live_codex now ?rows"
      using trim_keeps_codex[OF d n, of "pe_session_id ?row" "unix now"]
      by (simp add: codex_rows_def enqueue_event_def Let_def live_codex_filter delete_expired_def conj_commute)
    have live: "unix now < pe_expires_at ?row"
      using row(1) unix_week[of now] by (simp add: row_view_def codex_note_def)
    show ?thesis
    proof (cases "pe_event_id ?row \<in> pe_event_id ` set (q_events q)")
      case True
      then have "outbox (enqueue_event i body now q) = live_notes now (outbox q)"
        by (simp add: outbox_def[of "enqueue_event i body now q"] rows live_notes_rows insert_or_ignore_def)
      moreover have "live_notes now (outbox q) \<subseteq> outbox q"
        by (auto simp: live_notes_def)
      ultimately show ?thesis
        by (auto intro!: sweep)
    next
      case False
      then have "live_codex now ?rows = live_codex now (q_events q) @ [?row]"
        using row(2) live by (simp add: insert_or_ignore_def live_codex_def)
      then have "outbox (enqueue_event i body now q) = insert (codex_note i body now) (live_notes now (outbox q))"
        by (simp add: outbox_def[of "enqueue_event i body now q"] rows live_notes_rows row(1))
      then show ?thesis
        using submit[OF assms(6) True] by simp
    qed
  qed
qed

lemma client_cases:
  assumes "handle_connection sha256_hex uuid now peer_ok input d = (reply, d')"
  obtains "q_events (dm_queue d') = q_events (dm_queue d)"
  | e body i where peer_ok "hook_event_wf e" "validate_hook_event e" "marshal_host_event (host_event_of e) = Inr body"
      "sends sha256_hex uuid input i body" "dm_queue d' = enqueue_event i body now (dm_queue d)"
proof -
  note unchanged = that(1) and stored = that(2)
  show ?thesis
  proof (cases "peer_ok \<and> parse_prefix (take MaxIPCMessage input) \<noteq> None")
    case False
    then show ?thesis
      using assms unchanged by (auto simp: handle_connection_def split: if_splits option.splits)
  next
    case True
    then obtain raw rest where raw: "parse_prefix (take MaxIPCMessage input) = Some (raw, rest)"
      by auto
    obtain info iok where i: "dec_struct info_request_member raw \<lparr>dq_type = []\<rparr> = (info, iok)" by fastforce
    obtain s sok where s: "dec_struct dirty_event_member raw zero_dirty_event = (s, sok)" by fastforce
    obtain e eok where e: "dec_struct hook_event_member raw zero_hook_event = (e, eok)" by fastforce
    have wf: "hook_event_wf e"
      using dec_hook_event_wf[OF parse_prefix_ok[OF raw] zero_wf(2)] e by simp
    have h: "handle_value sha256_hex uuid now raw d = (reply, d')"
      using assms raw True by (simp add: handle_connection_def)
    have signal: "q_events (dm_queue d') = q_events (dm_queue d)" if "handle_signal sha256_hex s d = (reply, d')"
      using that by (auto simp: handle_signal_def split: option.splits if_splits)
    have hook: ?thesis if run: "handle_hook_event sha256_hex uuid now e d = (reply, d')" and ok: eok
    proof (cases "d' = d")
      case False
      then obtain body i where b: "validate_hook_event e" "marshal_host_event (host_event_of e) = Inr body"
          "event_id sha256_hex uuid (cf_host_id (dm_config d)) e = Inr i" "dm_queue d' = enqueue_event i body now (dm_queue d)"
        using run by (auto simp: handle_hook_event_def split: if_splits sum.splits)
      have "sent_hook input = Some e"
        using raw e ok by (simp add: sent_hook_def)
      then have "sends sha256_hex uuid input i body"
        using b(1-3) by (auto simp: sends_def)
      then show ?thesis
        using stored[OF _ wf b(1,2) _ b(4)] True by simp
    qed (use unchanged in simp)
    show ?thesis
      using h signal hook unchanged by (auto simp: handle_value_def i s e split: if_splits)
  qed
qed

lemma client_note:
  assumes "handle_connection sha256_hex uuid now peer_ok input d = (reply, d')" "events_ok (q_events (dm_queue d))"
  shows "outbox_step sha256_hex (Client uuid now peer_ok input) [] (outbox (dm_queue d)) (outbox (dm_queue d'))"
  using assms(1)
proof (cases rule: client_cases)
  case 1
  then show ?thesis
    by (simp add: outbox_def codex_rows_def outbox_step.rest)
next
  case (2 e body i)
  then show ?thesis
    using enqueue_note[OF assms(2) 2(4) host_event_of_wf[OF 2(2)] _ _ 2(5)] validated_host_event[OF 2(3)] by simp
qed

text \<open>A reconciliation adds Herdr events only, and may delete what has expired.\<close>

lemma signal_note:
  assumes "capture_inv sha256_hex d" "surroundings_ok su" "action_time a = Some (su_now su)"
  shows "outbox_step sha256_hex a [] (outbox (dm_queue d)) (outbox (dm_queue (reconcile_signal env sha256_hex su e d)))"
proof (rule sweep[OF assms(3)])
  let ?q = "dm_queue (reconcile_signal env sha256_hex su e d)"
  have b: "bindings_ok sha256_hex (q_bindings (dm_queue d))"
    using assms(1) by (simp add: capture_inv_def)
  have now: "\<not> is_zero_time (su_now su)"
    using assms(2) by (simp add: surroundings_ok_def)
  have ev: "events_ok (q_events (dm_queue d))"
    using assms(1) by (simp add: capture_inv_def daemon_ok_def queue_ok_def)
  have "live_notes (su_now su) (outbox (dm_queue d)) = live_notes (su_now su) (outbox ?q)"
    by (simp add: live_notes_rows reconcile_signal_keeps(3)[OF assms(1,2)])
  then show "live_notes (su_now su) (outbox (dm_queue d)) \<subseteq> outbox ?q"
    by (auto simp: live_notes_def)
  show "outbox ?q \<subseteq> outbox (dm_queue d)"
  proof (cases rule: reconcile_signal_cases[OF b assms(2), where env = env and e = e])
    case reconciled: (3 q' q'' binding agents incarnation)
    have ev': "events_ok (q_events q')"
      using ev reconciled(2) by simp
    have "\<not> own_row binding agents r" if "pe_source r = ''codex''" for r
      using that by (auto simp: own_row_def is_herdr_def)
    then show ?thesis
      using reconciled(1,2) reconcile_rows[OF reconciled(8,6,7) now ev'] by (auto simp: outbox_rows)
  qed (auto simp: outbox_rows)
qed


lemma next_rows:
  assumes "next_for_backend now b q = (res, q1)"
  shows "q_events q1 = delete_expired (unix now) (q_events q)" "outbox q1 = live_notes now (outbox q)"
proof -
  have next': "next_event now (trim_right (CHR ''/'') b) q = (res, q1)"
    using assms by (simp add: next_for_backend_def)
  show r: "q_events q1 = delete_expired (unix now) (q_events q)"
    using next_event_some(2) next_event_none(3) next' by (cases res) blast+
  show "outbox q1 = live_notes now (outbox q)"
    unfolding live_notes_rows
    by (simp add: outbox_def codex_rows_def r live_codex_filter delete_expired_def conj_commute)
qed

lemma upload_note:
  assumes "upload_once v q = (again, q', reqs)" "events_ok (q_events q)" "rows_valid q"
  shows "outbox_step sha256_hex (UploadOne v) reqs (outbox q) (outbox q')"
proof -
  have sweep': "outbox_step sha256_hex (UploadOne v) reqs (outbox q) (live_notes (uv_now v) (outbox q))"
    by (rule sweep) (auto simp: live_notes_def)
  from assms(1) show ?thesis
  proof (cases rule: upload_once_cases)
    case idle
    then show ?thesis by (simp add: outbox_step.rest)
  next
    case (none err)
    then show ?thesis using sweep' next_rows(2) by simp
  next
    case (failed ev q1)
    have "row_view ` set (q_events q') = row_view ` set (q_events q1)"
      using arg_cong[OF retry_views, of set] unfolding failed(3) by simp
    then show ?thesis using sweep' next_rows(2)[OF failed(1)] outbox_cong[of q' q1] by simp
  next
    case (finished ev q1)
    obtain x where x: "x \<in> set (q_events q1)" "qe_event_id ev = pe_event_id x" "qe_body ev = pe_body x"
      using next_for_backend_row[OF finished(1)] by metis
    have xq: "x \<in> set (q_events q)" "unix (uv_now v) < pe_expires_at x"
      using x(1) by (auto simp: next_rows(1)[OF finished(1)] delete_expired_def)
    have gone: "set (q_events q') = set (q_events q1) - {x}"
    proof -
      have "r = x" if "r \<in> set (q_events q1)" "pe_event_id r = pe_event_id x" for r
        using that xq(1) assms(2) id_unique[of pe_event_id "q_events q" r x]
        by (auto simp: next_rows(1)[OF finished(1)] delete_expired_def events_ok_def)
      then show ?thesis
        by (auto simp: finished(3) complete_def x(2))
    qed
    show ?thesis
    proof (cases "pe_source x = ''codex''")
      case False
      then have "outbox q' = outbox q1"
        using gone by (auto simp: outbox_rows)
      then show ?thesis using sweep' next_rows(2)[OF finished(1)] by simp
    next
      case True
      have ne: "row_view r \<noteq> row_view x" if "r \<in> set (q_events q')" for r
        using that by (auto simp: finished(3) complete_def x(2) row_view_def)
      have "outbox q' = outbox q1 - {row_view x}"
      proof
        show "outbox q' \<subseteq> outbox q1 - {row_view x}"
        proof
          fix n assume "n \<in> outbox q'"
          then obtain r where r: "n = row_view r" "r \<in> set (q_events q')" "pe_source r = ''codex''"
            by (auto simp: outbox_rows)
          then have "r \<in> set (q_events q1)"
            using gone by blast
          then show "n \<in> outbox q1 - {row_view x}"
            using r(3) ne[OF r(2)] outbox_member unfolding r(1) by blast
        qed
        show "outbox q1 - {row_view x} \<subseteq> outbox q'"
          unfolding outbox_rows gone by blast
      qed
      then have "outbox q' = live_notes (uv_now v) (outbox q) - {row_view x}"
        by (simp add: next_rows(2)[OF finished(1)])
      moreover have "row_view x \<in> outbox q"
        using xq(1) True by (auto simp: outbox_rows)
      moreover have "row_view x \<notin> row_view ` set (q_events q')"
        using ne by (metis imageE)
      then have "\<exists>y \<in> set reqs. taken (uv_uplink v) (note_id (row_view x)) (note_body (row_view x)) y"
        using upload_keeps_row[OF assms xq(1) True xq(2)] by (simp add: row_view_def note_id_def note_body_def)
      ultimately show ?thesis
        by (auto intro: deliver)
    qed
  qed
qed

text \<open>The uploader takes the configuration of the daemon; the abstract step is labelled with the view it started from.\<close>

lemma configured_view:
  "outbox_step sha256_hex (UploadOne (v\<lparr>uv_config := c\<rparr>)) reqs S S' \<Longrightarrow> outbox_step sha256_hex (UploadOne v) reqs S S'"
proof (cases rule: outbox_step.cases, assumption)
qed (auto intro: outbox_step.intros)

lemma action_note:
  assumes "system_inv sha256_hex s" "action_ok a"
  shows "outbox_step sha256_hex a (snd (agent_do env en sha256_hex a s)) (outbox (sy_queue s))
    (outbox (sy_queue (fst (agent_do env en sha256_hex a s))))"
proof -
  have inv: "capture_inv sha256_hex (sy_daemon s)" "rows_valid (sy_queue s)" "events_ok (q_events (sy_queue s))"
    using assms(1) by (simp_all add: system_inv_def loop_inv_def capture_inv_def daemon_ok_def queue_ok_def)
  show ?thesis
  proof (cases a)
    case (Client uuid now peer_ok input)
    obtain reply d where h: "handle_connection sha256_hex uuid now peer_ok input (sy_daemon s) = (reply, d)"
      by fastforce
    then show ?thesis
      using client_note[OF h inv(3)] by (simp add: Client)
  next
    case ReceiveSignal
    have "sy_queue (put_loop (receive_dirty (loop_of s)) s) = sy_queue s"
      by (simp add: receive_dirty_def split: list.splits)
    then show ?thesis by (simp add: ReceiveSignal outbox_step.rest)
  next
    case (DrainSignal su key)
    then show ?thesis
      using signal_note[OF inv(1), of su a] assms(2)
      by (auto simp: drain_one_def outbox_step.rest split: option.splits)
  next
    case (Baseline su e)
    then show ?thesis
      using signal_note[OF inv(1), of su a] assms(2) by simp
  next
    case (UploadOne v)
    obtain again q reqs where u: "upload_once (v\<lparr>uv_config := dm_config (sy_daemon s)\<rparr>) (sy_queue s) = (again, q, reqs)"
      by (metis prod_cases3)
    then show ?thesis
      using configured_view[OF upload_note[OF u inv(3,2)]] by (simp add: UploadOne)
  next
    case (Enroll i)
    obtain h l reqs where e: "enrollment_iteration en i (sy_host s, sy_loop s) = ((h, l), reqs)"
      by (metis prod.collapse)
    have "row_view ` set (q_events (dm_queue (hs_daemon h))) = row_view ` set (q_events (sy_queue s))"
      using iteration_keeps[OF e] same_rows_views by (simp add: keeps_def)
    from outbox_cong[OF this] show ?thesis
      by (simp add: Enroll e outbox_step.rest)
  next
    case (SwitchCapture on)
    have "outbox (set_herdr_capture_enabled on q) = outbox q" for q
      by (auto simp: outbox_rows set_herdr_capture_enabled_def Let_def is_herdr_def)
    then show ?thesis
      by (simp add: SwitchCapture outbox_step.rest)
  qed (simp_all add: outbox_step.rest)
qed

interpretation daemon: simulation "agent_do env en sha256_hex" action_ok "system_inv sha256_hex" "\<lambda>s. outbox (sy_queue s)" "outbox_step sha256_hex"
  for env en sha256_hex
  by unfold_locales (auto intro: agent_do_inv action_note)

lemma agent_run_runs: "agent_run env en sha256_hex as s = runs (agent_do env en sha256_hex) as s"
  by (induction as arbitrary: s) (simp_all add: agent_run.simps)


section \<open>Where notices come from and where they go\<close>

text \<open>A verified client sent the notice.\<close>

definition submitted :: "(string \<Rightarrow> string) \<Rightarrow> agent_action \<Rightarrow> notice \<Rightarrow> bool" where
  "submitted sha256_hex a n \<longleftrightarrow> (\<exists>uuid now input i body. a = Client uuid now True input \<and> sends sha256_hex uuid input i body \<and> n = codex_note i body now)"

text \<open>The reasons to leave an outbox \<open>S\<close>: the backend took the notice, it has expired, or \<open>S\<close> is full and a verified
  client sent another.\<close>

definition leaves :: "(string \<Rightarrow> string) \<Rightarrow> notice \<Rightarrow> agent_action \<Rightarrow> http_request list \<Rightarrow> notice set \<Rightarrow> bool" where
  "leaves sha256_hex n a reqs S \<longleftrightarrow>
     (\<exists>q \<in> set reqs. taken_by a (note_id n) (note_body n) q) \<or>
     (\<exists>now. action_time a = Some now \<and> note_expiry n \<le> unix now) \<or>
     500 \<le> card S \<and> (\<exists>uuid now input i body. a = Client uuid now True input \<and> sends sha256_hex uuid input i body)"

lemma outbox_step_accounts:
  assumes "outbox_step sha256_hex a reqs S S'"
  shows "n \<in> S' \<Longrightarrow> n \<in> S \<or> submitted sha256_hex a n" "n \<in> S \<Longrightarrow> n \<in> S' \<or> leaves sha256_hex n a reqs S"
proof -
  show "n \<in> S \<or> submitted sha256_hex a n" if "n \<in> S'"
    using assms that by cases (auto simp: submitted_def live_notes_def)
  show "n \<in> S' \<or> leaves sha256_hex n a reqs S" if "n \<in> S"
    using assms
    by cases (use that in \<open>auto simp: leaves_def live_notes_def taken_by_def not_less\<close>)
qed

lemma run_accounts:
  assumes "system_inv sha256_hex s" "list_all action_ok as"
  shows "n \<in> outbox (sy_queue (fst (agent_run env en sha256_hex as s))) \<Longrightarrow>
      n \<in> outbox (sy_queue s) \<or> (\<exists>a \<in> set as. submitted sha256_hex a n)"
    "n \<in> outbox (sy_queue s) \<Longrightarrow>
      n \<in> outbox (sy_queue (fst (agent_run env en sha256_hex as s))) \<or>
      (\<exists>bs a cs. as = bs @ a # cs \<and>
        leaves sha256_hex n a (snd (agent_do env en sha256_hex a (fst (agent_run env en sha256_hex bs s))))
          (outbox (sy_queue (fst (agent_run env en sha256_hex bs s)))))"
proof -
  show "n \<in> outbox (sy_queue s) \<or> (\<exists>a \<in> set as. submitted sha256_hex a n)"
    if "n \<in> outbox (sy_queue (fst (agent_run env en sha256_hex as s)))"
    using assms that
  proof (induction as arbitrary: s)
    case (Cons a as)
    have i: "system_inv sha256_hex (fst (agent_do env en sha256_hex a s))"
      using agent_do_inv Cons.prems(1,2) by simp
    have "n \<in> outbox (sy_queue (fst (agent_do env en sha256_hex a s))) \<or> (\<exists>a \<in> set as. submitted sha256_hex a n)"
      using Cons.IH[OF i] Cons.prems(2,3) by (simp add: agent_run_Cons)
    then show ?case
      using outbox_step_accounts(1)[OF action_note[OF Cons.prems(1), of a]] Cons.prems(2) by fastforce
  qed simp
  show "n \<in> outbox (sy_queue (fst (agent_run env en sha256_hex as s))) \<or>
      (\<exists>bs a cs. as = bs @ a # cs \<and>
        leaves sha256_hex n a (snd (agent_do env en sha256_hex a (fst (agent_run env en sha256_hex bs s))))
          (outbox (sy_queue (fst (agent_run env en sha256_hex bs s)))))" if "n \<in> outbox (sy_queue s)"
    using assms that
  proof (induction as arbitrary: s)
    case (Cons a as)
    let ?s = "fst (agent_do env en sha256_hex a s)"
    have i: "system_inv sha256_hex ?s" "action_ok a" "list_all action_ok as"
      using agent_do_inv Cons.prems(1,2) by simp_all
    show ?case
    proof (cases "n \<in> outbox (sy_queue ?s)")
      case False
      then have "leaves sha256_hex n a (snd (agent_do env en sha256_hex a s)) (outbox (sy_queue s))"
        using outbox_step_accounts(2)[OF action_note[OF Cons.prems(1) i(2)] Cons.prems(3)] by blast
      then show ?thesis
        by (intro disjI2 exI[of _ "[]"] exI[of _ a] exI[of _ as]) simp
    next
      case True
      from Cons.IH[OF i(1,3) True] show ?thesis
      proof (elim disjE exE conjE)
        fix bs b cs
        assume "as = bs @ b # cs"
          "leaves sha256_hex n b (snd (agent_do env en sha256_hex b (fst (agent_run env en sha256_hex bs ?s)))) (outbox (sy_queue (fst (agent_run env en sha256_hex bs ?s))))"
        then show ?thesis
          by (intro disjI2 exI[of _ "a # bs"] exI[of _ b] exI[of _ cs]) (simp add: agent_run_Cons)
      qed (simp add: agent_run_Cons)
    qed
  qed simp
qed

section \<open>\<open>Run\<close>\<close>

lemma run_actions_ok: "list_all event_ok evs \<Longrightarrow> list_all action_ok (run_actions env en sha256_hex evs s)"
  by (induction evs arbitrary: s) (auto simp: event_actions_ok split: option.splits)

lemma started_outbox:
  assumes "run_start en c version entry fs q = Inr s"
  shows "outbox (sy_queue (sv_system s)) = outbox q"
proof -
  obtain q' where q': "configure_backend endpoint_text (cf_endpoint c) q = Inr q'" "sy_queue (sv_system s) = q'"
    using assms by (auto simp: run_start_def start_daemon_def split: sum.splits)
  show ?thesis
    using outbox_cong[OF same_rows_views[OF configure_same_rows[OF q'(1)]]] q'(2) by simp
qed

lemma started_execution:
  assumes "run_start en c version entry fs q = Inr s0" "stored_ok sha256_hex q" "list_all event_ok evs"
  shows "system_inv sha256_hex (sv_system s0)" "list_all action_ok (run_actions env en sha256_hex evs s0)"
  using run_start_inv[OF assms(1,2)] run_actions_ok[OF assms(3)] by (simp_all add: serving_inv_def)

text \<open>C1: The daemon refines the outbox. For every execution of \<open>Run\<close> there is a run of the abstract outbox, from the
  Codex events of the stored queue to those of the final queue, with the workers' actions and exactly the requests of
  the execution as its labels: whatever Herdr, the enrollment, the capture switch and the clients do, the stored Codex
  events change only by a verified client's valid event, by an answer of the backend that takes one, or by the clock.\<close>

theorem run_refines_outbox:
  assumes "run_start en c version entry fs q = Inr s0" "stored_ok sha256_hex q" "list_all event_ok evs"
    "serve_run env en sha256_hex evs s0 = Some (s, requests)"
  shows "\<exists>trace. map fst trace = run_actions env en sha256_hex evs s0 \<and> concat (map snd trace) = requests \<and>
    abstract_run (outbox_step sha256_hex) trace (outbox q) (outbox (sy_queue (sv_system s)))"
  using daemon.runs_refine[where env = env and en = en, OF started_execution(1)[OF assms(1-3)] started_execution(2)[where env = env, OF assms(1-3)]]
  unfolding agent_run_runs[symmetric] serve_run_actions[OF assms(4)] started_outbox[OF assms(1)] by simp

text \<open>C2: Every Codex event is accounted for. After any execution of \<open>Run\<close> a stored Codex event was stored before or was
  sent by a verified client with a valid body, and an event that was stored before is still stored with its body, or
  at some action the backend took it with 2xx or 409, or it had expired, or 500 Codex events were stored when a verified client sent another.\<close>

theorem codex_events_accounted:
  assumes "run_start en c version entry fs q = Inr s0" "stored_ok sha256_hex q" "list_all event_ok evs"
    "serve_run env en sha256_hex evs s0 = Some (s, requests)"
  shows "(n \<in> outbox (sy_queue (sv_system s)) \<longrightarrow>
      n \<in> outbox q \<or> (\<exists>a \<in> set (run_actions env en sha256_hex evs s0). submitted sha256_hex a n)) \<and>
    (n \<in> outbox q \<longrightarrow> n \<in> outbox (sy_queue (sv_system s)) \<or>
      (\<exists>bs a cs. run_actions env en sha256_hex evs s0 = bs @ a # cs \<and>
        leaves sha256_hex n a (snd (agent_do env en sha256_hex a (fst (agent_run env en sha256_hex bs (sv_system s0)))))
          (outbox (sy_queue (fst (agent_run env en sha256_hex bs (sv_system s0)))))))"
proof -
  have f: "fst (agent_run env en sha256_hex (run_actions env en sha256_hex evs s0) (sv_system s0)) = sv_system s"
    by (simp add: serve_run_actions[OF assms(4)])
  note r = run_accounts[where env = env and en = en and n = n, OF started_execution(1)[OF assms(1-3)] started_execution(2)[where env = env, OF assms(1-3)]]
  show ?thesis
    using r unfolding f started_outbox[OF assms(1)] by blast
qed


section \<open>A concrete execution\<close>

text \<open>A client of another user is turned away, and the uploader delivers the stored stop event.\<close>

definition delivery_events :: "serve_event list" where
  "delivery_events = [Accept sample_client, Handle 0 (Inr ''u'') (at_time 1700000060), Work (UploadOne (test_view 0))]"

lemma delivery_execution:
  obtains s0 s requests where "sample_start = Inr s0" "sample_serve delivery_events s0 = Some (s, requests)"
    "length requests = 1" "q_events (sy_queue (sv_system s)) = []"
    "length (run_actions sample_env sample_enrollment (\<lambda>s. s) delivery_events s0) = 2"
proof -
  have "(case sample_start of Inl _ \<Rightarrow> False | Inr s0 \<Rightarrow>
      length (run_actions sample_env sample_enrollment (\<lambda>s. s) delivery_events s0) = 2 \<and>
      (case sample_serve delivery_events s0 of None \<Rightarrow> False
       | Some (s, requests) \<Rightarrow> length requests = 1 \<and> q_events (sy_queue (sv_system s)) = []))"
    by code_simp
  moreover obtain s0 where s0: "sample_start = Inr s0"
    by (rule sample_start_some)
  ultimately have e: "length (run_actions sample_env sample_enrollment (\<lambda>s. s) delivery_events s0) = 2"
    "case sample_serve delivery_events s0 of None \<Rightarrow> False
     | Some (s, requests) \<Rightarrow> length requests = 1 \<and> q_events (sy_queue (sv_system s)) = []"
    unfolding s0 sum.case by blast+
  then obtain s requests where "sample_serve delivery_events s0 = Some (s, requests)"
    by (cases "sample_serve delivery_events s0") auto
  then show ?thesis
    using that[OF s0] e by simp
qed

lemma delivery_events_ok: "list_all event_ok delivery_events"
  by (simp add: delivery_events_def)

theorem run_refines_outbox_witness:
  "\<exists>s0 s requests trace. sample_serve delivery_events s0 = Some (s, requests) \<and> length trace = 2 \<and>
     length (concat (map snd trace)) = 1 \<and>
     abstract_run (outbox_step (\<lambda>s. s)) trace (outbox live_queue) (outbox (sy_queue (sv_system s)))"
proof -
  obtain s0 s requests where s: "sample_start = Inr s0" "sample_serve delivery_events s0 = Some (s, requests)"
      "length requests = 1" "length (run_actions sample_env sample_enrollment (\<lambda>s. s) delivery_events s0) = 2"
    by (rule delivery_execution)
  obtain trace where t: "map fst trace = run_actions sample_env sample_enrollment (\<lambda>s. s) delivery_events s0"
      "concat (map snd trace) = requests"
      "abstract_run (outbox_step (\<lambda>s. s)) trace (outbox live_queue) (outbox (sy_queue (sv_system s)))"
    using run_refines_outbox[OF s(1)[unfolded sample_start_def] live_stored delivery_events_ok s(2)] by blast
  have "length trace = 2"
    using s(4) unfolding t(1)[symmetric] by simp
  then show ?thesis
    using s(2,3) t(2,3) by blast
qed

theorem codex_events_accounted_witness:
  "\<exists>s0 s requests. sample_start = Inr s0 \<and> sample_serve delivery_events s0 = Some (s, requests) \<and>
     row_view stop_row \<in> outbox live_queue \<and>
     row_view stop_row \<notin> outbox (sy_queue (sv_system s)) \<and>
      (\<exists>bs a cs. run_actions sample_env sample_enrollment (\<lambda>s. s) delivery_events s0 = bs @ a # cs \<and>
        leaves (\<lambda>s. s) (row_view stop_row) a
          (snd (agent_do sample_env sample_enrollment (\<lambda>s. s) a (fst (agent_run sample_env sample_enrollment (\<lambda>s. s) bs (sv_system s0)))))
          (outbox (sy_queue (fst (agent_run sample_env sample_enrollment (\<lambda>s. s) bs (sv_system s0))))))"
proof -
  obtain s0 s requests where s: "sample_start = Inr s0" "sample_serve delivery_events s0 = Some (s, requests)"
      "q_events (sy_queue (sv_system s)) = []"
    by (rule delivery_execution)
  have "pe_source stop_row = ''codex''"
    by code_simp
  then have "row_view stop_row \<in> outbox live_queue"
    by (intro outbox_member) (simp_all add: live_queue_def)
  moreover have "row_view stop_row \<notin> outbox (sy_queue (sv_system s))"
    using s(3) by (simp add: outbox_def codex_rows_def)
  ultimately show ?thesis
    using codex_events_accounted[OF s(1)[unfolded sample_start_def] live_stored delivery_events_ok s(2), of "row_view stop_row"] s(1,2)
    by blast
qed

end
