(* ===== verification/Host_Calls.thy ===== *)
theory Host_Calls
  imports App_Server Outbox
begin

text \<open>
  Where the agent meets the operating system and other processes: the credentials of a peer
  (\<open>internal/agent/peercred_*.go\<close>), the clock of the system tests (\<open>clock_systemtest.go\<close>), the requests to a Herdr
  server (\<open>herdr_api.go\<close>), the text of a refused registration (\<open>register.go\<close>) and the question for the state of the running daemon (\<open>ipc.go\<close>,
  \<open>daemon.go\<close>). What the system calls return are parameters.
\<close>

section \<open>The peer of a connection\<close>

record ucred =
  uc_pid :: int
  uc_uid :: int
  uc_gid :: int

record xucred =
  xu_version :: int
  xu_uid :: int
  xu_groups :: "int list"

text \<open>A connection with the results of \<open>SyscallConn\<close>, of \<open>Control\<close> and of the socket option.\<close>

record 'c peer_socket =
  ps_unix :: bool
  ps_raw :: "unit result"
  ps_control :: "unit result"
  ps_credentials :: "'c option result"

definition verify_peer_linux :: "int \<Rightarrow> ucred peer_socket \<Rightarrow> unit result" where
  "verify_peer_linux euid connection =
     (if \<not> ps_unix connection then fail ''IPC connection is not a Unix socket''
      else case ps_raw connection of
          Inl e \<Rightarrow> Inl e
        | Inr _ \<Rightarrow>
            (case ps_control connection of
               Inl e \<Rightarrow> Inl e
             | Inr _ \<Rightarrow>
                 (case ps_credentials connection of
                    Inl e \<Rightarrow> Inl e
                  | Inr None \<Rightarrow> fail ''IPC peer UID does not match daemon UID''
                  | Inr (Some credentials) \<Rightarrow>
                      if uc_uid credentials \<noteq> euid then fail ''IPC peer UID does not match daemon UID'' else Inr ())))"

definition verify_peer_darwin :: "int \<Rightarrow> xucred peer_socket \<Rightarrow> unit result" where
  "verify_peer_darwin euid connection =
     (if \<not> ps_unix connection then fail ''IPC connection is not a Unix socket''
      else case ps_raw connection of
          Inl e \<Rightarrow> Inl e
        | Inr _ \<Rightarrow>
            (case ps_control connection of
               Inl e \<Rightarrow> Inl e
             | Inr _ \<Rightarrow>
                 (case ps_credentials connection of
                    Inl e \<Rightarrow> Inl e
                  | Inr None \<Rightarrow> fail ''IPC peer UID does not match daemon UID''
                  | Inr (Some credentials) \<Rightarrow>
                      if xu_uid credentials \<noteq> euid then fail ''IPC peer UID does not match daemon UID'' else Inr ())))"

definition verify_peer_other :: "'c peer_socket \<Rightarrow> unit result" where
  "verify_peer_other connection = Inr ()"

lemma verify_peer_linux_ok:
  "verify_peer_linux euid connection = Inr () \<longleftrightarrow>
     ps_unix connection \<and> is_ok (ps_raw connection) \<and> is_ok (ps_control connection) \<and>
     (\<exists>credentials. ps_credentials connection = Inr (Some credentials) \<and> uc_uid credentials = euid)"
  by (auto simp: verify_peer_linux_def is_ok_iff split: sum.splits option.splits)

lemma verify_peer_darwin_ok:
  "verify_peer_darwin euid connection = Inr () \<longleftrightarrow>
     ps_unix connection \<and> is_ok (ps_raw connection) \<and> is_ok (ps_control connection) \<and>
     (\<exists>credentials. ps_credentials connection = Inr (Some credentials) \<and> xu_uid credentials = euid)"
  by (auto simp: verify_peer_darwin_def is_ok_iff split: sum.splits option.splits)

text \<open>The daemon changes nothing and tells nothing but the refusal when the peer is another user.\<close>

theorem stranger_turned_away:
  assumes "\<And>credentials. ps_credentials connection = Inr (Some credentials) \<Longrightarrow> uc_uid credentials \<noteq> euid"
  shows "handle_connection sha256_hex uuid now (is_ok (verify_peer_linux euid connection)) input d = (rejected ''unauthorized peer'', d)"
proof -
  have "\<not> is_ok (verify_peer_linux euid connection)"
    using assms verify_peer_linux_ok[of euid connection] by (auto simp: is_ok_iff)
  then show ?thesis
    by (simp add: handle_connection_def)
qed

section \<open>The clock of the system tests\<close>

text \<open>\<open>clock_file\<close> is the content of the file that \<open>NOVASCALE_SYSTEMTEST_CLOCK\<close> names, if it can be read. A panic is an error.\<close>

definition clock_now :: "string option \<Rightarrow> gotime result" where
  "clock_now clock_file =
     (case clock_file of
        None \<Rightarrow> fail ''system-test clock unavailable''
      | Some content \<Rightarrow>
          (case parse_int64 (trim_space content) of
             None \<Rightarrow> fail ''invalid system-test clock''
           | Some seconds \<Rightarrow> Inr \<lparr>nanos = seconds * second, zone = 0\<rparr>))"

section \<open>A refused registration\<close>

definition registration_error :: "int \<Rightarrow> string" where
  "registration_error status = ''host enrollment request rejected with HTTP status '' @ format_int status"

section \<open>Requests to a Herdr server\<close>

text \<open>A Go map is printed with its keys in order.\<close>

definition herdr_request_line :: "string \<Rightarrow> json \<Rightarrow> string" where
  "herdr_request_line request_method params =
     encode_line (JObj [(''id'', JStr ''novascale-notifications''), (''method'', JStr request_method), (''params'', params)])"

text \<open>\<open>ReadHerdrAgents\<close>, where \<open>server\<close> is what the server at the socket answers to a request, \<open>None\<close> when it cannot be
  reached: \<open>ping\<close>, then \<open>agent.list\<close>, on two connections.\<close>

definition ask_herdr_agents ::
  "int \<Rightarrow> socket_stat option \<Rightarrow> (string \<Rightarrow> string option) \<Rightarrow> socket_stat option \<Rightarrow> (herdr_agent list \<times> string) result" where
  "ask_herdr_agents uid stat0 server stat1 =
     read_herdr_agents uid stat0 (server (herdr_request_line ''ping'' (JObj []))) (server (herdr_request_line ''agent.list'' (JObj []))) stat1"

definition plugin_list_line :: string where
  "plugin_list_line = herdr_request_line ''plugin.list'' (JObj [(''plugin_id'', JStr HerdrPluginID)])"

lemma herdr_request_line_parses:
  assumes "valid_utf8 request_method" "json_ok params"
  shows "parse_prefix (herdr_request_line request_method params) =
    Some (JObj [(''id'', JStr ''novascale-notifications''), (''method'', JStr request_method), (''params'', params)], [CHR 10])"
proof -
  have "json_ok (JObj [(''id'', JStr ''novascale-notifications''), (''method'', JStr request_method), (''params'', params)])"
    using assms by (simp add: key_utf8 byte_def)
  from parse_line[OF this order_refl] show ?thesis
    by (simp add: herdr_request_line_def)
qed


section \<open>Reading back\<close>

lemma units_ascii: "ascii s \<Longrightarrow> units s = map (\<lambda>c. (byte c, 1)) s"
  by (induction s) (simp_all add: ascii_def units_ascii_Cons del: units.simps(2))

text \<open>White space behind an ASCII text.\<close>

lemma trim_space_line:
  assumes "ascii s" "s \<noteq> []" "\<not> is_space (byte (hd s))" "\<not> is_space (byte (List.last s))" "ascii ws" "list_all (\<lambda>c. is_space (byte c)) ws"
  shows "trim_space (s @ ws) = s"
proof -
  have u: "units (s @ ws) = map (\<lambda>c. (byte c, 1)) (s @ ws)"
    using assms(1,5) by (intro units_ascii) (simp add: ascii_def)
  have "dropWhile (\<lambda>u. is_space (fst u)) (map (\<lambda>c. (byte c, 1 :: nat)) (s @ ws)) = map (\<lambda>c. (byte c, 1)) (s @ ws)"
    using assms(2,3) by (cases s) simp_all
  then have front: "drop_spaces (units (s @ ws)) = map (\<lambda>c. (byte c, 1)) (s @ ws)"
    unfolding drop_spaces_def u .
  have rear: "drop_spaces (rev (map (\<lambda>c. (byte c, 1 :: nat)) (s @ ws))) = rev (map (\<lambda>c. (byte c, 1)) s)"
  proof -
    have "dropWhile (\<lambda>u. is_space (fst u)) (rev (map (\<lambda>c. (byte c, 1 :: nat)) ws) @ rev (map (\<lambda>c. (byte c, 1)) s))
        = dropWhile (\<lambda>u. is_space (fst u)) (rev (map (\<lambda>c. (byte c, 1)) s))"
      using assms(6) by (intro dropWhile_append2) (auto simp: list_all_iff)
    moreover have "dropWhile (\<lambda>u. is_space (fst u)) (rev (map (\<lambda>c. (byte c, 1 :: nat)) s)) = rev (map (\<lambda>c. (byte c, 1)) s)"
      using assms(2,4) by (cases s rule: rev_cases) simp_all
    ultimately show ?thesis
      by (simp add: drop_spaces_def)
  qed
  have n: "sum_list (map snd (map (\<lambda>c. (byte c, 1 :: nat)) xs)) = length xs" for xs
    by (induction xs) simp_all
  have m: "sum_list (map snd (rev (map (\<lambda>c. (byte c, 1 :: nat)) s))) = length s"
    using n[of s] by (simp add: rev_map[symmetric])
  show ?thesis
    unfolding trim_space_def Let_def front rear n m by simp
qed

lemma digit_no_space: "is_digit c \<Longrightarrow> \<not> is_space (byte c) \<and> byte c < 128"
  by (auto simp: is_digit_def is_space_def byte_def)

lemma format_int_chars: "list_all (\<lambda>c. \<not> is_space (byte c) \<and> byte c < 128) (format_int n)" "format_int n \<noteq> []"
proof -
  have d: "list_all (\<lambda>c. \<not> is_space (byte c) \<and> byte c < 128) (dec_digits m)" "dec_digits m \<noteq> []" if "0 \<le> m" for m
    using dec_digits_all[OF that] by (auto simp: all_digits_def list_all_iff digit_no_space)
  have minus: "\<not> is_space (byte (CHR ''-''))" "byte (CHR ''-'') < 128"
    by (simp_all add: is_space_def byte_def)
  show "list_all (\<lambda>c. \<not> is_space (byte c) \<and> byte c < 128) (format_int n)"
    using d[of n] d[of "- n"] minus by (simp add: format_int_def)
  show "format_int n \<noteq> []"
    using d[of n] by (simp add: format_int_def)
qed

text \<open>The test harness writes seconds and a line end; the clock reads them back, and it is the only clock it accepts.\<close>

theorem clock_reads_back:
  assumes "int64 n"
  shows "clock_now (Some (format_int n @ [CHR 10])) = Inr \<lparr>nanos = n * second, zone = 0\<rparr>"
proof -
  have c: "\<And>c. c \<in> set (format_int n) \<Longrightarrow> \<not> is_space (byte c) \<and> byte c < 128"
    using format_int_chars(1) by (simp add: list_all_iff)
  have "trim_space (format_int n @ [CHR 10]) = format_int n"
    using c format_int_chars(2) by (intro trim_space_line) (auto simp: ascii_def list_all_iff is_space_def byte_def)
  then show ?thesis
    using assms by (simp add: clock_now_def parse_int64_format int64_def)
qed

text \<open>The running daemon tells its state to \<open>ReadDaemonInfo\<close> without a change.\<close>

lemma info_response_fields:
  "info_response_member ''version'' v r = store (dec_string v) dr_version dr_version_update r"
  "info_response_member ''capabilities'' v r = store (dec_slice dec_string [] v) dr_capabilities dr_capabilities_update r"
  "info_response_member ''queueDepth'' v r = store (dec_int v) dr_queue_depth dr_queue_depth_update r"
  "info_response_member ''registrationState'' v r = store (dec_string v) dr_registration_state dr_registration_state_update r"
  "info_response_member ''error'' v r = store (dec_string v) dr_error dr_error_update r"
  by (simp_all add: info_response_member_def is_field_ascii ascii_def byte_def fold_rune_def)

lemma dec_texts: "dec_elements dec_string [] (map JStr ss) = (ss, True)"
  by (induction ss) simp_all

lemma dec_info_response:
  assumes "int64 (dr_queue_depth r)"
  shows "dec_struct info_response_member (info_response_json r) zero_info_response = (r, True)"
  using assms
  by (cases r) (simp add: info_response_json_def zero_info_response_def dec_members_append dec_opt_member info_response_fields store_def
      dec_texts parse_int64_format int64_def)

definition info_response_wf :: "daemon_info_response \<Rightarrow> bool" where
  "info_response_wf r \<longleftrightarrow> valid_utf8 (dr_version r) \<and> list_all valid_utf8 (dr_capabilities r) \<and> int64 (dr_queue_depth r) \<and>
     valid_utf8 (dr_registration_state r) \<and> valid_utf8 (dr_error r)"

definition info_response_line :: "daemon_info_response \<Rightarrow> string result" where
  "info_response_line r = Inr (encode_line (info_response_json r))"

definition read_info_response :: "string \<Rightarrow> daemon_info_response result" where
  "read_info_response reply = decode_line (dec_struct info_response_member) reply zero_info_response"

lemma info_response_ok: "info_response_wf r \<Longrightarrow> json_ok (info_response_json r)"
  by (simp add: info_response_wf_def info_response_json_def opt_member_ok key_utf8 byte_def list.pred_map comp_def)

interpretation info_codec: codec info_response_line read_info_response info_response_wf
  by unfold_locales
    (auto simp: info_response_line_def read_info_response_def decode_line_print info_response_ok dec_info_response info_response_wf_def)


lemma info_request_handled:
  "handle_connection sha256_hex uuid now True info_request_line d = (encode_line (info_response_json (daemon_info d)), d)"
proof -
  let ?j = "JObj [(''type'', JStr DaemonInfoRequestType)]"
  have "length info_request_line < 100"
    by code_simp
  then have n: "length (encode_line ?j) \<le> MaxIPCMessage"
    by (simp add: info_request_line_def MaxIPCMessage_def)
  have "json_ok ?j"
    by (simp add: key_utf8 byte_def DaemonInfoRequestType_def)
  from parse_line[OF this n] have p: "parse_prefix (take MaxIPCMessage info_request_line) = Some (?j, [CHR 10])"
    by (simp add: info_request_line_def)
  have i: "dec_struct info_request_member ?j \<lparr>dq_type = []\<rparr> = (\<lparr>dq_type = DaemonInfoRequestType\<rparr>, True)"
    by (simp add: info_request_member_def is_field_ascii ascii_def byte_def fold_rune_def)
  obtain s sok where s: "dec_struct dirty_event_member ?j zero_dirty_event = (s, sok)" by fastforce
  obtain e eok where e: "dec_struct hook_event_member ?j zero_hook_event = (e, eok)" by fastforce
  show ?thesis
    by (simp only: handle_connection_def p option.case prod.case handle_value_def i s e Let_def) simp
qed

theorem daemon_info_read_back:
  assumes "info_response_wf (daemon_info d)" "dm_version d \<noteq> []"
  shows "read_daemon_info (\<lambda>request. Some (fst (handle_connection sha256_hex uuid now True request d))) = Inr (daemon_info d)"
proof -
  have "decode_line (dec_struct info_response_member) (encode_line (info_response_json (daemon_info d))) zero_info_response = Inr (daemon_info d)"
    using info_codec.decode_encode[OF assms(1), of "encode_line (info_response_json (daemon_info d))"]
    by (simp add: info_response_line_def read_info_response_def)
  then show ?thesis
    using assms(2) by (simp add: read_daemon_info_def info_request_handled) (simp add: daemon_info_def)
qed

text \<open>What a Herdr server answers in the form of its protocol is what \<open>herdrRequest\<close> decodes, and nothing else is.\<close>

definition herdr_answer :: "json \<Rightarrow> string" where
  "herdr_answer j = encode_line (JObj [(''id'', JStr ''novascale-notifications''), (''result'', j)])"

lemma reply_fields:
  "reply_member ''id'' v r = store (dec_string v) hr_id hr_id_update r"
  "reply_member ''result'' v r = store (dec_raw v) hr_result hr_result_update r"
  by (simp_all add: reply_member_def is_field_ascii ascii_def byte_def fold_rune_def)

theorem herdr_answer_read:
  assumes "json_ok j" "length (herdr_answer j) \<le> 1024 * 1024"
  shows "herdr_request (Some (herdr_answer j)) dec zero = (case dec j zero of (x, ok) \<Rightarrow> if ok then Inr x else fail ''invalid Herdr response'')"
proof -
  let ?j = "JObj [(''id'', JStr ''novascale-notifications''), (''result'', j)]"
  have "json_ok ?j"
    using assms(1) by (simp add: key_utf8 byte_def)
  then have p: "parse_prefix (take (1024 * 1024) (herdr_answer j)) = Some (?j, [CHR 10])"
    unfolding herdr_answer_def by (rule parse_line) (rule assms(2)[unfolded herdr_answer_def])
  have d: "dec_struct reply_member ?j \<lparr>hr_id = [], hr_result = None, hr_error = None\<rparr> =
      (\<lparr>hr_id = ''novascale-notifications'', hr_result = Some j, hr_error = None\<rparr>, True)"
    by (simp add: reply_fields store_def dec_raw_def)
  show ?thesis
    by (simp only: herdr_request_def option.case p d prod.case) simp
qed

lemma check_agents_ok:
  "list_all agent_ok as \<Longrightarrow> list_all completion_ok as \<Longrightarrow>
     check_agents evidence as = Inr (map (\<lambda>a. a\<lparr>ha_completion_supported := evidence\<rparr>) as)"
  by (induction as) simp_all

text \<open>A server of the user that answers both requests in the protocol, with agents within the limits, is read completely,
  and the version it answered decides about the completion evidence of all of them.\<close>

theorem herdr_agents_read:
  assumes "st_is_socket st" "st_uid st = uid"
    "server (herdr_request_line ''ping'' (JObj [])) = Some (herdr_answer (JObj [(''version'', JStr v)]))"
    "server (herdr_request_line ''agent.list'' (JObj [])) = Some (herdr_answer (JObj [(''agents'', JArr js)]))"
    "valid_utf8 v" "list_all json_ok js"
    "length (herdr_answer (JObj [(''version'', JStr v)])) \<le> 1024 * 1024" "length (herdr_answer (JObj [(''agents'', JArr js)])) \<le> 1024 * 1024"
    "dec_elements (dec_struct agent_member) zero_agent js = (as, True)" "length as \<le> 512" "list_all agent_ok as" "list_all completion_ok as"
  shows "ask_herdr_agents uid (Some st) server (Some st) =
    Inr (map (\<lambda>a. a\<lparr>ha_completion_supported := herdr_supports_completion_evidence v\<rparr>) as,
      format_int (st_dev st) @ '':'' @ format_int (st_ino st) @ '':'' @ format_int (st_mtime st))"
proof -
  have k: "version_member ''version'' u s = dec_string u s" "agents_member ''agents'' u ags = dec_slice (dec_struct agent_member) zero_agent u ags" for u s ags
    by (simp_all add: version_member_def agents_member_def)
  have j: "json_ok (JObj [(''version'', JStr v)])" "json_ok (JObj [(''agents'', JArr js)])"
    using assms(5,6) by (simp_all add: key_utf8 byte_def)
  have r: "herdr_request (Some (herdr_answer (JObj [(''version'', JStr v)]))) (dec_struct version_member) [] = Inr v"
    by (subst herdr_answer_read[OF j(1) assms(7)]) (simp add: k)
  have r': "herdr_request (Some (herdr_answer (JObj [(''agents'', JArr js)]))) (dec_struct agents_member) [] = Inr as"
    by (subst herdr_answer_read[OF j(2) assms(8)]) (simp add: k assms(9))
  show ?thesis
    using assms(1,2,10) check_agents_ok[OF assms(11,12)]
    by (simp add: ask_herdr_agents_def read_herdr_agents_def assms(3,4) r r' same_socket_def)
qed

section \<open>Concrete calls\<close>

definition own_socket :: "ucred peer_socket" where
  "own_socket = \<lparr>ps_unix = True, ps_raw = Inr (), ps_control = Inr (), ps_credentials = Inr (Some \<lparr>uc_pid = 7, uc_uid = 1000, uc_gid = 1000\<rparr>)\<rparr>"

theorem stranger_turned_away_witness:
  "handle_connection (\<lambda>s. s) (Inl ErrNoRows) (at_time 0) (is_ok (verify_peer_linux 501 own_socket)) info_request_line sample_daemon =
     (rejected ''unauthorized peer'', sample_daemon) \<and> verify_peer_linux 1000 own_socket = Inr ()"
proof
  show "handle_connection (\<lambda>s. s) (Inl ErrNoRows) (at_time 0) (is_ok (verify_peer_linux 501 own_socket)) info_request_line sample_daemon =
     (rejected ''unauthorized peer'', sample_daemon)"
    by (rule stranger_turned_away) (auto simp: own_socket_def)
  show "verify_peer_linux 1000 own_socket = Inr ()"
    by (simp add: verify_peer_linux_def own_socket_def)
qed

theorem clock_reads_back_witness:
  "clock_now (Some (format_int 1700000000 @ [CHR 10])) = Inr \<lparr>nanos = 1700000000 * second, zone = 0\<rparr>"
  by (rule clock_reads_back) (simp add: int64_def)

theorem daemon_info_read_back_witness:
  "read_daemon_info (\<lambda>request. Some (fst (handle_connection (\<lambda>s. s) (Inl ErrNoRows) (at_time 0) True request sample_daemon))) =
     Inr (daemon_info sample_daemon)"
proof (rule daemon_info_read_back)
  show "info_response_wf (daemon_info sample_daemon)" "dm_version sample_daemon \<noteq> []"
    by code_simp+
qed

theorem herdr_answer_read_witness:
  "herdr_request (Some (herdr_answer (JObj [(''version'', JStr ''0.9.2'')]))) (dec_struct version_member) [] = Inr ''0.9.2''"
proof -
  let ?j = "JObj [(''version'', JStr ''0.9.2'')]"
  have "json_ok ?j" "dec_struct version_member ?j [] = (''0.9.2'', True)" "length (herdr_answer ?j) < 100"
    by code_simp+
  then show ?thesis
    using herdr_answer_read[of ?j "dec_struct version_member" "[]"] by simp
qed

definition sample_server :: "string \<Rightarrow> string option" where
  "sample_server request = Some (herdr_answer
     (if request = herdr_request_line ''ping'' (JObj []) then JObj [(''version'', JStr ''0.9.2'')]
      else JObj [(''agents'', JArr [JObj [(''terminal_id'', JStr ''t''), (''pane_id'', JStr ''p''), (''agent_status'', JStr ''idle'')]])]))"

theorem herdr_agents_read_witness:
  "\<exists>as incarnation. ask_herdr_agents 7 (Some \<lparr>st_is_socket = True, st_uid = 7, st_dev = 1, st_ino = 2, st_mtime = 3\<rparr>) sample_server
     (Some \<lparr>st_is_socket = True, st_uid = 7, st_dev = 1, st_ino = 2, st_mtime = 3\<rparr>) = Inr (as, incarnation) \<and>
     map ha_completion_supported as = [True]"
proof -
  let ?js = "[JObj [(''terminal_id'', JStr ''t''), (''pane_id'', JStr ''p''), (''agent_status'', JStr ''idle'')]]"
  let ?as = "[zero_agent\<lparr>ha_terminal_id := ''t'', ha_pane_id := ''p'', ha_status := ''idle''\<rparr>]"
  have "length (herdr_answer (JObj [(''version'', JStr ''0.9.2'')])) < 200" "length (herdr_answer (JObj [(''agents'', JArr ?js)])) < 200"
    "valid_utf8 ''0.9.2''" "list_all json_ok ?js" "herdr_supports_completion_evidence ''0.9.2''"
    "list_all agent_ok ?as" "list_all completion_ok ?as"
    "herdr_request_line ''agent.list'' (JObj []) \<noteq> herdr_request_line ''ping'' (JObj [])"
    "dec_elements (dec_struct agent_member) zero_agent ?js = (?as, True)"
    by code_simp+
  then show ?thesis
    using herdr_agents_read[of "\<lparr>st_is_socket = True, st_uid = 7, st_dev = 1, st_ino = 2, st_mtime = 3\<rparr>" 7 sample_server "''0.9.2''" ?js ?as]
    by (simp add: sample_server_def)
qed

end
