(* ===== verification/Upload_Loop.thy ===== *)
theory Upload_Loop
  imports Outbox
begin

text \<open>
  \<open>uploadLoop\<close> of \<open>internal/agent/daemon.go\<close>: a round of \<open>uploadDue\<close> at the start, at every tick and whenever a
  worker wakes it, until the cancellation. Every round is a run of the actions of \<open>Agent_System\<close>, so what holds of
  all runs holds of the loop.
\<close>

text \<open>What the \<open>select\<close> receives after a round.\<close>

datatype wake_reason = Ticked | Signalled | Stopped

text \<open>\<open>views n\<close> are the views of the \<open>n\<close>-th round. At the end of the list the loop waits in its \<open>select\<close>.\<close>

fun upload_loop ::
  "(nat \<Rightarrow> nat \<Rightarrow> upload_view) \<Rightarrow> nat \<Rightarrow> wake_reason list \<Rightarrow> queue \<Rightarrow> queue \<times> http_request list" where
  "upload_loop views n [] q = upload_due (views n) 0 q"
| "upload_loop views n (reason # reasons) q =
     (case upload_due (views n) 0 q of
        (q', requests) \<Rightarrow>
          if reason = Stopped then (q', requests)
          else (case upload_loop views (Suc n) reasons q' of (q'', rest) \<Rightarrow> (q'', requests @ rest)))"

lemma same_view [simp]: "uv_config v = c \<Longrightarrow> v\<lparr>uv_config := c\<rparr> = v"
  by (cases v) simp

lemma put_queue_again: "put_queue q (put_queue q' s) = put_queue q s"
  by (simp add: put_queue_def put_daemon_def)

text \<open>A round, as actions of the uploader under the configuration of the daemon.\<close>

lemma round_is_run:
  assumes "\<And>i. uv_config (view i) = dm_config (sy_daemon s)" "upload_due view n q = (q', requests)" "q = sy_queue s"
  shows "\<exists>k. agent_run env en sha256_hex (map (\<lambda>i. UploadOne (view i)) [n..<n + k]) s = (put_queue q' s, requests)"
  using assms
proof (induction view n q arbitrary: s q' requests rule: upload_due.induct)
  case (1 view n q)
  obtain again q1 rs where u: "upload_once (view n) q = (again, q1, rs)"
    by (metis prod_cases3)
  have a: "agent_do env en sha256_hex (UploadOne (view n)) s = (put_queue q1 s, rs)"
    using 1(2,4) u by simp
  show ?case
  proof (cases again)
    case False
    then have "q' = q1" "requests = rs"
      using 1(3) u by (simp_all add: upload_due.simps[of view n q])
    then show ?thesis
      using a by (intro exI[of _ 1]) (simp add: agent_run.simps)
  next
    case True
    obtain q2 rest where d: "upload_due view (Suc n) q1 = (q2, rest)"
      by fastforce
    have r: "q' = q2" "requests = rs @ rest"
      using 1(3) u d True by (simp_all add: upload_due.simps[of view n q])
    have c: "\<And>i. uv_config (view i) = dm_config (sy_daemon (put_queue q1 s))"
      using 1(2) by simp
    have "\<exists>k. agent_run env en sha256_hex (map (\<lambda>i. UploadOne (view i)) [Suc n..<Suc n + k]) (put_queue q1 s) =
        (put_queue q2 (put_queue q1 s), rest)"
      by (rule 1(1)[OF u[symmetric] refl True c d]) simp
    then obtain k where k: "agent_run env en sha256_hex (map (\<lambda>i. UploadOne (view i)) [Suc n..<Suc n + k]) (put_queue q1 s) =
        (put_queue q2 (put_queue q1 s), rest)" ..
    have "[n..<n + Suc k] = n # [Suc n..<Suc n + k]"
      by (simp add: upt_conv_Cons)
    then show ?thesis
      using a k r by (intro exI[of _ "Suc k"]) (simp add: agent_run.simps put_queue_again)
  qed
qed

lemma loop_is_run:
  assumes "\<And>n i. uv_config (views n i) = dm_config (sy_daemon s)" "upload_loop views n reasons (sy_queue s) = (q', requests)"
  shows "\<exists>vs. (\<forall>v \<in> set vs. \<exists>n i. v = views n i) \<and> agent_run env en sha256_hex (map UploadOne vs) s = (put_queue q' s, requests)"
  using assms
proof (induction reasons arbitrary: n s q' requests)
  case Nil
  then obtain k where k: "agent_run env en sha256_hex (map (\<lambda>i. UploadOne (views n i)) [0..<0 + k]) s = (put_queue q' s, requests)"
    using round_is_run[of "views n" s 0 "sy_queue s" q' requests env en sha256_hex] by auto
  then show ?case
    by (intro exI[of _ "map (views n) [0..<0 + k]"]) (auto simp: comp_def)
next
  case (Cons reason reasons)
  obtain q1 rs where d: "upload_due (views n) 0 (sy_queue s) = (q1, rs)"
    by fastforce
  obtain k where k: "agent_run env en sha256_hex (map (\<lambda>i. UploadOne (views n i)) [0..<0 + k]) s = (put_queue q1 s, rs)"
    using round_is_run[OF Cons.prems(1) d refl, of env en sha256_hex] by auto
  show ?case
  proof (cases "reason = Stopped")
    case True
    then have "q' = q1" "requests = rs"
      using Cons.prems(2) d by simp_all
    then show ?thesis
      using k by (intro exI[of _ "map (views n) [0..<0 + k]"]) (auto simp: comp_def)
  next
    case False
    obtain q2 rest where l: "upload_loop views (Suc n) reasons q1 = (q2, rest)"
      by fastforce
    have c: "\<And>n i. uv_config (views n i) = dm_config (sy_daemon (put_queue q1 s))"
      using Cons.prems(1) by simp
    have "upload_loop views (Suc n) reasons (sy_queue (put_queue q1 s)) = (q2, rest)"
      using l by simp
    from Cons.IH[OF c this] obtain vs where vs: "\<forall>v \<in> set vs. \<exists>n i. v = views n i"
        "agent_run env en sha256_hex (map UploadOne vs) (put_queue q1 s) = (put_queue q2 (put_queue q1 s), rest)"
      by blast
    have "agent_run env en sha256_hex (map UploadOne (map (views n) [0..<0 + k] @ vs)) s = (put_queue q' s, requests)"
      using k vs(2) Cons.prems(2) d l False by (simp add: agent_run_append comp_def put_queue_again)
    then show ?thesis
      using vs(1) by (intro exI[of _ "map (views n) [0..<0 + k] @ vs"]) auto
  qed
qed

text \<open>The loop keeps the invariant of the daemon, and a Codex event leaves its queue only when the backend took it
  or it has expired, however often and for whatever reason the loop wakes.\<close>

theorem upload_loop_accounts:
  assumes "system_inv sha256_hex s" "\<And>n i. uv_config (views n i) = dm_config (sy_daemon s)"
    "upload_loop views 0 reasons (sy_queue s) = (q', requests)"
  shows "system_inv sha256_hex (put_queue q' s) \<and> outbox q' \<subseteq> outbox (sy_queue s) \<and>
    (\<forall>n \<in> outbox (sy_queue s) - outbox q'. \<exists>i j.
       (\<exists>q \<in> set requests. taken (uv_uplink (views i j)) (note_id n) (note_body n) q) \<or> note_expiry n \<le> unix (uv_now (views i j)))"
proof -
  fix env :: environment and en :: enrollment_env
  obtain vs where views: "\<forall>v \<in> set vs. \<exists>n i. v = views n i"
    and vs: "agent_run env en sha256_hex (map UploadOne vs) s = (put_queue q' s, requests)"
    using loop_is_run[OF assms(2,3)] by blast
  have ok: "list_all action_ok (map UploadOne vs)"
    by (simp add: list_all_iff)
  have inv: "system_inv sha256_hex (put_queue q' s)"
    using agent_run_inv[OF assms(1) ok, of env en] vs by simp
  note r = run_accounts[OF assms(1) ok, of _ env en, unfolded vs fst_conv]
  have "\<not> submitted sha256_hex a n" if "a \<in> set (map UploadOne vs)" for a n
    using that by (auto simp: submitted_def)
  then have sub: "outbox q' \<subseteq> outbox (sy_queue s)"
    using r(1) by auto
  have "\<exists>i j. (\<exists>q \<in> set requests. taken (uv_uplink (views i j)) (note_id n) (note_body n) q) \<or> note_expiry n \<le> unix (uv_now (views i j))"
    if n: "n \<in> outbox (sy_queue s)" "n \<notin> outbox q'" for n
  proof -
    obtain bs a cs where a: "map UploadOne vs = bs @ a # cs"
        "leaves sha256_hex n a (snd (agent_do env en sha256_hex a (fst (agent_run env en sha256_hex bs s))))
          (outbox (sy_queue (fst (agent_run env en sha256_hex bs s))))"
      using r(2)[OF n(1)] n(2) by auto
    have "a \<in> set (map UploadOne vs)"
      unfolding a(1) by simp
    then obtain i j where v: "a = UploadOne (views i j)"
      using views by auto
    have "set (snd (agent_do env en sha256_hex a (fst (agent_run env en sha256_hex bs s)))) \<subseteq> set requests"
      using vs unfolding a(1) by (auto simp: agent_run_append agent_run.simps split: prod.splits)
    then have "(\<exists>q \<in> set requests. taken (uv_uplink (views i j)) (note_id n) (note_body n) q) \<or> note_expiry n \<le> unix (uv_now (views i j))"
      using a(2) unfolding v leaves_def taken_by_def by (simp del: agent_do.simps) blast
    then show ?thesis by blast
  qed
  then show ?thesis
    using inv sub by blast
qed


theorem upload_loop_accounts_witness:
  "\<exists>q' requests. upload_loop (\<lambda>n i. test_view n) 0 [Ticked, Stopped] (sy_queue live_system) = (q', requests) \<and>
     row_view stop_row \<in> outbox (sy_queue live_system) - outbox q' \<and>
     (\<exists>i. (\<exists>q \<in> set requests. taken (uv_uplink (test_view i)) (note_id (row_view stop_row)) (note_body (row_view stop_row)) q) \<or>
       note_expiry (row_view stop_row) \<le> unix (uv_now (test_view i)))"
proof -
  obtain q' requests where l: "upload_loop (\<lambda>n i. test_view n) 0 [Ticked, Stopped] (sy_queue live_system) = (q', requests)"
    by fastforce
  have "q_events (fst (upload_loop (\<lambda>n i. test_view n) 0 [Ticked, Stopped] (sy_queue live_system))) = []" "pe_source stop_row = ''codex''"
    by code_simp+
  then have "row_view stop_row \<in> outbox (sy_queue live_system) - outbox q'"
    using outbox_member[of stop_row live_queue] l by (simp add: live_system_def live_queue_def outbox_def codex_rows_def)
  moreover have "uv_config (test_view n) = dm_config (sy_daemon live_system)" for n
    by (simp add: test_view_def live_system_def sample_daemon_def)
  ultimately show ?thesis
    using upload_loop_accounts[OF live_system_inv _ l] l by blast
qed

end
