(* ===== verification/Spec2Isabelle.thy ===== *)
theory Spec2Isabelle
  imports Plugin_Samples App_Update Host_Calls Upload_Loop Enrollment_Loop
begin

text \<open>
  The NovaScale notification agent (\<open>src/notifications\<close>), a Go program of 28 files in six packages. It runs beside
  Codex and Herdr on a user's host and tells a backend when a session needs attention.

  \<^bold>\<open>The program.\<close> Codex starts the agent as a hook with a JSON payload on its input; Herdr starts it as a plugin
  hook with its session in the environment. The hook reduces what it got to a few identifiers and sends one line over
  a Unix socket to the daemon. The daemon checks the peer and the line, turns a Codex event into a \<^emph>\<open>host event\<close> with
  an identifier derived from the host and the event, and stores it in a bounded SQLite queue; a Herdr signal only marks
  a socket as dirty, and a loop then reads the agents of that Herdr server and compares them with the stored panes to
  find out what happened. An uploader takes one event after another, signs it with the host key and posts it to the
  backend. Another loop enrolls the host: it asks the backend for a token for an endpoint, registers the public key and
  makes the configuration active. The command line installs the hooks, creates the identity, switches the backend,
  sets up the plugin, restarts the Codex App Server after an update and removes all of it again.

  \<^bold>\<open>Libraries of Go.\<close>
  \<^item> \<open>Prelude\<close>: byte strings and \<open>package strings\<close>, errors as \<open>result\<close> (\<open>Inl\<close> is the text of the error), association
    lists for Go maps whose order of insertion matters to no theorem.
  \<^item> \<open>GoText\<close>: runes, UTF-8 decoding with the replacement character, \<open>unicode\<close> classes the code uses.
  \<^item> \<open>GoTime\<close>: instants in nanoseconds, the civil calendar, RFC 3339 and duration arithmetic.
  \<^item> \<open>Json\<close>, \<open>Json_Roundtrip\<close>: \<open>encoding/json\<close>, the parser and the compact and indented printers, and that the parser
    inverts both. \<open>Decode_Wf\<close>: what any successful parse guarantees.
  \<^item> \<open>Base64\<close>, \<open>Url\<close>, \<open>Paths\<close>, \<open>Flags\<close>: \<open>base64.RawURLEncoding\<close>, \<open>net/url\<close>, \<open>path/filepath\<close> with the file system as a map
    from paths to files, and \<open>package flag\<close>.

  \<^bold>\<open>Which theory models which file.\<close>
  \<^item> \<open>internal/protocol\<close>: \<open>Protocol\<close> has the types and \<open>Valid\<close> checks of \<open>types.go\<close>; \<open>Codec\<close> their JSON codecs and
    \<open>Codec_Roundtrip\<close> the locale \<open>codec\<close> with its interpretations; \<open>Metadata\<close> has \<open>herdr_metadata.go\<close> and
    \<open>Metadata_Bounds\<close> its contract.
  \<^item> \<open>internal/agent/queue.go\<close>: \<open>Queue\<close>. The record \<open>queue\<close> holds the tables as lists of rows (\<open>pending_event\<close>,
    \<open>herdr_binding\<close>, \<open>herdr_pane\<close> and the settings); every SQL statement is a function on them, every method a
    composition of statements in the order of its transaction. The locale \<open>event_store\<close> is what the uploader relies on.
  \<^item> \<open>internal/agent/identity.go\<close>, \<open>internal/signing\<close>: \<open>Identity\<close>. \<open>config.go\<close>: \<open>Config\<close>, \<open>Agent_Paths\<close>.
  \<^item> \<open>herdr_api.go\<close>, \<open>herdr_bindings.go\<close>: \<open>Herdr_Api\<close>; \<open>herdr_state.go\<close>: \<open>Herdr_State\<close> with the transaction
    \<open>ReconcileHerdr\<close>, \<open>Reconcile\<close>, \<open>Reconcile_Repeat\<close> and \<open>Reconcile_Properties\<close> with its lemmas and the locale \<open>upsert_table\<close> of its tables;
    \<open>Capture\<close> has \<open>reconcileHerdr\<close> around the transaction, the discovery of sockets (\<open>herdr_capture.go\<close>) and the branches
    of \<open>herdrLoop\<close>.
  \<^item> \<open>hook.go\<close>, \<open>ipc.go\<close>: \<open>Ipc\<close>; \<open>daemon.go\<close>: \<open>Daemon\<close> (\<open>handleConnection\<close> on the bytes of one line) and \<open>Upload\<close>
    (\<open>uploadToBackend\<close>, \<open>uploadDue\<close>); \<open>Delivery\<close> composes hook, socket, daemon and queue.
  \<^item> \<open>register.go\<close>: \<open>Register\<close>; \<open>enrollment.go\<close>: \<open>Enrollment\<close>, an iteration of the loop as a function on
    configuration file, daemon and delays, and the loop as the inductive relation \<open>reachable\<close>.
  \<^item> \<open>Daemon.Run\<close>: \<open>Agent_System\<close>. An \<open>agent_action\<close> is a step of one worker (a connection, a signal received or drained
    by the capture loop, a tick of discovery, one upload, one iteration of the enrollment, a command that switches capture),
    \<open>agent_run\<close> the run of a list of them on the shared state. Every order and every answer of the surroundings is a list.
    \<open>Serving\<close> has \<open>Run\<close> around them: its start, the accept loop with 64 slots, the rounds of the workers, cancellation, the
    goroutine that closes the listener, the deferred waits and the return, as events that are enabled or not (\<open>serve_do\<close>), executions
    (\<open>serve_run\<close>) and reachable states; \<open>Serving_Properties\<close> what holds of them. \<open>Fairness\<close> has infinite executions, weak and strong
    fairness and the rules of progress; what \<open>Serving\<close> asks of the scheduler is the definition \<open>fair_scheduler\<close>. A round of a worker
    may take any number of its actions.
    \<open>Upload_Loop\<close> and \<open>Enrollment_Loop\<close> are \<open>uploadLoop\<close> and \<open>enrollmentLoop\<close> with their waits.
  \<^item> \<open>peercred_*.go\<close>, \<open>clock_systemtest.go\<close>, and what is sent to Herdr and asked of the running daemon: \<open>Host_Calls\<close>.
  \<^item> \<open>Outbox\<close> is the abstract specification of the daemon towards Codex: a set of notices with five kinds of steps. The locale
    \<open>simulation\<close> says what it takes to refine a labelled specification, and its interpretation \<open>daemon\<close> is the proof for \<open>agent_do\<close>.
  \<^item> \<open>internal/hookconfig\<close>: \<open>Hook_Config\<close>, \<open>Hook_Files\<close>. \<open>internal/appservercontrol\<close>: \<open>App_Server\<close>, \<open>App_Update\<close>.
  \<^item> \<open>herdr_setup.go\<close>: \<open>Plugin_Setup\<close>, \<open>Plugin_Properties\<close>.
  \<^item> \<open>cmd/novascale-agent\<close>: \<open>Cli\<close> (\<open>main.go\<close> and \<open>enrollment_lock.go\<close>) and \<open>Commands\<close> (\<open>status\<close>, \<open>capabilities\<close>, \<open>herdr.go\<close>,
    \<open>uninstall.go\<close>, the dispatch of \<open>main\<close>); \<open>Cli_Properties\<close>, \<open>Uninstall_Properties\<close>.
  \<^item> \<open>Enrollment_Samples\<close>, \<open>Cli_Samples\<close>, \<open>Plugin_Samples\<close>: concrete hosts on which the properties are applied.

  \<^bold>\<open>What is shown.\<close>
  \<^item> \<^emph>\<open>Delivery.\<close> A hook forwards five members of its payload and no other text of it; a normalised event that reaches the
    daemon is acknowledged and queued under its identifier, and what is acknowledged was stored (\<open>Delivery\<close>). Two events
    with a request identifier share an event identifier exactly when they agree on everything that names them.
  \<^item> \<^emph>\<open>Queue.\<close> Every operation keeps at most 500 events, 200 of them from Herdr, 50 of one Herdr session, with distinct
    identifiers; Herdr never displaces Codex; the next event is due, unexpired, of the configured backend, and the two
    sources alternate (\<open>Queue\<close>).
  \<^item> \<^emph>\<open>Upload.\<close> At most two requests for an event, each signed for its own body; a run ends, because each upload removes or
    postpones a row (\<open>Upload\<close>). A signature covers time, event and body, and the texts signed for intents, registrations
    and events never coincide (\<open>Identity\<close>, \<open>Register\<close>).
  \<^item> \<^emph>\<open>Enrollment.\<close> Over all reachable states the identity stays, delays stay within their bounds, and a host becomes
    registered only when the disk says so or the backend accepted it; a willing backend registers it in one iteration (\<open>Enrollment\<close>).
  \<^item> \<^emph>\<open>Capture.\<close> The transaction adds only valid events of its own session, leaves the rows of other bindings alone, is
    quiet on a repeated snapshot and stores exactly the snapshot (if no pane is listed twice); baselines never notify; a
    switched-off capture stays silent (\<open>Reconcile\<close>, \<open>Reconcile_Repeat\<close>, \<open>Reconcile_Properties\<close>, \<open>Agent_Runs\<close>).
  \<^item> \<^emph>\<open>The whole daemon.\<close> Every execution of \<open>Run\<close> is a run of the workers, which keeps the invariant of queue, channel, signals and bindings, uploads only
    valid events, and loses no unexpired Codex event without an answer of the backend (\<open>Agent_System\<close>, \<open>Agent_Runs\<close>,
    \<open>Agent_Properties\<close>). After a cancellation \<open>Run\<close> returns under a fair scheduler; after an error of \<open>Accept\<close> it hangs (\<open>Serving_Properties\<close>).
  \<^item> \<^emph>\<open>The contract.\<close> The daemon refines the outbox, so every Codex event is accounted for: it was stored before or sent by a
    verified client, and it is stored, taken by the backend, expired, or displaced from 500 others (\<open>Outbox\<close>).
  \<^item> \<^emph>\<open>The loops.\<close> \<open>uploadLoop\<close> is a run of uploads (\<open>Upload_Loop\<close>), \<open>enrollmentLoop\<close> asks the backend at most twice for each of
    its shortest delays (\<open>Enrollment_Loop\<close>).
  \<^item> \<^emph>\<open>Round trips.\<close> JSON text and values, the codecs of all protocol types, the configuration file, key file, hook
    installation and removal, shell quoting, the configuration \<open>setup.sh\<close> writes, the elapsed time \<open>ps\<close> prints,
    the answers of a Herdr server, the state of the running daemon, the clock of the system tests.
  \<^item> \<^emph>\<open>Commands.\<close> What \<open>init\<close>, \<open>switch-backend\<close>, \<open>herdr install\<close>, \<open>herdr status\<close>, \<open>herdr test\<close> and \<open>uninstall\<close> change and
    what they leave (\<open>Cli_Properties\<close>, \<open>Plugin_Properties\<close>, \<open>Uninstall_Properties\<close>). Theorems without a claim number, such as
    \<open>uninstall_checks_first\<close>, \<open>install_only_when_supported\<close>, \<open>herdr_test_queued\<close> or \<open>changed_at_latest\<close>, are proved in the
    same way and complete the picture.

  \<^bold>\<open>Bounds, recursion and fuel.\<close>
  \<^item> \<open>Normalized\<close> halves the display texts until the JSON text has at most 1200 bytes. The loop is a \<open>partial_function\<close>, so
    that not returning would be the value \<open>None\<close>; \<open>normalized_returns\<close> shows that it returns for every input.
  \<^item> \<open>upload_due\<close> is a total function because every upload that lets it go on shortens the queue, \<open>upload_to_backend\<close> because
    the second request has no metadata to strip. The JSON parser has fuel, one unit for a call, twice the
    length of its text and two; \<open>parse_value_fuel\<close> of \<open>Json_Roundtrip\<close> shows that more fuel never changes an answer.
  \<^item> Links are followed at most 32 times as in \<open>maxSymlinkDepth\<close>; the counter is the code's own, not fuel of the model. Of the same
    kind are 128 dirty signals and bindings, the limits on the rows of the queue, and the limits in bytes on a line of the socket, a
    reply of Herdr, \<open>hooks.json\<close>, the configuration of \<open>setup.sh\<close> and the output of a command.
  \<^item> Instants and durations are integers; where Go's 64 bits matter (elapsed times from \<open>ps\<close>, signed time stamps) the
    wrap-around or the bound is written out. UUID bits and base64 groups are computed on bytes.

  \<^bold>\<open>Parameters.\<close> SHA-256, Ed25519 and the random source; what the backend, a Herdr server, the service manager and \<open>ps\<close>
  answer; the clock; the credentials of a peer; whether the lock file is free. Where a theorem needs more of them than that they
  are functions, the law is a hypothesis by name (a verifier that rejects other texts, an injective hash on the texts compared), and
  its witness applies it to a concrete instance.

  \<^bold>\<open>Not modelled.\<close>
  \<^item> Sockets, deadlines, goroutines, tickers and cancellation other than as the order and choice of steps; what a connection
    in progress sees of the others is one atomic step.
  \<^item> The SQL engine, its locks and the errors of disk and database where the code only passes them on; directories and their
    modes beyond the checks of \<open>uninstall\<close>; \<open>flock\<close> beyond its result; the peer-credential system calls and the
    real clock (their results are parameters). The JSON decoder's reuse of slice elements when a member is repeated.
  \<^item> \<open>json.RawMessage\<close> is the value it parses to, so the spelling of escapes in a foreign handler of \<open>hooks.json\<close> is not kept
    apart. The limit of 10000 nested values of \<open>encoding/json\<close>.
  \<^item> What the commands of the service manager and of Herdr's registry do to files. The usage text \<open>package flag\<close> prints.
    \<open>herdr test\<close> reads the clock once in the model and once for each call in the code.
  \<^item> The shell and Python scripts, except for the quoting of \<open>setup.sh\<close> that the agent reads back; the tests.
\<close>

end
